theory Spec2Isabelle
  imports Complex_Main "HOL-Library.Multiset"
begin

section \<open>Merge policy (highlight-merge-policy.ts)\<close>

text \<open>
  The fields of \<open>AnyHighlightData\<close> that the overlay engine and the merge policy read.
  \<open>type\<close> is the tag \<open>'text' | 'element' | 'complex'\<close>; optional fields
  (\<open>color?\<close>, \<open>notes?\<close>) are options, \<open>None\<close> standing for
  \<open>undefined\<close>. Offsets are JavaScript numbers holding integers.
\<close>

datatype highlight_type = TextType | ElementType | ComplexType

record highlight =
  hl_id :: string
  hl_type :: highlight_type
  xpath :: string
  startOffset :: int
  endOffset :: int
  content :: string
  color :: "string option"
  hl_notes :: "string list option"

datatype HighlightMergeRelationship = Adjacent | Overlap

definition FALLBACK_HIGHLIGHT_COLOR :: string where
  "FALLBACK_HIGHLIGHT_COLOR = ''#ffeb3b''"

text \<open>
  \<open>highlight.color || FALLBACK_HIGHLIGHT_COLOR\<close>: the fallback is taken for
  \<open>undefined\<close> and also for the empty string, which is falsy.
\<close>

definition resolveHighlightColor :: "'a highlight_scheme \<Rightarrow> string" where
  "resolveHighlightColor h =
     (case color h of
        None \<Rightarrow> FALLBACK_HIGHLIGHT_COLOR
      | Some c \<Rightarrow> (if c = [] then FALLBACK_HIGHLIGHT_COLOR else c))"

definition shouldAutoMergeHighlights ::
  "'a highlight_scheme \<Rightarrow> 'a highlight_scheme \<Rightarrow> HighlightMergeRelationship \<Rightarrow> bool" where
  "shouldAutoMergeHighlights highlight1 highlight2 relationship =
     (if relationship = Overlap then False
      else if hl_type highlight1 = TextType \<and> hl_type highlight2 = TextType
              \<and> xpath highlight1 = xpath highlight2
           then resolveHighlightColor highlight1 = resolveHighlightColor highlight2
      else True)"

text \<open>The highlights of the merge-policy test file.\<close>

definition textHighlight :: "int \<Rightarrow> int \<Rightarrow> string \<Rightarrow> highlight" where
  "textHighlight s e c =
     \<lparr>hl_id = [], hl_type = TextType, xpath = ''/html/body/p[1]'', startOffset = s,
      endOffset = e, content = [], color = Some c, hl_notes = None\<rparr>"

section \<open>Timestamp fallback (highlight-timestamp-utils.ts)\<close>

text \<open>
  JavaScript values as far as the timestamp and storage code inspects them. A number is
  NaN, an infinity or a finite value; finite values are kept exact (a double represents
  every integer up to \<open>2^53\<close> exactly, which covers millisecond timestamps). An object
  is the list of its own enumerable properties in \<open>Object.entries\<close> order.
\<close>

datatype jsnumber = NaN | PosInfinity | NegInfinity | Finite real

datatype jsvalue =
    JUndefined
  | JNull
  | JBoolean bool
  | JNumber jsnumber
  | JString string
  | JArray "jsvalue list"
  | JObject "(string \<times> jsvalue) list"

text \<open>
  \<open>Number.parseInt(id, 10)\<close>: leading white space is skipped, one sign is read, and the
  longest prefix of decimal digits is converted; no digit gives NaN. Strings are sequences
  of 8-bit code units, so the white space is the ASCII white space and U+00A0. An integer
  beyond the range of doubles converts to an infinity.
\<close>

definition isStrWhiteSpaceChar :: "char \<Rightarrow> bool" where
  "isStrWhiteSpaceChar c = (of_char c \<in> {9, 10, 11, 12, 13, 32, 160 :: nat})"

definition isDecimalDigit :: "char \<Rightarrow> bool" where
  "isDecimalDigit c = (48 \<le> (of_char c :: nat) \<and> (of_char c :: nat) \<le> 57)"

definition digitValue :: "char \<Rightarrow> int" where
  "digitValue c = of_char c - 48"

definition DOUBLE_OVERFLOW :: int where
  "DOUBLE_OVERFLOW = 2 ^ 1024 - 2 ^ 970"

definition numberOfInt :: "int \<Rightarrow> jsnumber" where
  "numberOfInt n =
     (if DOUBLE_OVERFLOW \<le> n then PosInfinity
      else if n \<le> - DOUBLE_OVERFLOW then NegInfinity
      else Finite (of_int n))"

definition parseInt10 :: "string \<Rightarrow> jsnumber" where
  "parseInt10 inputString =
     (let S = dropWhile isStrWhiteSpaceChar inputString;
          sign = (if S \<noteq> [] \<and> hd S = CHR ''-'' then - 1 else 1 :: int);
          S' = (if S \<noteq> [] \<and> (hd S = CHR ''+'' \<or> hd S = CHR ''-'') then tl S else S);
          Z = takeWhile isDecimalDigit S'
      in if Z = [] then NaN
         else numberOfInt (sign * foldl (\<lambda>a c. 10 * a + digitValue c) 0 Z))"

definition Number_isFinite :: "jsnumber \<Rightarrow> bool" where
  "Number_isFinite v = (case v of Finite _ \<Rightarrow> True | _ \<Rightarrow> False)"

text \<open>The comparison \<open>v > 0\<close> on numbers; it is false for NaN.\<close>

definition greaterThanZero :: "jsnumber \<Rightarrow> bool" where
  "greaterThanZero v = (case v of Finite r \<Rightarrow> 0 < r | PosInfinity \<Rightarrow> True | _ \<Rightarrow> False)"

definition isValidHighlightTimestamp :: "jsvalue \<Rightarrow> bool" where
  "isValidHighlightTimestamp v =
     (case v of JNumber n \<Rightarrow> Number_isFinite n \<and> greaterThanZero n | _ \<Rightarrow> False)"

definition parseHighlightIdTimestamp :: "jsvalue \<Rightarrow> jsnumber option" where
  "parseHighlightIdTimestamp ident =
     (case ident of
        JString s \<Rightarrow>
          (let parsedIdTimestamp = parseInt10 s
           in if Number_isFinite parsedIdTimestamp \<and> greaterThanZero parsedIdTimestamp
              then Some parsedIdTimestamp else None)
      | _ \<Rightarrow> None)"

text \<open>
  The candidates are \<open>number | undefined\<close>; the first valid one is returned, and
  \<open>Date.now()\<close>, here the reading \<open>now\<close> of the clock, when there is none.
\<close>

fun resolveHighlightCreatedAt :: "real \<Rightarrow> jsnumber option list \<Rightarrow> jsnumber" where
  "resolveHighlightCreatedAt now [] = Finite now"
| "resolveHighlightCreatedAt now (candidate # candidates) =
     (case candidate of
        Some n \<Rightarrow> (if Number_isFinite n \<and> greaterThanZero n then n
                   else resolveHighlightCreatedAt now candidates)
      | None \<Rightarrow> resolveHighlightCreatedAt now candidates)"

definition normalizeHighlightCreatedAt :: "real \<Rightarrow> jsvalue \<Rightarrow> jsvalue \<Rightarrow> jsnumber" where
  "normalizeHighlightCreatedAt now createdAt highlightId =
     resolveHighlightCreatedAt now
       [if isValidHighlightTimestamp createdAt
        then (case createdAt of JNumber n \<Rightarrow> Some n | _ \<Rightarrow> None) else None,
        parseHighlightIdTimestamp highlightId]"

text \<open>
  The specification's condition on an identifier, in its own words: the identifier is a string
  that \<open>parseInt\<close> reads as a positive integer.
\<close>

definition spec_parsesToPositiveInteger :: "jsvalue \<Rightarrow> bool" where
  "spec_parsesToPositiveInteger ident =
     (case ident of
        JString s \<Rightarrow>
          (case parseInt10 s of Finite r \<Rightarrow> r = of_int \<lfloor>r\<rfloor> \<and> 0 < r | _ \<Rightarrow> False)
      | _ \<Rightarrow> False)"

definition validCandidate :: "jsnumber option \<Rightarrow> bool" where
  "validCandidate c = (case c of Some n \<Rightarrow> Number_isFinite n \<and> greaterThanZero n | None \<Rightarrow> False)"

section \<open>Anchor and range resolver (highlighter-overlays.ts)\<close>

text \<open>
  The part of the DOM the text-offset code reads: text nodes with their data and elements
  with a tag and children, in document order. \<open>textContent\<close> of an element is the
  concatenation of the data of its text descendants.
\<close>

datatype dom = TextNode string | ElementNode string "dom list"

fun textNodesOf :: "dom \<Rightarrow> string list" where
  "textNodesOf (TextNode t) = [t]"
| "textNodesOf (ElementNode tag kids) = concat (map textNodesOf kids)"

fun textDescendants :: "dom \<Rightarrow> string list" where
  "textDescendants (TextNode t) = []"
| "textDescendants (ElementNode tag kids) = concat (map textNodesOf kids)"

definition textContent :: "dom \<Rightarrow> string" where
  "textContent n = concat (textNodesOf n)"

definition isTextNode :: "dom \<Rightarrow> bool" where
  "isTextNode n = (case n of TextNode _ \<Rightarrow> True | ElementNode _ _ \<Rightarrow> False)"

text \<open>
  A node reference relative to the element a tree walker is rooted at: the root itself,
  its \<open>i\<close>-th text descendant in document order, or a node the walker never visits.
\<close>

datatype node_ref = Container | TextRef nat | Unvisited

record walked =
  w_ref :: node_ref
  w_isText :: bool
  w_textContent :: string

record point =
  node :: node_ref
  offset :: int

fun walkTexts :: "nat \<Rightarrow> string list \<Rightarrow> walked list" where
  "walkTexts k [] = []"
| "walkTexts k (t # ts) =
     \<lparr>w_ref = TextRef k, w_isText = True, w_textContent = t\<rparr> # walkTexts (Suc k) ts"

text \<open>
  \<open>document.createTreeWalker(element, NodeFilter.SHOW_TEXT)\<close>: \<open>currentNode\<close> is the
  root whatever the filter says, and \<open>nextNode()\<close> runs through the text descendants.
  The walk starts at \<open>nextNode()\<close> or at \<open>currentNode\<close>.
\<close>

definition walkFromNextNode :: "dom \<Rightarrow> walked list" where
  "walkFromNextNode element = walkTexts 0 (textDescendants element)"

definition walkFromCurrentNode :: "dom \<Rightarrow> walked list" where
  "walkFromCurrentNode element =
     \<lparr>w_ref = Container, w_isText = isTextNode element, w_textContent = textContent element\<rparr>
       # walkTexts 0 (textDescendants element)"

text \<open>The \<open>while (node)\<close> loop of \<open>findTextNodeAtOffset\<close> and what follows it.\<close>

fun findTextNodeLoop :: "walked list \<Rightarrow> int \<Rightarrow> int \<Rightarrow> node_ref option \<Rightarrow> point option" where
  "findTextNodeLoop [] offs currentOffset firstTextNode =
     (case firstTextNode of
        Some f \<Rightarrow> Some \<lparr>node = f, offset = 0\<rparr>
      | None \<Rightarrow> None)"
| "findTextNodeLoop (w # ws) offs currentOffset firstTextNode =
     (let nodeLength = int (length (w_textContent w)) in
      if w_isText w then
        (let firstTextNode' = (case firstTextNode of None \<Rightarrow> Some (w_ref w) | Some f \<Rightarrow> Some f) in
         if currentOffset + nodeLength \<ge> offs
         then Some \<lparr>node = w_ref w, offset = min (max 0 (offs - currentOffset)) nodeLength\<rparr>
         else findTextNodeLoop ws offs (currentOffset + nodeLength) firstTextNode')
      else findTextNodeLoop ws offs (currentOffset + nodeLength) firstTextNode)"

definition findTextNodeAtOffset :: "dom \<Rightarrow> int \<Rightarrow> bool \<Rightarrow> point option" where
  "findTextNodeAtOffset element offs useCanonicalOffsets =
     findTextNodeLoop
       (if useCanonicalOffsets then walkFromNextNode element else walkFromCurrentNode element)
       offs 0 None"

definition shouldUseCanonicalOffsetDecoding :: "dom \<Rightarrow> int \<Rightarrow> int \<Rightarrow> bool" where
  "shouldUseCanonicalOffsetDecoding target startOffs endOffs =
     (let totalTextLength = int (length (textContent target)) in
      if totalTextLength \<le> 0 then False
      else startOffs < totalTextLength \<or> endOffs < totalTextLength)"

text \<open>
  The decoding of a text highlight's two offsets, as \<open>planHighlightOverlayRects\<close> and
  \<open>selectHighlightTextFromOpposingEdge\<close> both do it: one decision for the pair, then one
  walk for each offset.
\<close>

definition decodeTextHighlightOffsets :: "dom \<Rightarrow> int \<Rightarrow> int \<Rightarrow> point option \<times> point option" where
  "decodeTextHighlightOffsets target startOffs endOffs =
     (let useCanonicalOffsets = shouldUseCanonicalOffsetDecoding target startOffs endOffs
      in (findTextNodeAtOffset target startOffs useCanonicalOffsets,
          findTextNodeAtOffset target endOffs useCanonicalOffsets))"

text \<open>The total length of the first \<open>k\<close> text descendants.\<close>

definition cumulativeLength :: "string list \<Rightarrow> nat \<Rightarrow> int" where
  "cumulativeLength ts k = sum_list (map (\<lambda>t. int (length t)) (take k ts))"

section \<open>Rect planner and merger (highlighter-overlays.ts)\<close>

text \<open>
  A \<open>DOMRect\<close> has the four fields it is constructed from; its edges are derived as the
  DOM defines them, so that a negative width or height is handled as the browser does.
  Coordinates are exact reals.
\<close>

record DOMRect =
  rect_x :: real
  rect_y :: real
  rect_width :: real
  rect_height :: real

definition rect_left :: "DOMRect \<Rightarrow> real" where
  "rect_left r = min (rect_x r) (rect_x r + rect_width r)"

definition rect_right :: "DOMRect \<Rightarrow> real" where
  "rect_right r = max (rect_x r) (rect_x r + rect_width r)"

definition rect_top :: "DOMRect \<Rightarrow> real" where
  "rect_top r = min (rect_y r) (rect_y r + rect_height r)"

definition rect_bottom :: "DOMRect \<Rightarrow> real" where
  "rect_bottom r = max (rect_y r) (rect_y r + rect_height r)"

text \<open>
  The first loop of \<open>mergeHighlightOverlayRects\<close>: \<open>currentRect\<close> is the running
  rectangle, \<open>mergedRects\<close> the output so far.
\<close>

fun mergeRectsLoop :: "DOMRect list \<Rightarrow> DOMRect list \<Rightarrow> DOMRect option \<Rightarrow> DOMRect list" where
  "mergeRectsLoop [] mergedRects currentRect =
     (case currentRect of Some c \<Rightarrow> mergedRects @ [c] | None \<Rightarrow> mergedRects)"
| "mergeRectsLoop (rect # rects) mergedRects currentRect =
     (case currentRect of
        None \<Rightarrow>
          mergeRectsLoop rects mergedRects
            (Some \<lparr>rect_x = rect_x rect, rect_y = rect_y rect,
                   rect_width = rect_width rect, rect_height = rect_height rect\<rparr>)
      | Some c \<Rightarrow>
          if \<bar>rect_y rect - rect_y c\<bar> < 1 \<and> \<bar>rect_height rect - rect_height c\<bar> < 1
          then mergeRectsLoop rects mergedRects
                 (Some (c\<lparr>rect_width := rect_right rect - rect_left c\<rparr>))
          else mergeRectsLoop rects (mergedRects @ [c])
                 (Some \<lparr>rect_x = rect_x rect, rect_y = rect_y rect,
                        rect_width = rect_width rect, rect_height = rect_height rect\<rparr>))"

definition mergeRects :: "DOMRect list \<Rightarrow> DOMRect list" where
  "mergeRects rects = mergeRectsLoop rects [] None"

text \<open>
  An overlay element, with the inline style and data the planner writes and the
  \<open>showCommentBadge\<close> flag it hands to the overlay's decoration. The class list and
  the contrast styling are left out.
\<close>

record overlay =
  ov_highlightIndex :: nat
  ov_highlightId :: "string option"
  ov_left :: real
  ov_top :: real
  ov_width :: real
  ov_height :: real
  ov_content :: string
  ov_notes :: "string list option"
  ov_color :: "string option"
  ov_showCommentBadge :: bool

text \<open>
  The document as the planner sees it: the overlay elements appended to the body, in
  document order, and the scroll position of the window.
\<close>

record page =
  overlays :: "overlay list"
  scrollX :: real
  scrollY :: real

text \<open>
  \<open>overlay.getBoundingClientRect()\<close>: an overlay is an absolutely positioned child of
  the body whose box is its inline \<open>left\<close>, \<open>top\<close>, \<open>width\<close> and \<open>height\<close>, so its
  viewport rectangle is that box moved by the scroll position.
\<close>

definition overlayBoundingClientRect :: "page \<Rightarrow> overlay \<Rightarrow> DOMRect" where
  "overlayBoundingClientRect pg ov =
     \<lparr>rect_x = ov_left ov - scrollX pg, rect_y = ov_top ov - scrollY pg,
      rect_width = ov_width ov, rect_height = ov_height ov\<rparr>"

definition createHighlightOverlayElement ::
  "page \<Rightarrow> DOMRect \<Rightarrow> string \<Rightarrow> nat \<Rightarrow> string list option \<Rightarrow> string option \<Rightarrow> string
     \<Rightarrow> bool \<Rightarrow> page" where
  "createHighlightOverlayElement pg rect contentText index noteList colorOpt highlightId
       showCommentBadge =
     pg\<lparr>overlays := overlays pg @
        [\<lparr>ov_highlightIndex = index,
          ov_highlightId = (if highlightId \<noteq> [] then Some highlightId else None),
          ov_left = rect_left rect + scrollX pg - 2,
          ov_top = rect_top rect + scrollY pg - 2,
          ov_width = rect_width rect + 4,
          ov_height = rect_height rect + 4,
          ov_content = contentText,
          ov_notes = (case noteList of Some ns \<Rightarrow> (if ns \<noteq> [] then Some ns else None)
                      | None \<Rightarrow> None),
          ov_color = colorOpt,
          ov_showCommentBadge = showCommentBadge\<rparr>]\<rparr>"

definition isDuplicate :: "page \<Rightarrow> overlay list \<Rightarrow> DOMRect \<Rightarrow> bool" where
  "isDuplicate pg existingOverlays rect =
     list_ex (\<lambda>ov. let overlayRect = overlayBoundingClientRect pg ov in
                \<bar>rect_left rect - rect_left overlayRect\<bar> < 1 \<and>
                \<bar>rect_top rect - rect_top overlayRect\<bar> < 1 \<and>
                \<bar>rect_width rect - rect_width overlayRect\<bar> < 1 \<and>
                \<bar>rect_height rect - rect_height overlayRect\<bar> < 1)
       existingOverlays"

text \<open>The \<open>forEach\<close> over the merged rectangles, \<open>rectIndex\<close> counting from the given value.\<close>

fun emitMergedRects ::
  "page \<Rightarrow> DOMRect list \<Rightarrow> nat \<Rightarrow> string \<Rightarrow> overlay list \<Rightarrow> nat \<Rightarrow> string list option
     \<Rightarrow> string option \<Rightarrow> string \<Rightarrow> page" where
  "emitMergedRects pg [] rectIndex contentText existingOverlays index noteList colorOpt highlightId
     = pg"
| "emitMergedRects pg (rect # rest) rectIndex contentText existingOverlays index noteList colorOpt
       highlightId =
     (let pg' =
        (if \<not> isDuplicate pg existingOverlays rect
         then (let showCommentBadge =
                     ((case noteList of Some ns \<Rightarrow> ns \<noteq> [] | None \<Rightarrow> False) \<and> rectIndex = 0)
               in createHighlightOverlayElement pg rect contentText index noteList colorOpt
                    highlightId showCommentBadge)
         else pg)
      in emitMergedRects pg' rest (Suc rectIndex) contentText existingOverlays index noteList
           colorOpt highlightId)"

definition mergeHighlightOverlayRects ::
  "page \<Rightarrow> DOMRect list \<Rightarrow> string \<Rightarrow> overlay list \<Rightarrow> nat \<Rightarrow> string list option
     \<Rightarrow> string option \<Rightarrow> string \<Rightarrow> page" where
  "mergeHighlightOverlayRects pg rects contentText existingOverlays index noteList colorOpt
       highlightId =
     emitMergedRects pg (mergeRects rects) 0 contentText existingOverlays index noteList colorOpt
       highlightId"

definition calculateAverageLineHeight :: "DOMRect list \<Rightarrow> real" where
  "calculateAverageLineHeight rects = sum_list (map rect_height rects) / real (length rects)"

text \<open>
  \<open>processRangeForOverlayRects\<close>, given the client rectangles of the range and the
  bounding rectangle of the fallback element.
\<close>

definition processRangeForOverlayRects ::
  "page \<Rightarrow> DOMRect list \<Rightarrow> string \<Rightarrow> overlay list \<Rightarrow> nat \<Rightarrow> string list option
     \<Rightarrow> string option \<Rightarrow> string \<Rightarrow> DOMRect \<Rightarrow> page" where
  "processRangeForOverlayRects pg rects contentText existingOverlays index noteList colorOpt
       highlightId fallbackRect =
     (if rects = []
      then mergeHighlightOverlayRects pg [fallbackRect] contentText existingOverlays index noteList
             colorOpt highlightId
      else
        (let averageLineHeight = calculateAverageLineHeight rects;
             textRects = filter (\<lambda>rect. rect_height rect \<le> averageLineHeight * 1.5) rects;
             complexRects = filter (\<lambda>rect. rect_height rect > averageLineHeight * 1.5) rects;
             pg1 = (if textRects \<noteq> []
                    then mergeHighlightOverlayRects pg textRects contentText existingOverlays index
                           noteList colorOpt highlightId
                    else pg)
         in if complexRects \<noteq> []
            then mergeHighlightOverlayRects pg1 complexRects contentText existingOverlays index
                   noteList colorOpt highlightId
            else pg1))"

text \<open>
  The merge rule in the words of the specification, for comparison with
  \<open>mergeRects\<close>: a rectangle is merged when it matches the rectangle that precedes it in
  the input within one pixel in vertical position and in height; merging moves the right
  edge of the running rectangle to the right edge of the new one and keeps its left edge,
  top and height. The second component of the state is the preceding input rectangle.
\<close>

fun spec_mergeConsecutiveLoop ::
  "DOMRect list \<Rightarrow> DOMRect list \<Rightarrow> (DOMRect \<times> DOMRect) option \<Rightarrow> DOMRect list" where
  "spec_mergeConsecutiveLoop [] merged st =
     (case st of Some (running, previous) \<Rightarrow> merged @ [running] | None \<Rightarrow> merged)"
| "spec_mergeConsecutiveLoop (rect # rects) merged st =
     (case st of
        None \<Rightarrow> spec_mergeConsecutiveLoop rects merged (Some (rect, rect))
      | Some (running, previous) \<Rightarrow>
          if \<bar>rect_y rect - rect_y previous\<bar> < 1 \<and> \<bar>rect_height rect - rect_height previous\<bar> < 1
          then spec_mergeConsecutiveLoop rects merged
                 (Some (\<lparr>rect_x = rect_left running, rect_y = rect_y running,
                         rect_width = rect_right rect - rect_left running,
                         rect_height = rect_height running\<rparr>, rect))
          else spec_mergeConsecutiveLoop rects (merged @ [running]) (Some (rect, rect)))"

definition spec_mergeConsecutive :: "DOMRect list \<Rightarrow> DOMRect list" where
  "spec_mergeConsecutive rects = spec_mergeConsecutiveLoop rects [] None"

text \<open>
  What the layout engine answers while one highlight is planned: the bounding rectangle
  of the target element, the client rectangles of a range over the target's contents, and
  the client rectangles of a range between two text positions.
\<close>

record layout =
  targetBoundingClientRect :: DOMRect
  contentsClientRects :: "DOMRect list"
  rangeClientRects :: "point \<Rightarrow> point \<Rightarrow> DOMRect list"

definition LINE_BY_LINE_OVERLAY_TAGS :: "string list" where
  "LINE_BY_LINE_OVERLAY_TAGS = [''P'']"

definition toUpperCase :: "string \<Rightarrow> string" where
  "toUpperCase s =
     map (\<lambda>c. if 97 \<le> (of_char c :: nat) \<and> (of_char c :: nat) \<le> 122
              then char_of ((of_char c :: nat) - 32) else c) s"

definition tagName :: "dom \<Rightarrow> string" where
  "tagName n = (case n of ElementNode tag _ \<Rightarrow> tag | TextNode _ \<Rightarrow> [])"

text \<open>
  \<open>planHighlightOverlayRects\<close>. The offsets that \<open>findTextNodeAtOffset\<close> returns lie
  within their text node, so the boundaries of the range are set without an exception and
  the fallbacks of the \<open>catch\<close> blocks are not taken.
\<close>

definition planHighlightOverlayRects :: "layout \<Rightarrow> page \<Rightarrow> dom \<Rightarrow> highlight \<Rightarrow> nat \<Rightarrow> page" where
  "planHighlightOverlayRects lay pg target h index =
     (let existingOverlays = filter (\<lambda>ov. ov_highlightIndex ov = index) (overlays pg);
          tag = toUpperCase (tagName target)
      in if hl_type h = ComplexType \<or> hl_type h = ElementType then
           (if tag \<in> set LINE_BY_LINE_OVERLAY_TAGS
            then processRangeForOverlayRects pg (contentsClientRects lay) (content h)
                   existingOverlays index (hl_notes h) (color h) (hl_id h)
                   (targetBoundingClientRect lay)
            else mergeHighlightOverlayRects pg [targetBoundingClientRect lay] (content h)
                   existingOverlays index (hl_notes h) (color h) (hl_id h))
         else
           (case decodeTextHighlightOffsets target (startOffset h) (endOffset h) of
              (Some startNodeResult, Some endNodeResult) \<Rightarrow>
                processRangeForOverlayRects pg (rangeClientRects lay startNodeResult endNodeResult)
                  (content h) existingOverlays index (hl_notes h) (color h) (hl_id h)
                  (targetBoundingClientRect lay)
            | _ \<Rightarrow>
                mergeHighlightOverlayRects pg [targetBoundingClientRect lay] (content h)
                  existingOverlays index (hl_notes h) (color h) (hl_id h)))"

definition removeExistingHighlightOverlays :: "page \<Rightarrow> nat \<Rightarrow> page" where
  "removeExistingHighlightOverlays pg index =
     pg\<lparr>overlays := filter (\<lambda>ov. ov_highlightIndex ov \<noteq> index) (overlays pg)\<rparr>"

text \<open>
  One round of the \<open>forEach\<close> in \<open>updateHighlightOverlayPositions\<close>, for a highlight
  whose target was found.
\<close>

definition updateHighlightOverlayPosition :: "layout \<Rightarrow> page \<Rightarrow> dom \<Rightarrow> highlight \<Rightarrow> nat \<Rightarrow> page" where
  "updateHighlightOverlayPosition lay pg target h index =
     (let existingOverlays = filter (\<lambda>ov. ov_highlightIndex ov = index) (overlays pg);
          pg' = (if existingOverlays \<noteq> [] then removeExistingHighlightOverlays pg index else pg)
      in planHighlightOverlayRects lay pg' target h index)"

subsection \<open>Example inputs\<close>

definition maxwellParagraph :: dom where
  "maxwellParagraph =
     ElementNode ''P'' [TextNode ''James '', ElementNode ''EM'' [TextNode ''Clerk''],
                        TextNode '' Maxwell.'']"

definition lineRun1 :: DOMRect where
  "lineRun1 = \<lparr>rect_x = 0, rect_y = 0, rect_width = 10, rect_height = 10\<rparr>"

definition lineRun2 :: DOMRect where
  "lineRun2 = \<lparr>rect_x = 10, rect_y = 3/4, rect_width = 10, rect_height = 10\<rparr>"

definition lineRun3 :: DOMRect where
  "lineRun3 = \<lparr>rect_x = 20, rect_y = 3/2, rect_width = 10, rect_height = 10\<rparr>"

text \<open>Two runs of one line generated right to left.\<close>

definition rtlRun1 :: DOMRect where
  "rtlRun1 = \<lparr>rect_x = 100, rect_y = 0, rect_width = 50, rect_height = 10\<rparr>"

definition rtlRun2 :: DOMRect where
  "rtlRun2 = \<lparr>rect_x = 10, rect_y = 0, rect_width = 20, rect_height = 10\<rparr>"

text \<open>A figure highlighted as an element, and the layout of its box.\<close>

definition emptyPage :: page where
  "emptyPage = \<lparr>overlays = [], scrollX = 0, scrollY = 0\<rparr>"

definition figureElement :: dom where
  "figureElement = ElementNode ''FIGURE'' []"

definition figureHighlight :: highlight where
  "figureHighlight =
     \<lparr>hl_id = ''1700000000000'', hl_type = ElementType, xpath = ''/html/body/figure[1]'',
      startOffset = 0, endOffset = 0, content = ''<figure></figure>'', color = None,
      hl_notes = None\<rparr>"

definition figureLayout :: layout where
  "figureLayout =
     \<lparr>targetBoundingClientRect = \<lparr>rect_x = 10, rect_y = 20, rect_width = 100, rect_height = 16\<rparr>,
      contentsClientRects = [],
      rangeClientRects = (\<lambda>s e. [])\<rparr>"

text \<open>
  A paragraph with a note, highlighted as an element: two text lines and an inline image
  that is taller than one and a half times the average height.
\<close>

definition notedParagraph :: dom where
  "notedParagraph = ElementNode ''P'' [TextNode ''two lines of text'', ElementNode ''IMG'' []]"

definition notedHighlight :: highlight where
  "notedHighlight =
     \<lparr>hl_id = ''1700000000001'', hl_type = ElementType, xpath = ''/html/body/p[2]'',
      startOffset = 0, endOffset = 0, content = ''two lines of text'', color = None,
      hl_notes = Some [''a note'']\<rparr>"

definition notedLayout :: layout where
  "notedLayout =
     \<lparr>targetBoundingClientRect = \<lparr>rect_x = 0, rect_y = 0, rect_width = 50, rect_height = 120\<rparr>,
      contentsClientRects =
        [\<lparr>rect_x = 0, rect_y = 0, rect_width = 50, rect_height = 10\<rparr>,
         \<lparr>rect_x = 0, rect_y = 10, rect_width = 50, rect_height = 10\<rparr>,
         \<lparr>rect_x = 0, rect_y = 20, rect_width = 50, rect_height = 100\<rparr>],
      rangeClientRects = (\<lambda>s e. [])\<rparr>"

definition figureOverlay :: overlay where
  "figureOverlay =
     \<lparr>ov_highlightIndex = 0, ov_highlightId = Some ''1700000000000'',
      ov_left = 8, ov_top = 18, ov_width = 104, ov_height = 20,
      ov_content = ''<figure></figure>'', ov_notes = None, ov_color = None,
      ov_showCommentBadge = False\<rparr>"

definition notedOverlay :: "real \<Rightarrow> real \<Rightarrow> bool \<Rightarrow> overlay" where
  "notedOverlay t h badge =
     \<lparr>ov_highlightIndex = 0, ov_highlightId = Some ''1700000000001'',
      ov_left = - 2, ov_top = t, ov_width = 54, ov_height = h,
      ov_content = ''two lines of text'', ov_notes = Some [''a note''], ov_color = None,
      ov_showCommentBadge = badge\<rparr>"

section \<open>Selection and resize drag controller (highlighter-overlays.ts)\<close>

datatype handle_edge = EdgeStart | EdgeEnd

datatype OffsetHandleDragInputType = PointerInput | MouseInput

text \<open>The two handle elements, \<open>startOffsetHandle\<close> and \<open>endOffsetHandle\<close>.\<close>

datatype handle_element = StartHandle | EndHandle

text \<open>
  The state of \<open>window.getSelection()\<close> that the controller reads: its range count,
  whether it is collapsed, the boundary points of its first range, and its text. Nodes
  are referred to relative to the target element of the selected highlight.
\<close>

record selection =
  sel_rangeCount :: nat
  sel_isCollapsed :: bool
  sel_startContainer :: node_ref
  sel_startOffset :: int
  sel_endContainer :: node_ref
  sel_endOffset :: int
  sel_text :: string

definition removeAllRanges :: "selection \<Rightarrow> selection" where
  "removeAllRanges sel = sel\<lparr>sel_rangeCount := 0, sel_isCollapsed := True, sel_text := []\<rparr>"

text \<open>
  \<open>OffsetHandleDragState\<close>. An overlay element is referred to by its identity, a
  natural number.
\<close>

record OffsetHandleDragState =
  anchorNode :: node_ref
  anchorOffset :: int
  dragTarget :: dom
  dragEdge :: handle_edge
  pointerId :: "int option"
  inputType :: OffsetHandleDragInputType
  dragHandle :: handle_element
  startClientX :: real
  startClientY :: real
  hasMoved :: bool
  initialSelectionText :: string
  disabledOverlayPointerEvents :: "(nat \<times> string) list"

text \<open>The capturing listeners that a drag registers on the document.\<close>

datatype listener =
    PointerMoveListener
  | PointerUpListener
  | PointerCancelListener
  | MouseMoveListener
  | MouseUpListener

definition dragListeners :: "listener set" where
  "dragListeners =
     {PointerMoveListener, PointerUpListener, PointerCancelListener, MouseMoveListener,
      MouseUpListener}"

text \<open>
  The collaborators of the controller are outside this file; their invocations are
  recorded, in order.
\<close>

datatype collaborator_call =
    HideHighlightWidgetTooltip
  | UpdateHighlights "highlight list"
  | SortHighlights
  | ApplyHighlights
  | SaveHighlights
  | UpdateHighlighterMenu
  | ScheduleHighlightWidgetOpenFromPoint real real

text \<open>
  The module state of the controller and the part of the document it writes: the
  \<open>pointer-events\<close> style of every overlay element, the overlay elements attached to the
  document, the drag listeners on the document, the pointer captures of the handles, the
  drag class on the root element, and the native selection (\<open>None\<close> when
  \<open>window.getSelection()\<close> is null). The preview colour and the position of the handles
  are styling and are left out.
\<close>

record world =
  highlights :: "highlight list"
  selectedHighlightId :: "string option"
  selectedHighlightIndex :: "string option"
  activeOffsetHandleDrag :: "OffsetHandleDragState option"
  suppressNextMouseUpHighlight :: bool
  documentOverlays :: "nat list"
  pointerEventsStyle :: "nat \<Rightarrow> string"
  documentListeners :: "listener set"
  pointerCaptures :: "(handle_element \<times> int) set"
  draggingClass :: bool
  nativeSelection :: "selection option"
  calls :: "collaborator_call list"

text \<open>What a caret hit test at a viewport point returns, relative to the drag target.\<close>

datatype raw_caret =
    RawTextNode nat int
  | RawElementBoundary "int option"
  | RawOutsideTarget

text \<open>
  The answers of the browser and of the collaborators: the element an XPath resolves to,
  the selection that results from \<open>applyNativeSelection\<close>, the raw caret at a point
  (for a caret at an element boundary, the length of the text before it, or \<open>None\<close>
  when the boundary range cannot be built), whether \<open>setPointerCapture\<close> succeeds,
  and the order \<open>sortHighlights\<close> produces.
\<close>

record browser =
  getElementByXPath :: "string \<Rightarrow> dom option"
  selectionFor :: "point \<Rightarrow> point \<Rightarrow> selection"
  getRawCaretPointAtClientPosition :: "real \<Rightarrow> real \<Rightarrow> raw_caret option"
  setPointerCaptureSucceeds :: "handle_element \<Rightarrow> int \<Rightarrow> bool"
  sortedHighlights :: "highlight list \<Rightarrow> highlight list"

definition OFFSET_HANDLE_DRAG_THRESHOLD_PX :: real where
  "OFFSET_HANDLE_DRAG_THRESHOLD_PX = 2"

definition CARET_HIT_TEST_OFFSETS_PX :: "(real \<times> real) list" where
  "CARET_HIT_TEST_OFFSETS_PX =
     [(0, 0), (- 1, 0), (1, 0), (0, - 1), (0, 1), (- 2, 0), (2, 0), (0, - 2), (0, 2)]"

definition logCall :: "collaborator_call \<Rightarrow> world \<Rightarrow> world" where
  "logCall c st = st\<lparr>calls := calls st @ [c]\<rparr>"

text \<open>\<open>String(index)\<close> for an array index.\<close>

definition digitChar :: "nat \<Rightarrow> char" where
  "digitChar d = char_of (48 + d)"

fun natToString :: "nat \<Rightarrow> string" where
  "natToString n = (if n < 10 then [digitChar n] else natToString (n div 10) @ [digitChar (n mod 10)])"

declare natToString.simps [simp del]

definition truthy :: "string option \<Rightarrow> bool" where
  "truthy v = (case v of Some s \<Rightarrow> s \<noteq> [] | None \<Rightarrow> False)"

definition resolveSelectedTextHighlight :: "browser \<Rightarrow> world \<Rightarrow> (highlight \<times> dom) option" where
  "resolveSelectedTextHighlight br st =
     (let byId =
            (if truthy (selectedHighlightId st)
             then find (\<lambda>item. Some (hl_id item) = selectedHighlightId st) (highlights st)
             else None);
          selectedHighlight =
            (case byId of
               Some h \<Rightarrow> Some h
             | None \<Rightarrow>
                 (case selectedHighlightIndex st of
                    None \<Rightarrow> None
                  | Some indexText \<Rightarrow>
                      (if indexText = [] then None
                       else (case parseInt10 indexText of
                               Finite parsedIndex \<Rightarrow>
                                 (if parsedIndex = of_int \<lfloor>parsedIndex\<rfloor> \<and> 0 \<le> parsedIndex
                                     \<and> parsedIndex < real (length (highlights st))
                                  then Some (highlights st ! nat \<lfloor>parsedIndex\<rfloor>)
                                  else None)
                             | _ \<Rightarrow> None))))
      in case selectedHighlight of
           None \<Rightarrow> None
         | Some h \<Rightarrow>
             (if hl_type h \<noteq> TextType then None
              else (case getElementByXPath br (xpath h) of
                      None \<Rightarrow> None
                    | Some target \<Rightarrow> Some (h, target))))"

definition applyNativeSelection :: "browser \<Rightarrow> point \<Rightarrow> point \<Rightarrow> world \<Rightarrow> world" where
  "applyNativeSelection br anchor focus st =
     (case nativeSelection st of
        None \<Rightarrow> st
      | Some _ \<Rightarrow> st\<lparr>nativeSelection := Some (selectionFor br anchor focus)\<rparr>)"

text \<open>The loop of \<open>getLegacyTextOffset\<close>, which starts at the walker's \<open>currentNode\<close>.\<close>

fun legacyOffsetLoop :: "walked list \<Rightarrow> node_ref \<Rightarrow> int \<Rightarrow> int \<Rightarrow> int" where
  "legacyOffsetLoop [] targetNode targetOffset offs = offs"
| "legacyOffsetLoop (w # ws) targetNode targetOffset offs =
     (if w_ref w = targetNode then offs + targetOffset
      else legacyOffsetLoop ws targetNode targetOffset (offs + int (length (w_textContent w))))"

definition getLegacyTextOffset :: "dom \<Rightarrow> node_ref \<Rightarrow> int \<Rightarrow> int" where
  "getLegacyTextOffset container targetNode targetOffset =
     legacyOffsetLoop (walkFromCurrentNode container) targetNode targetOffset 0"

text \<open>
  \<open>updateSelectedTextHighlightFromSelection\<close>: the result and the state after it. The
  collaborators' calls are recorded; \<open>updateHighlights\<close> stores the mapped sequence and
  \<open>sortHighlights\<close> reorders it.
\<close>

definition mapSelectedHighlight ::
  "world \<Rightarrow> int \<Rightarrow> int \<Rightarrow> string \<Rightarrow> nat \<Rightarrow> highlight \<Rightarrow> highlight" where
  "mapSelectedHighlight st startOffs endOffs selectedContent index item =
     (let itemMatchesById =
            (truthy (selectedHighlightId st) \<and> Some (hl_id item) = selectedHighlightId st);
          itemMatchesByIndex = (selectedHighlightIndex st = Some (natToString index));
          isTargetHighlight = (itemMatchesById \<or> itemMatchesByIndex)
      in if \<not> isTargetHighlight \<or> hl_type item \<noteq> TextType then item
         else item\<lparr>startOffset := startOffs, endOffset := endOffs, content := selectedContent\<rparr>)"

definition updateSelectedTextHighlightFromSelection ::
  "browser \<Rightarrow> selection \<Rightarrow> world \<Rightarrow> bool \<times> world" where
  "updateSelectedTextHighlightFromSelection br sel st =
     (if sel_rangeCount sel = 0 \<or> sel_isCollapsed sel then (False, st)
      else
        (case resolveSelectedTextHighlight br st of
           None \<Rightarrow> (False, st)
         | Some (h, target) \<Rightarrow>
             (let rawStart = getLegacyTextOffset target (sel_startContainer sel) (sel_startOffset sel);
                  rawEnd = getLegacyTextOffset target (sel_endContainer sel) (sel_endOffset sel);
                  startOffs = min rawStart rawEnd;
                  endOffs = max rawStart rawEnd
              in if startOffs = endOffs then (False, st)
                 else
                   (let selectedContent = sel_text sel;
                        mappedHighlights =
                          map (\<lambda>(index, item).
                                 mapSelectedHighlight st startOffs endOffs selectedContent index item)
                            (enumerate 0 (highlights st))
                    in (True,
                        st\<lparr>highlights := sortedHighlights br mappedHighlights,
                           calls := calls st @
                             [UpdateHighlights mappedHighlights, SortHighlights, ApplyHighlights,
                              SaveHighlights, UpdateHighlighterMenu]\<rparr>)))))"

text \<open>
  \<open>resolveCaretPointToTextNode\<close> and \<open>getCaretPointAtClientPosition\<close>: the first hit
  of the ring that lies inside the target decides.
\<close>

definition clampToNode :: "dom \<Rightarrow> nat \<Rightarrow> int \<Rightarrow> point" where
  "clampToNode target i offs =
     \<lparr>node = TextRef i,
      offset = max 0 (min offs (int (length (textDescendants target ! i))))\<rparr>"

definition resolveCaretPointToTextNode :: "dom \<Rightarrow> raw_caret \<Rightarrow> point option" where
  "resolveCaretPointToTextNode target raw =
     (case raw of
        RawTextNode i offs \<Rightarrow> Some (clampToNode target i offs)
      | RawElementBoundary None \<Rightarrow> None
      | RawElementBoundary (Some canonicalOffset) \<Rightarrow>
          (case findTextNodeAtOffset target canonicalOffset True of
             None \<Rightarrow> None
           | Some resolved \<Rightarrow>
               (case node resolved of
                  TextRef i \<Rightarrow> Some (clampToNode target i (offset resolved))
                | _ \<Rightarrow> Some resolved))
      | RawOutsideTarget \<Rightarrow> None)"

definition targetContains :: "dom \<Rightarrow> raw_caret \<Rightarrow> bool" where
  "targetContains target raw =
     (case raw of
        RawTextNode i _ \<Rightarrow> i < length (textDescendants target)
      | RawElementBoundary _ \<Rightarrow> True
      | RawOutsideTarget \<Rightarrow> False)"

fun caretRing :: "browser \<Rightarrow> real \<Rightarrow> real \<Rightarrow> dom \<Rightarrow> (real \<times> real) list \<Rightarrow> point option" where
  "caretRing br clientX clientY target [] = None"
| "caretRing br clientX clientY target ((dx, dy) # rest) =
     (case getRawCaretPointAtClientPosition br (clientX + dx) (clientY + dy) of
        None \<Rightarrow> caretRing br clientX clientY target rest
      | Some rawPoint \<Rightarrow>
          (if \<not> targetContains target rawPoint then caretRing br clientX clientY target rest
           else resolveCaretPointToTextNode target rawPoint))"

definition getCaretPointAtClientPosition :: "browser \<Rightarrow> real \<Rightarrow> real \<Rightarrow> dom \<Rightarrow> point option" where
  "getCaretPointAtClientPosition br clientX clientY target =
     caretRing br clientX clientY target CARET_HIT_TEST_OFFSETS_PX"

definition restorePointerEvents :: "(nat \<times> string) list \<Rightarrow> (nat \<Rightarrow> string) \<Rightarrow> (nat \<Rightarrow> string)" where
  "restorePointerEvents disabled style = foldl (\<lambda>f (ov, v). f(ov := v)) style disabled"

definition teardownOffsetHandleDrag :: "world \<Rightarrow> world" where
  "teardownOffsetHandleDrag st =
     (case activeOffsetHandleDrag st of
        None \<Rightarrow> st
      | Some d \<Rightarrow>
          st\<lparr>pointerEventsStyle :=
               restorePointerEvents (disabledOverlayPointerEvents d) (pointerEventsStyle st),
             documentListeners := documentListeners st - dragListeners,
             pointerCaptures :=
               (case pointerId d of
                  Some p \<Rightarrow> pointerCaptures st - {(dragHandle d, p)}
                | None \<Rightarrow> pointerCaptures st),
             draggingClass := False,
             activeOffsetHandleDrag := None\<rparr>)"

text \<open>
  An input event as the drag handlers read it: whether it is a \<open>PointerEvent\<close>, its
  pointer id if so, and the client coordinates.
\<close>

record input_event =
  ev_isPointerEvent :: bool
  ev_pointerId :: int
  ev_clientX :: real
  ev_clientY :: real

definition handleOffsetHandleDragMove :: "browser \<Rightarrow> input_event \<Rightarrow> world \<Rightarrow> world" where
  "handleOffsetHandleDragMove br ev st =
     (case activeOffsetHandleDrag st of
        None \<Rightarrow> st
      | Some d \<Rightarrow>
          if inputType d = PointerInput \<and> (\<not> ev_isPointerEvent ev \<or> pointerId d = None) then st
          else if inputType d = PointerInput \<and> Some (ev_pointerId ev) \<noteq> pointerId d then st
          else if inputType d \<noteq> PointerInput \<and> ev_isPointerEvent ev then st
          else
            (let d' = (if \<bar>ev_clientX ev - startClientX d\<bar> > OFFSET_HANDLE_DRAG_THRESHOLD_PX
                          \<or> \<bar>ev_clientY ev - startClientY d\<bar> > OFFSET_HANDLE_DRAG_THRESHOLD_PX
                       then d\<lparr>hasMoved := True\<rparr> else d);
                 st' = st\<lparr>activeOffsetHandleDrag := Some d'\<rparr>
             in case getCaretPointAtClientPosition br (ev_clientX ev) (ev_clientY ev) (dragTarget d') of
                  None \<Rightarrow> st'
                | Some focus \<Rightarrow>
                    applyNativeSelection br
                      \<lparr>node = anchorNode d', offset = anchorOffset d'\<rparr> focus st'))"

definition finalizeOffsetHandleDrag :: "browser \<Rightarrow> real \<Rightarrow> real \<Rightarrow> world \<Rightarrow> world" where
  "finalizeOffsetHandleDrag br clientX clientY st =
     (case activeOffsetHandleDrag st of
        None \<Rightarrow> st
      | Some d \<Rightarrow>
          (let sel = nativeSelection st;
               currentSelectionText = (case sel of Some s \<Rightarrow> sel_text s | None \<Rightarrow> []);
               didChangeSelection =
                 (hasMoved d \<or> currentSelectionText \<noteq> initialSelectionText d);
               st1 = (teardownOffsetHandleDrag st)\<lparr>suppressNextMouseUpHighlight := True\<rparr>
           in case sel of
                None \<Rightarrow> st1
              | Some s \<Rightarrow>
                  if \<not> didChangeSelection \<or> sel_isCollapsed s then st1
                  else
                    (case updateSelectedTextHighlightFromSelection br s st1 of
                       (True, st2) \<Rightarrow>
                         logCall (ScheduleHighlightWidgetOpenFromPoint clientX clientY)
                           (st2\<lparr>nativeSelection := Some (removeAllRanges s)\<rparr>)
                     | (False, st2) \<Rightarrow> st2)))"

definition handleOffsetHandlePointerUp :: "browser \<Rightarrow> input_event \<Rightarrow> world \<Rightarrow> world" where
  "handleOffsetHandlePointerUp br ev st =
     (case activeOffsetHandleDrag st of
        None \<Rightarrow> st
      | Some d \<Rightarrow>
          if inputType d \<noteq> PointerInput \<or> pointerId d = None then st
          else if Some (ev_pointerId ev) \<noteq> pointerId d then st
          else finalizeOffsetHandleDrag br (ev_clientX ev) (ev_clientY ev) st)"

definition handleOffsetHandlePointerCancel :: "input_event \<Rightarrow> world \<Rightarrow> world" where
  "handleOffsetHandlePointerCancel ev st =
     (case activeOffsetHandleDrag st of
        None \<Rightarrow> st
      | Some d \<Rightarrow>
          if inputType d \<noteq> PointerInput \<or> pointerId d = None then st
          else if Some (ev_pointerId ev) \<noteq> pointerId d then st
          else (teardownOffsetHandleDrag st)\<lparr>suppressNextMouseUpHighlight := True\<rparr>)"

definition handleOffsetHandleMouseUp :: "browser \<Rightarrow> input_event \<Rightarrow> world \<Rightarrow> world" where
  "handleOffsetHandleMouseUp br ev st =
     (case activeOffsetHandleDrag st of
        None \<Rightarrow> st
      | Some d \<Rightarrow>
          if inputType d \<noteq> MouseInput then st
          else finalizeOffsetHandleDrag br (ev_clientX ev) (ev_clientY ev) st)"

definition selectHighlightTextFromOpposingEdge ::
  "browser \<Rightarrow> handle_edge \<Rightarrow> world \<Rightarrow> (dom \<times> node_ref \<times> int) option \<times> world" where
  "selectHighlightTextFromOpposingEdge br edge st =
     (case resolveSelectedTextHighlight br st of
        None \<Rightarrow> (None, st)
      | Some (h, target) \<Rightarrow>
          (case decodeTextHighlightOffsets target (startOffset h) (endOffset h) of
             (Some startNodeResult, Some endNodeResult) \<Rightarrow>
               (let anchor = (if edge = EdgeStart then endNodeResult else startNodeResult);
                    focus = (if edge = EdgeStart then startNodeResult else endNodeResult)
                in (Some (target, node anchor, offset anchor),
                    applyNativeSelection br anchor focus st))
           | _ \<Rightarrow> (None, st)))"

definition beginOffsetHandleDrag ::
  "browser \<Rightarrow> handle_element \<Rightarrow> handle_edge \<Rightarrow> real \<Rightarrow> real \<Rightarrow> OffsetHandleDragInputType
     \<Rightarrow> int option \<Rightarrow> world \<Rightarrow> world" where
  "beginOffsetHandleDrag br handle edge clientX clientY inpType pid st =
     (let st0 = logCall HideHighlightWidgetTooltip st in
      case selectHighlightTextFromOpposingEdge br edge st0 of
        (None, st1) \<Rightarrow> st1
      | (Some (target, aNode, aOffset), st1) \<Rightarrow>
          (let st2 = (if activeOffsetHandleDrag st1 \<noteq> None then teardownOffsetHandleDrag st1
                      else st1);
               overlaysForDrag = documentOverlays st2;
               disabled = map (\<lambda>ov. (ov, pointerEventsStyle st2 ov)) overlaysForDrag;
               st3 = st2\<lparr>pointerEventsStyle :=
                           (\<lambda>ov. if ov \<in> set overlaysForDrag then ''none''
                                 else pointerEventsStyle st2 ov)\<rparr>;
               st4 = st3\<lparr>activeOffsetHandleDrag :=
                           Some \<lparr>anchorNode = aNode, anchorOffset = aOffset, dragTarget = target,
                                 dragEdge = edge, pointerId = pid, inputType = inpType,
                                 dragHandle = handle, startClientX = clientX,
                                 startClientY = clientY, hasMoved = False,
                                 initialSelectionText =
                                   (case nativeSelection st3 of Some s \<Rightarrow> sel_text s | None \<Rightarrow> []),
                                 disabledOverlayPointerEvents = disabled\<rparr>,
                         draggingClass := True\<rparr>;
               st5 = (case pid of
                        Some p \<Rightarrow>
                          (if inpType = PointerInput \<and> setPointerCaptureSucceeds br handle p
                           then st4\<lparr>pointerCaptures := insert (handle, p) (pointerCaptures st4)\<rparr>
                           else st4)
                      | None \<Rightarrow> st4)
           in st5\<lparr>documentListeners := documentListeners st5 \<union> dragListeners\<rparr>))"

definition edgeOfHandle :: "handle_element \<Rightarrow> handle_edge" where
  "edgeOfHandle handle = (case handle of StartHandle \<Rightarrow> EdgeStart | EndHandle \<Rightarrow> EdgeEnd)"

definition handleOffsetHandleDown ::
  "browser \<Rightarrow> handle_element \<Rightarrow> int \<Rightarrow> input_event \<Rightarrow> world \<Rightarrow> world" where
  "handleOffsetHandleDown br handle button ev st =
     (if button \<noteq> 0 then st
      else beginOffsetHandleDrag br handle (edgeOfHandle handle) (ev_clientX ev) (ev_clientY ev)
             PointerInput (Some (ev_pointerId ev)) st)"

definition handleOffsetHandleMouseDown ::
  "browser \<Rightarrow> handle_element \<Rightarrow> int \<Rightarrow> input_event \<Rightarrow> world \<Rightarrow> world" where
  "handleOffsetHandleMouseDown br handle button ev st =
     (if button \<noteq> 0 \<or> activeOffsetHandleDrag st \<noteq> None then st
      else beginOffsetHandleDrag br handle (edgeOfHandle handle) (ev_clientX ev) (ev_clientY ev)
             MouseInput None st)"

definition hideOffsetHandles :: "world \<Rightarrow> world" where
  "hideOffsetHandles st =
     (let st1 = (if activeOffsetHandleDrag st \<noteq> None then teardownOffsetHandleDrag st else st)
      in st1\<lparr>draggingClass := False\<rparr>)"

text \<open>
  The events that reach the controller. An event on the document runs its handler only
  while the handler is registered; the handles carry their listeners from their creation.
\<close>

datatype controller_event =
    PointerDownOnHandle handle_element int input_event
  | MouseDownOnHandle handle_element int input_event
  | PointerMove input_event
  | MouseMove input_event
  | PointerUp input_event
  | PointerCancel input_event
  | MouseUp input_event
  | HideOffsetHandles

definition dispatch :: "browser \<Rightarrow> world \<Rightarrow> controller_event \<Rightarrow> world" where
  "dispatch br st e =
     (case e of
        PointerDownOnHandle handle button ev \<Rightarrow> handleOffsetHandleDown br handle button ev st
      | MouseDownOnHandle handle button ev \<Rightarrow> handleOffsetHandleMouseDown br handle button ev st
      | PointerMove ev \<Rightarrow>
          (if PointerMoveListener \<in> documentListeners st
           then handleOffsetHandleDragMove br (ev\<lparr>ev_isPointerEvent := True\<rparr>) st else st)
      | MouseMove ev \<Rightarrow>
          (if MouseMoveListener \<in> documentListeners st
           then handleOffsetHandleDragMove br (ev\<lparr>ev_isPointerEvent := False\<rparr>) st else st)
      | PointerUp ev \<Rightarrow>
          (if PointerUpListener \<in> documentListeners st
           then handleOffsetHandlePointerUp br ev st else st)
      | PointerCancel ev \<Rightarrow>
          (if PointerCancelListener \<in> documentListeners st
           then handleOffsetHandlePointerCancel ev st else st)
      | MouseUp ev \<Rightarrow>
          (if MouseUpListener \<in> documentListeners st
           then handleOffsetHandleMouseUp br ev st else st)
      | HideOffsetHandles \<Rightarrow> hideOffsetHandles st)"

definition initialWorld :: "highlight list \<Rightarrow> nat list \<Rightarrow> (nat \<Rightarrow> string) \<Rightarrow> selection option \<Rightarrow> world" where
  "initialWorld hs ovs style sel =
     \<lparr>highlights = hs, selectedHighlightId = None, selectedHighlightIndex = None,
      activeOffsetHandleDrag = None, suppressNextMouseUpHighlight = False,
      documentOverlays = ovs, pointerEventsStyle = style, documentListeners = {},
      pointerCaptures = {}, draggingClass = False, nativeSelection = sel, calls = []\<rparr>"

text \<open>
  What the document holds for offset-handle drags, measured against the one session slot:
  with the slot empty there is no drag listener, no pointer capture and no drag class;
  with a session in the slot the only capture is that session's.
\<close>

definition dragInvariant :: "world \<Rightarrow> bool" where
  "dragInvariant st =
     (distinct (documentOverlays st) \<and>
      (case activeOffsetHandleDrag st of
         None \<Rightarrow>
           documentListeners st \<inter> dragListeners = {} \<and> pointerCaptures st = {}
           \<and> \<not> draggingClass st
       | Some d \<Rightarrow>
           dragListeners \<subseteq> documentListeners st
           \<and> pointerCaptures st \<subseteq> (case pointerId d of Some p \<Rightarrow> {(dragHandle d, p)} | None \<Rightarrow> {})
           \<and> draggingClass st
           \<and> distinct (map fst (disabledOverlayPointerEvents d))))"

text \<open>A selected text highlight on the paragraph, with legacy offsets, and its page.\<close>

definition maxwellHighlight :: highlight where
  "maxwellHighlight =
     \<lparr>hl_id = ''1700000000002'', hl_type = TextType, xpath = ''/html/body/p[1]'',
      startOffset = 26, endOffset = 31, content = ''Clerk'', color = Some ''#86d26f'',
      hl_notes = None\<rparr>"

definition spanSelection :: "point \<Rightarrow> point \<Rightarrow> selection" where
  "spanSelection a f =
     \<lparr>sel_rangeCount = 1, sel_isCollapsed = (a = f),
      sel_startContainer = node a, sel_startOffset = offset a,
      sel_endContainer = node f, sel_endOffset = offset f, sel_text = ''Clerk''\<rparr>"

definition exampleBrowser :: browser where
  "exampleBrowser =
     \<lparr>getElementByXPath = (\<lambda>p. if p = ''/html/body/p[1]'' then Some maxwellParagraph else None),
      selectionFor = spanSelection,
      getRawCaretPointAtClientPosition = (\<lambda>cx cy. None),
      setPointerCaptureSucceeds = (\<lambda>h p. True),
      sortedHighlights = (\<lambda>hs. hs)\<rparr>"

definition noSelection :: selection where
  "noSelection =
     \<lparr>sel_rangeCount = 0, sel_isCollapsed = True, sel_startContainer = Unvisited,
      sel_startOffset = 0, sel_endContainer = Unvisited, sel_endOffset = 0, sel_text = []\<rparr>"

definition exampleWorld :: world where
  "exampleWorld =
     \<lparr>highlights = [maxwellHighlight], selectedHighlightId = Some ''1700000000002'',
      selectedHighlightIndex = Some ''0'', activeOffsetHandleDrag = None,
      suppressNextMouseUpHighlight = False, documentOverlays = [0, 1],
      pointerEventsStyle = (\<lambda>ov. if ov = 0 then ''auto'' else []),
      documentListeners = {}, pointerCaptures = {}, draggingClass = False,
      nativeSelection = Some noSelection, calls = []\<rparr>"

definition pressAt :: "int \<Rightarrow> real \<Rightarrow> real \<Rightarrow> input_event" where
  "pressAt p cx cy =
     \<lparr>ev_isPointerEvent = True, ev_pointerId = p, ev_clientX = cx, ev_clientY = cy\<rparr>"

definition armedWorld :: world where
  "armedWorld =
     beginOffsetHandleDrag exampleBrowser EndHandle EdgeEnd 300 120 PointerInput (Some 1) exampleWorld"

text \<open>The session that pressing the end handle arms on that page.\<close>

definition armedSession :: OffsetHandleDragState where
  "armedSession =
     \<lparr>anchorNode = TextRef 0, anchorOffset = 6, dragTarget = maxwellParagraph,
      dragEdge = EdgeEnd, pointerId = Some 1, inputType = PointerInput,
      dragHandle = EndHandle, startClientX = 300, startClientY = 120, hasMoved = False,
      initialSelectionText = ''Clerk'',
      disabledOverlayPointerEvents = [(0, ''auto''), (1, [])]\<rparr>"

text \<open>
  A selection captured in reverse on the paragraph: it starts at the eighth character of the
  last text node and ends at the sixth character of the first one.
\<close>

definition reversedSelection :: selection where
  "reversedSelection =
     \<lparr>sel_rangeCount = 1, sel_isCollapsed = False, sel_startContainer = TextRef 2,
      sel_startOffset = 8, sel_endContainer = TextRef 0, sel_endOffset = 6,
      sel_text = ''Clerk Maxwell''\<rparr>"

section \<open>Annotation browser snapshot (annotation-browser-model.ts)\<close>

text \<open>
  Arithmetic and comparison of JavaScript numbers as far as the snapshot uses them:
  \<open>a <= b\<close>, \<open>a !== b\<close>, \<open>a - b\<close>, \<open>Math.min\<close> and \<open>Math.max\<close>.
\<close>

definition js_le :: "jsnumber \<Rightarrow> jsnumber \<Rightarrow> bool" where
  "js_le a b =
     (case (a, b) of
        (NaN, _) \<Rightarrow> False
      | (_, NaN) \<Rightarrow> False
      | (NegInfinity, _) \<Rightarrow> True
      | (_, PosInfinity) \<Rightarrow> True
      | (Finite r, Finite s) \<Rightarrow> r \<le> s
      | _ \<Rightarrow> False)"

definition js_strictNotEqual :: "jsnumber \<Rightarrow> jsnumber \<Rightarrow> bool" where
  "js_strictNotEqual a b = (a = NaN \<or> b = NaN \<or> a \<noteq> b)"

definition js_minus :: "jsnumber \<Rightarrow> jsnumber \<Rightarrow> jsnumber" where
  "js_minus a b =
     (case (a, b) of
        (NaN, _) \<Rightarrow> NaN
      | (_, NaN) \<Rightarrow> NaN
      | (Finite r, Finite s) \<Rightarrow> Finite (r - s)
      | (PosInfinity, PosInfinity) \<Rightarrow> NaN
      | (NegInfinity, NegInfinity) \<Rightarrow> NaN
      | (PosInfinity, _) \<Rightarrow> PosInfinity
      | (NegInfinity, _) \<Rightarrow> NegInfinity
      | (_, PosInfinity) \<Rightarrow> NegInfinity
      | (_, NegInfinity) \<Rightarrow> PosInfinity)"

definition js_min2 :: "jsnumber \<Rightarrow> jsnumber \<Rightarrow> jsnumber" where
  "js_min2 a b = (if a = NaN \<or> b = NaN then NaN else if js_le a b then a else b)"

definition js_max2 :: "jsnumber \<Rightarrow> jsnumber \<Rightarrow> jsnumber" where
  "js_max2 a b = (if a = NaN \<or> b = NaN then NaN else if js_le a b then b else a)"

definition Math_min :: "jsnumber list \<Rightarrow> jsnumber" where
  "Math_min xs = foldl js_min2 PosInfinity xs"

definition Math_max :: "jsnumber list \<Rightarrow> jsnumber" where
  "Math_max xs = foldl js_max2 NegInfinity xs"

text \<open>The fields of a \<open>URL\<close> object that the snapshot reads.\<close>

record parsed_url =
  href :: string
  hostname :: string
  pathname :: string

record AnnotationBrowserPage =
  page_url :: string
  page_title :: string
  siteLabel :: string
  page_path :: string
  annotationsCount :: nat
  firstCreatedAt :: jsnumber
  lastCreatedAt :: jsnumber

record AnnotationBrowserSnapshot =
  totalPages :: nat
  totalAnnotations :: nat
  recentPages :: "AnnotationBrowserPage list"
  mostAnnotatedPages :: "AnnotationBrowserPage list"

text \<open>
  What the platform answers: \<open>new URL(value)\<close> (\<open>None\<close> when it throws),
  \<open>String.prototype.localeCompare\<close>, and the reading of \<open>Date.now()\<close> while the
  \<open>k\<close>-th highlight record of the storage is normalised. The three display labels of a
  page are functions of its URL alone and are taken as given.
\<close>

record platform =
  parseUrl :: "string \<Rightarrow> parsed_url option"
  localeCompare :: "string \<Rightarrow> string \<Rightarrow> int"
  dateNow :: "nat \<Rightarrow> real"
  derivePageTitle :: "parsed_url \<Rightarrow> string"
  deriveSiteLabel :: "parsed_url \<Rightarrow> string"
  derivePathLabel :: "parsed_url \<Rightarrow> string"

definition isRecord :: "jsvalue \<Rightarrow> bool" where
  "isRecord v = (case v of JObject _ \<Rightarrow> True | JArray _ \<Rightarrow> True | _ \<Rightarrow> False)"

text \<open>
  Reading a property that is not an array index: an object answers with its own property,
  every other value with \<open>undefined\<close>.
\<close>

definition getProp :: "jsvalue \<Rightarrow> string \<Rightarrow> jsvalue" where
  "getProp v k =
     (case v of
        JObject es \<Rightarrow> (case map_of es k of Some w \<Rightarrow> w | None \<Rightarrow> JUndefined)
      | _ \<Rightarrow> JUndefined)"

definition Object_entries :: "jsvalue \<Rightarrow> (string \<times> jsvalue) list" where
  "Object_entries v =
     (case v of
        JObject es \<Rightarrow> es
      | JArray xs \<Rightarrow> zip (map natToString [0..<length xs]) xs
      | _ \<Rightarrow> [])"

definition getHighlightCreatedAt :: "real \<Rightarrow> jsvalue \<Rightarrow> jsnumber option" where
  "getHighlightCreatedAt now h =
     (if \<not> isRecord h then None
      else Some (normalizeHighlightCreatedAt now (getProp h ''createdAt'') (getProp h ''id'')))"

definition sortByMostRecentLast ::
  "platform \<Rightarrow> AnnotationBrowserPage \<Rightarrow> AnnotationBrowserPage \<Rightarrow> jsnumber" where
  "sortByMostRecentLast pf left right =
     (if js_strictNotEqual (lastCreatedAt right) (lastCreatedAt left)
      then js_minus (lastCreatedAt right) (lastCreatedAt left)
      else if annotationsCount right \<noteq> annotationsCount left
      then Finite (real (annotationsCount right) - real (annotationsCount left))
      else Finite (of_int (localeCompare pf (page_title left) (page_title right))))"

definition sortByMostAnnotations ::
  "platform \<Rightarrow> AnnotationBrowserPage \<Rightarrow> AnnotationBrowserPage \<Rightarrow> jsnumber" where
  "sortByMostAnnotations pf left right =
     (if annotationsCount right \<noteq> annotationsCount left
      then Finite (real (annotationsCount right) - real (annotationsCount left))
      else if js_strictNotEqual (lastCreatedAt right) (lastCreatedAt left)
      then js_minus (lastCreatedAt right) (lastCreatedAt left)
      else Finite (of_int (localeCompare pf (page_title left) (page_title right))))"

text \<open>
  \<open>Array.prototype.sort\<close> with a comparator is a stable sort: an element is placed
  behind those the comparator puts before it or leaves equal to it.
\<close>

fun insertSorted :: "('a \<Rightarrow> 'a \<Rightarrow> jsnumber) \<Rightarrow> 'a \<Rightarrow> 'a list \<Rightarrow> 'a list" where
  "insertSorted cmp a [] = [a]"
| "insertSorted cmp a (b # bs) =
     (if greaterThanZero (cmp a b) then b # insertSorted cmp a bs else a # b # bs)"

definition Array_sort :: "('a \<Rightarrow> 'a \<Rightarrow> jsnumber) \<Rightarrow> 'a list \<Rightarrow> 'a list" where
  "Array_sort cmp xs = foldr (insertSorted cmp) xs []"

text \<open>
  The inner loop over the highlights of one entry; \<open>tick\<close> counts the highlight records
  normalised so far.
\<close>

fun collectTimestamps :: "platform \<Rightarrow> jsvalue list \<Rightarrow> nat \<Rightarrow> jsnumber list \<times> nat" where
  "collectTimestamps pf [] tick = ([], tick)"
| "collectTimestamps pf (h # hs) tick =
     (case getHighlightCreatedAt (dateNow pf tick) h of
        None \<Rightarrow> collectTimestamps pf hs tick
      | Some createdAt \<Rightarrow>
          (let (rest, tick') = collectTimestamps pf hs (Suc tick) in (createdAt # rest, tick')))"

definition entryUrl :: "string \<Rightarrow> jsvalue \<Rightarrow> string" where
  "entryUrl storageKey rawEntry =
     (case getProp rawEntry ''url'' of JString s \<Rightarrow> s | _ \<Rightarrow> storageKey)"

definition entryHighlights :: "jsvalue \<Rightarrow> jsvalue list" where
  "entryHighlights rawEntry =
     (case getProp rawEntry ''highlights'' of JArray hs \<Rightarrow> hs | _ \<Rightarrow> [])"

text \<open>The outer loop over the entries of the storage object.\<close>

fun collectPages ::
  "platform \<Rightarrow> (string \<times> jsvalue) list \<Rightarrow> AnnotationBrowserPage list \<Rightarrow> nat \<Rightarrow> nat
     \<Rightarrow> AnnotationBrowserPage list \<times> nat" where
  "collectPages pf [] pages totalCount tick = (pages, totalCount)"
| "collectPages pf ((storageKey, rawEntry) # rest) pages totalCount tick =
     (if \<not> isRecord rawEntry then collectPages pf rest pages totalCount tick
      else
        (case parseUrl pf (entryUrl storageKey rawEntry) of
           None \<Rightarrow> collectPages pf rest pages totalCount tick
         | Some parsedUrl \<Rightarrow>
             (if entryHighlights rawEntry = [] then collectPages pf rest pages totalCount tick
              else
                (let (highlightTimestamps, tick') =
                       collectTimestamps pf (entryHighlights rawEntry) tick
                 in if highlightTimestamps = [] then collectPages pf rest pages totalCount tick'
                    else
                      collectPages pf rest
                        (pages @
                           [\<lparr>page_url = href parsedUrl,
                             page_title = derivePageTitle pf parsedUrl,
                             siteLabel = deriveSiteLabel pf parsedUrl,
                             page_path = derivePathLabel pf parsedUrl,
                             annotationsCount = length highlightTimestamps,
                             firstCreatedAt = Math_min highlightTimestamps,
                             lastCreatedAt = Math_max highlightTimestamps\<rparr>])
                        (totalCount + length highlightTimestamps) tick'))))"

definition buildAnnotationBrowserSnapshot :: "platform \<Rightarrow> jsvalue \<Rightarrow> AnnotationBrowserSnapshot" where
  "buildAnnotationBrowserSnapshot pf rawHighlightsStorage =
     (if \<not> isRecord rawHighlightsStorage
      then \<lparr>totalPages = 0, totalAnnotations = 0, recentPages = [], mostAnnotatedPages = []\<rparr>
      else
        (let (pages, totalCount) = collectPages pf (Object_entries rawHighlightsStorage) [] 0 0
         in \<lparr>totalPages = length pages, totalAnnotations = totalCount,
             recentPages = Array_sort (sortByMostRecentLast pf) pages,
             mostAnnotatedPages = Array_sort (sortByMostAnnotations pf) pages\<rparr>))"

text \<open>
  An entry that contributes a page: a record whose URL parses and whose highlights hold
  at least one record. The pages in the order the loop emits them.
\<close>

definition contributes :: "platform \<Rightarrow> string \<times> jsvalue \<Rightarrow> bool" where
  "contributes pf e =
     (isRecord (snd e) \<and> parseUrl pf (entryUrl (fst e) (snd e)) \<noteq> None
      \<and> filter isRecord (entryHighlights (snd e)) \<noteq> [])"

definition emittedPages :: "platform \<Rightarrow> jsvalue \<Rightarrow> AnnotationBrowserPage list" where
  "emittedPages pf rawHighlightsStorage =
     (if \<not> isRecord rawHighlightsStorage then []
      else fst (collectPages pf (Object_entries rawHighlightsStorage) [] 0 0))"

text \<open>The URL and the number of highlight records of an entry.\<close>

definition entryHref :: "platform \<Rightarrow> string \<times> jsvalue \<Rightarrow> string" where
  "entryHref pf e =
     (case parseUrl pf (entryUrl (fst e) (snd e)) of Some u \<Rightarrow> href u | None \<Rightarrow> [])"

definition entryRecordCount :: "string \<times> jsvalue \<Rightarrow> nat" where
  "entryRecordCount e = length (filter isRecord (entryHighlights (snd e)))"

text \<open>
  A storage object with one entry that contributes a page, one whose key is not a URL
  and one without a highlight record.
\<close>

definition examplePlatform :: platform where
  "examplePlatform =
     \<lparr>parseUrl = (\<lambda>s. if s = ''not a url'' then None
                       else Some \<lparr>href = s, hostname = ''a.org'', pathname = ''/''\<rparr>),
      localeCompare = (\<lambda>a b. 0),
      dateNow = (\<lambda>k. 1800000000000),
      derivePageTitle = hostname,
      deriveSiteLabel = hostname,
      derivePathLabel = pathname\<rparr>"

definition maxwellEntry :: jsvalue where
  "maxwellEntry =
     JObject [(''url'', JString ''https://a.org/wiki/Maxwell''),
              (''highlights'',
               JArray [JObject [(''id'', JString ''1700000000002''),
                                (''createdAt'', JNumber (Finite 1700000000500))],
                       JObject [(''id'', JString ''1700000000001'')],
                       JNull])]"

definition exampleStorage :: jsvalue where
  "exampleStorage =
     JObject [(''https://a.org/wiki/Maxwell'', maxwellEntry),
              (''not a url'', JObject [(''highlights'', JArray [JObject [(''id'', JString ''5'')]])]),
              (''https://a.org/'', JObject [(''highlights'', JArray [JNull])])]"

section \<open>Theorems\<close>

text \<open>
  C2. For every pair of highlights, the relationship \<open>overlap\<close> never merges, and the
  relationship \<open>adjacent\<close> merges unless both highlights are text-typed, anchored to the
  same path, and their resolved colours differ. The resolved colour of a highlight without
  a colour is the shared fallback, so two colourless highlights count as equal-coloured.
\<close>

theorem C2_merge_policy:
  "shouldAutoMergeHighlights h1 h2 Overlap = False
   \<and> shouldAutoMergeHighlights h1 h2 Adjacent =
       (\<not> (hl_type h1 = TextType \<and> hl_type h2 = TextType \<and> xpath h1 = xpath h2
            \<and> resolveHighlightColor h1 \<noteq> resolveHighlightColor h2))
   \<and> resolveHighlightColor (h1\<lparr>color := Some c\<rparr>) = (if c = [] then FALLBACK_HIGHLIGHT_COLOR else c)
   \<and> resolveHighlightColor (h1\<lparr>color := None\<rparr>) = FALLBACK_HIGHLIGHT_COLOR
   \<and> shouldAutoMergeHighlights (h1\<lparr>color := None\<rparr>) (h2\<lparr>color := None\<rparr>) Adjacent = True"
  by (auto simp add: shouldAutoMergeHighlights_def resolveHighlightColor_def)

theorem C2_merge_policy_witness:
  "shouldAutoMergeHighlights (textHighlight 6 11 ''#86d26f'') (textHighlight 0 19 ''#ffeb3b'') Overlap = False
   \<and> shouldAutoMergeHighlights (textHighlight 0 5 ''#ffeb3b'') (textHighlight 5 11 ''#ffeb3b'') Adjacent = True
   \<and> shouldAutoMergeHighlights (textHighlight 0 5 ''#86d26f'') (textHighlight 5 11 ''#ffeb3b'') Adjacent = False"
  using C2_merge_policy [of "textHighlight 6 11 ''#86d26f''" "textHighlight 0 19 ''#ffeb3b''"]
        C2_merge_policy [of "textHighlight 0 5 ''#ffeb3b''" "textHighlight 5 11 ''#ffeb3b''"]
        C2_merge_policy [of "textHighlight 0 5 ''#86d26f''" "textHighlight 5 11 ''#ffeb3b''"]
  by (simp add: textHighlight_def resolveHighlightColor_def)

subsection \<open>Timestamp fallback\<close>

lemma parseInt10_cases:
  "parseInt10 s = NaN \<or> parseInt10 s = PosInfinity \<or> parseInt10 s = NegInfinity
   \<or> (\<exists>n. parseInt10 s = Finite (of_int n))"
proof -
  have num: "numberOfInt k = PosInfinity \<or> numberOfInt k = NegInfinity
      \<or> numberOfInt k = Finite (of_int k)" for k
    by (simp add: numberOfInt_def)
  have "parseInt10 s = NaN \<or> (\<exists>k. parseInt10 s = numberOfInt k)"
    unfolding parseInt10_def Let_def by (simp split: if_splits) blast
  with num show ?thesis by metis
qed

lemma parseHighlightIdTimestamp_None_iff:
  "parseHighlightIdTimestamp ident = None \<longleftrightarrow> \<not> spec_parsesToPositiveInteger ident"
proof (cases ident)
  case (JString s)
  from parseInt10_cases [of s] show ?thesis
    by (auto simp: JString parseHighlightIdTimestamp_def spec_parsesToPositiveInteger_def
        Number_isFinite_def greaterThanZero_def Let_def)
qed (simp_all add: parseHighlightIdTimestamp_def spec_parsesToPositiveInteger_def)

lemma parseHighlightIdTimestamp_Some:
  assumes "parseHighlightIdTimestamp ident = Some v"
  shows "\<exists>s n. ident = JString s \<and> parseInt10 s = v \<and> v = Finite (of_int n) \<and> 0 < n"
proof (cases ident)
  case (JString s)
  from parseInt10_cases [of s] assms show ?thesis
    by (auto simp: JString parseHighlightIdTimestamp_def Number_isFinite_def
        greaterThanZero_def Let_def split: if_splits)
qed (use assms in \<open>simp_all add: parseHighlightIdTimestamp_def\<close>)

lemma resolveHighlightCreatedAt_none_valid:
  "list_all (\<lambda>c. \<not> validCandidate c) cs \<Longrightarrow> resolveHighlightCreatedAt now cs = Finite now"
  by (induction cs) (auto simp: validCandidate_def split: option.splits)

lemma resolveHighlightCreatedAt_first_valid:
  "validCandidate (Some n) \<Longrightarrow> resolveHighlightCreatedAt now (Some n # cs) = n"
  by (simp add: validCandidate_def)

text \<open>
  C9. An identifier that does not parse to a positive integer, a non-string identifier
  included, yields no timestamp (and only such an identifier does); a caller none of whose
  candidates is valid receives the current time; a finite positive numeric
  \<open>createdAt\<close> is returned whatever the identifier is, and without it an unparsable
  identifier leads to the current time.
\<close>

theorem C9_timestamp_fallback:
  "(parseHighlightIdTimestamp ident = None \<longleftrightarrow> \<not> spec_parsesToPositiveInteger ident)
   \<and> (parseHighlightIdTimestamp ident = Some v \<longrightarrow>
        (\<exists>s n. ident = JString s \<and> parseInt10 s = v \<and> v = Finite (of_int n) \<and> 0 < n))
   \<and> ((\<forall>s. ident \<noteq> JString s) \<longrightarrow> parseHighlightIdTimestamp ident = None)
   \<and> (list_all (\<lambda>c. \<not> validCandidate c) cs \<longrightarrow> resolveHighlightCreatedAt now cs = Finite now)
   \<and> (\<not> spec_parsesToPositiveInteger ident \<and> \<not> isValidHighlightTimestamp createdAt
        \<longrightarrow> normalizeHighlightCreatedAt now createdAt ident = Finite now)
   \<and> (0 < t \<longrightarrow> normalizeHighlightCreatedAt now (JNumber (Finite t)) ident = Finite t)"
proof (intro conjI impI)
  show "parseHighlightIdTimestamp ident = None \<longleftrightarrow> \<not> spec_parsesToPositiveInteger ident"
    by (rule parseHighlightIdTimestamp_None_iff)
  show "\<exists>s n. ident = JString s \<and> parseInt10 s = v \<and> v = Finite (of_int n) \<and> 0 < n"
    if "parseHighlightIdTimestamp ident = Some v"
    using that by (rule parseHighlightIdTimestamp_Some)
  show "parseHighlightIdTimestamp ident = None" if "\<forall>s. ident \<noteq> JString s"
    using that by (cases ident) (simp_all add: parseHighlightIdTimestamp_def)
  show "resolveHighlightCreatedAt now cs = Finite now" if "list_all (\<lambda>c. \<not> validCandidate c) cs"
    using that by (rule resolveHighlightCreatedAt_none_valid)
  show "normalizeHighlightCreatedAt now createdAt ident = Finite now"
    if "\<not> spec_parsesToPositiveInteger ident \<and> \<not> isValidHighlightTimestamp createdAt"
    using that parseHighlightIdTimestamp_None_iff [of ident]
    by (simp add: normalizeHighlightCreatedAt_def)
  show "normalizeHighlightCreatedAt now (JNumber (Finite t)) ident = Finite t" if "0 < t"
    using that
    by (simp add: normalizeHighlightCreatedAt_def isValidHighlightTimestamp_def
        Number_isFinite_def greaterThanZero_def)
qed

lemma parseInt10_abc: "parseInt10 ''abc'' = NaN"
  by (simp add: parseInt10_def isStrWhiteSpaceChar_def isDecimalDigit_def)

theorem C9_timestamp_fallback_witness:
  "parseHighlightIdTimestamp (JString ''abc'') = None
   \<and> parseHighlightIdTimestamp (JNumber (Finite 12)) = None
   \<and> resolveHighlightCreatedAt 1700000000000 [None, Some NaN] = Finite 1700000000000
   \<and> normalizeHighlightCreatedAt 1700000000000 JUndefined (JString ''abc'') = Finite 1700000000000
   \<and> normalizeHighlightCreatedAt 1700000000000 (JNumber (Finite 1650000000000)) (JString ''abc'')
       = Finite 1650000000000"
proof -
  have np: "\<not> spec_parsesToPositiveInteger (JString ''abc'')"
    by (simp add: spec_parsesToPositiveInteger_def parseInt10_abc)
  have nn: "\<not> spec_parsesToPositiveInteger (JNumber (Finite 12))"
    by (simp add: spec_parsesToPositiveInteger_def)
  have nv: "\<not> isValidHighlightTimestamp JUndefined"
    by (simp add: isValidHighlightTimestamp_def)
  have cs: "list_all (\<lambda>c. \<not> validCandidate c) [None, Some NaN]"
    by (simp add: validCandidate_def Number_isFinite_def)
  show ?thesis
    using np nn nv cs
      C9_timestamp_fallback [where ident = "JString ''abc''" and cs = "[None, Some NaN]"
        and now = 1700000000000 and createdAt = JUndefined and t = 1650000000000 and v = NaN]
      C9_timestamp_fallback [where ident = "JNumber (Finite 12)" and cs = "[]" and now = 0
        and createdAt = JUndefined and t = 1 and v = NaN]
    by simp
qed

subsection \<open>Offset decoding\<close>

lemma cumulativeLength_0 [simp]: "cumulativeLength ts 0 = 0"
  by (simp add: cumulativeLength_def)

lemma cumulativeLength_Cons [simp]:
  "cumulativeLength (t # ts) (Suc k) = int (length t) + cumulativeLength ts k"
  by (simp add: cumulativeLength_def)

lemma cumulativeLength_all:
  "length ts \<le> k \<Longrightarrow> cumulativeLength ts k = int (length (concat ts))"
proof (induction ts arbitrary: k)
  case Nil
  show ?case by (simp add: cumulativeLength_def)
next
  case (Cons t ts)
  then obtain k' where "k = Suc k'" by (cases k) auto
  with Cons show ?case by simp
qed

lemma textContent_Element:
  "int (length (textContent (ElementNode tag kids)))
     = cumulativeLength (textDescendants (ElementNode tag kids)) (length (textDescendants (ElementNode tag kids)))"
  by (simp add: cumulativeLength_all textContent_def)

lemma findTextNodeLoop_shift:
  "findTextNodeLoop ws (offs + d) (cur + d) first = findTextNodeLoop ws offs cur first"
proof (induction ws arbitrary: cur first)
  case Nil
  show ?case by simp
next
  case (Cons w ws)
  have step: "findTextNodeLoop ws (offs + d) (cur + d + n) f
      = findTextNodeLoop ws offs (cur + n) f" for f n
    using Cons.IH [of "cur + n" f] by (simp add: ac_simps)
  show ?case
    by (simp add: Let_def step)
qed

lemma findTextNodeLoop_first_reach:
  assumes "i < length ts"
    and "stored \<le> cur + cumulativeLength ts (Suc i)"
    and "\<forall>j<i. cur + cumulativeLength ts (Suc j) < stored"
    and "cur \<le> stored"
  shows "findTextNodeLoop (walkTexts k ts) stored cur first
     = Some \<lparr>node = TextRef (k + i), offset = stored - (cur + cumulativeLength ts i)\<rparr>"
  using assms
proof (induction ts arbitrary: i k cur first)
  case Nil
  then show ?case by simp
next
  case (Cons t ts)
  show ?case
  proof (cases i)
    case 0
    with Cons.prems show ?thesis by (simp add: Let_def)
  next
    case (Suc i')
    from Cons.prems(3) Suc have lt: "cur + int (length t) < stored"
      by (auto dest: spec [of _ 0])
    have a: "i' < length ts" using Cons.prems(1) Suc by simp
    have b: "stored \<le> (cur + int (length t)) + cumulativeLength ts (Suc i')"
      using Cons.prems(2) Suc by simp
    have c: "\<forall>j<i'. (cur + int (length t)) + cumulativeLength ts (Suc j) < stored"
    proof (intro allI impI)
      fix j assume "j < i'"
      then have "Suc j < i" using Suc by simp
      with Cons.prems(3) have "cur + cumulativeLength (t # ts) (Suc (Suc j)) < stored" by blast
      then show "(cur + int (length t)) + cumulativeLength ts (Suc j) < stored" by simp
    qed
    have d: "cur + int (length t) \<le> stored" using lt by simp
    from Cons.IH [OF a b c d, of "Suc k"] lt Suc show ?thesis
      by (simp add: Let_def add.assoc)
  qed
qed

lemma findTextNodeAtOffset_canonical:
  assumes "i < length (textDescendants target)"
    and "offs \<le> cumulativeLength (textDescendants target) (Suc i)"
    and "\<forall>j<i. cumulativeLength (textDescendants target) (Suc j) < offs"
    and "0 \<le> offs"
  shows "findTextNodeAtOffset target offs True
     = Some \<lparr>node = TextRef i, offset = offs - cumulativeLength (textDescendants target) i\<rparr>"
  using findTextNodeLoop_first_reach [of i "textDescendants target" offs 0 0 None] assms
  by (simp add: findTextNodeAtOffset_def walkFromNextNode_def)

lemma findTextNodeAtOffset_legacy:
  assumes "i < length (textDescendants (ElementNode tag kids))"
    and "offs \<le> int (length (textContent (ElementNode tag kids)))
            + cumulativeLength (textDescendants (ElementNode tag kids)) (Suc i)"
    and "\<forall>j<i. int (length (textContent (ElementNode tag kids)))
            + cumulativeLength (textDescendants (ElementNode tag kids)) (Suc j) < offs"
    and "int (length (textContent (ElementNode tag kids))) \<le> offs"
  shows "findTextNodeAtOffset (ElementNode tag kids) offs False
     = Some \<lparr>node = TextRef i,
             offset = offs - (int (length (textContent (ElementNode tag kids)))
                        + cumulativeLength (textDescendants (ElementNode tag kids)) i)\<rparr>"
  using findTextNodeLoop_first_reach [of i "textDescendants (ElementNode tag kids)" offs
      "int (length (textContent (ElementNode tag kids)))" 0 None] assms
  by (simp add: findTextNodeAtOffset_def walkFromCurrentNode_def isTextNode_def Let_def)

lemma findTextNodeAtOffset_legacy_shift:
  "findTextNodeAtOffset (ElementNode tag kids)
      (int (length (textContent (ElementNode tag kids))) + a) False
     = findTextNodeAtOffset (ElementNode tag kids) a True"
  using findTextNodeLoop_shift [of "walkTexts 0 (textDescendants (ElementNode tag kids))" a
      "int (length (textContent (ElementNode tag kids)))" 0 None]
  by (simp add: findTextNodeAtOffset_def walkFromCurrentNode_def walkFromNextNode_def
      isTextNode_def Let_def add.commute)

lemma shouldUseCanonicalOffsetDecoding_iff:
  assumes "0 \<le> s" and "0 \<le> e"
  shows "shouldUseCanonicalOffsetDecoding target s e
     \<longleftrightarrow> s < int (length (textContent target)) \<or> e < int (length (textContent target))"
  using assms by (auto simp: shouldUseCanonicalOffsetDecoding_def Let_def)

text \<open>
  C1. For a text highlight with non-negative stored offsets, resolved against an anchor
  element of total text length \<open>L\<close>: both offsets are decoded as canonical when one of
  them is below \<open>L\<close>, and both as legacy otherwise. The canonical walk counts from the
  first text descendant; the legacy walk has already consumed \<open>L\<close> (the root element's
  own text length) when it reaches the first text descendant. Either walk stops at the
  first text descendant where the cumulative length reaches or exceeds the stored offset,
  and the local offset is the stored offset minus the length consumed. A legacy offset
  \<open>L + a\<close> therefore selects the position that the canonical offset \<open>a\<close> selects; with
  \<open>L = 20\<close> the stored pair \<open>(23, 27)\<close> selects the positions of \<open>3\<close> and \<open>7\<close>, which
  in an element holding one text node are the local offsets \<open>3\<close> and \<open>7\<close>.
\<close>

theorem C1_offset_decoding:
  assumes "target = ElementNode tag kids"
    and "L = int (length (textContent target))"
    and "ts = textDescendants target"
    and "0 \<le> s" and "0 \<le> e"
  shows "decodeTextHighlightOffsets target s e
      = (if s < L \<or> e < L
         then (findTextNodeAtOffset target s True, findTextNodeAtOffset target e True)
         else (findTextNodeAtOffset target s False, findTextNodeAtOffset target e False))
   \<and> (0 \<le> offs \<and> i < length ts \<and> offs \<le> cumulativeLength ts (Suc i)
        \<and> (\<forall>j<i. cumulativeLength ts (Suc j) < offs)
      \<longrightarrow> findTextNodeAtOffset target offs True
            = Some \<lparr>node = TextRef i, offset = offs - cumulativeLength ts i\<rparr>)
   \<and> (L \<le> offs \<and> i < length ts \<and> offs \<le> L + cumulativeLength ts (Suc i)
        \<and> (\<forall>j<i. L + cumulativeLength ts (Suc j) < offs)
      \<longrightarrow> findTextNodeAtOffset target offs False
            = Some \<lparr>node = TextRef i, offset = offs - (L + cumulativeLength ts i)\<rparr>)
   \<and> findTextNodeAtOffset target (L + a) False = findTextNodeAtOffset target a True
   \<and> (L = 20 \<longrightarrow> decodeTextHighlightOffsets target 23 27
            = (findTextNodeAtOffset target 3 True, findTextNodeAtOffset target 7 True))
   \<and> (L = 20 \<and> length ts = 1 \<longrightarrow> decodeTextHighlightOffsets target 23 27
            = (Some \<lparr>node = TextRef 0, offset = 3\<rparr>, Some \<lparr>node = TextRef 0, offset = 7\<rparr>))"
proof -
  have dec: "decodeTextHighlightOffsets target s' e'
      = (if s' < L \<or> e' < L
         then (findTextNodeAtOffset target s' True, findTextNodeAtOffset target e' True)
         else (findTextNodeAtOffset target s' False, findTextNodeAtOffset target e' False))"
    if "0 \<le> s'" "0 \<le> e'" for s' e'
    using shouldUseCanonicalOffsetDecoding_iff [OF that, of target] assms(2)
    by (simp add: decodeTextHighlightOffsets_def Let_def)
  have canon: "findTextNodeAtOffset target offs' True
            = Some \<lparr>node = TextRef i', offset = offs' - cumulativeLength ts i'\<rparr>"
    if "0 \<le> offs'" "i' < length ts" "offs' \<le> cumulativeLength ts (Suc i')"
       "\<forall>j<i'. cumulativeLength ts (Suc j) < offs'" for offs' i'
    using findTextNodeAtOffset_canonical [of i' target offs'] that assms(3) by simp
  have legacy: "findTextNodeAtOffset target offs False
            = Some \<lparr>node = TextRef i, offset = offs - (L + cumulativeLength ts i)\<rparr>"
    if "L \<le> offs" "i < length ts" "offs \<le> L + cumulativeLength ts (Suc i)"
       "\<forall>j<i. L + cumulativeLength ts (Suc j) < offs"
    using findTextNodeAtOffset_legacy [of i tag kids offs] that assms(1,2,3) by simp
  have shift: "findTextNodeAtOffset target (L + a') False = findTextNodeAtOffset target a' True"
    for a'
    using findTextNodeAtOffset_legacy_shift [of tag kids a'] assms(1,2) by simp
  have ex: "decodeTextHighlightOffsets target 23 27
            = (findTextNodeAtOffset target 3 True, findTextNodeAtOffset target 7 True)"
    if "L = 20"
    using dec [of 23 27] shift [of 3] shift [of 7] that by simp
  have one: "decodeTextHighlightOffsets target 23 27
            = (Some \<lparr>node = TextRef 0, offset = 3\<rparr>, Some \<lparr>node = TextRef 0, offset = 7\<rparr>)"
    if "L = 20" "length ts = 1"
  proof -
    have "cumulativeLength ts (Suc 0) = 20"
      using textContent_Element [of tag kids] assms(1,2,3) that by simp
    then show ?thesis
      using ex [OF that(1)] canon [of 3 0] canon [of 7 0] that(2) by simp
  qed
  from dec [OF assms(4,5)] canon [of offs i] legacy shift [of a] ex one show ?thesis
    by blast
qed

lemmas offset_decoding_eval =
  decodeTextHighlightOffsets_def shouldUseCanonicalOffsetDecoding_def findTextNodeAtOffset_def
  walkFromNextNode_def walkFromCurrentNode_def isTextNode_def textContent_def
  cumulativeLength_def Let_def

theorem C1_offset_decoding_witness:
  "decodeTextHighlightOffsets maxwellParagraph 23 27
      = (Some \<lparr>node = TextRef 0, offset = 3\<rparr>, Some \<lparr>node = TextRef 1, offset = 1\<rparr>)
   \<and> decodeTextHighlightOffsets maxwellParagraph 3 7
      = (Some \<lparr>node = TextRef 0, offset = 3\<rparr>, Some \<lparr>node = TextRef 1, offset = 1\<rparr>)
   \<and> findTextNodeAtOffset maxwellParagraph 27 False = Some \<lparr>node = TextRef 1, offset = 1\<rparr>
   \<and> decodeTextHighlightOffsets (ElementNode ''P'' [TextNode ''James Clerk Maxwell.'']) 23 27
      = (Some \<lparr>node = TextRef 0, offset = 3\<rparr>, Some \<lparr>node = TextRef 0, offset = 7\<rparr>)"
proof -
  have l1: "int (length (textContent maxwellParagraph)) = 20"
    by (simp add: maxwellParagraph_def textContent_def)
  have l2: "int (length (textContent (ElementNode ''P'' [TextNode ''James Clerk Maxwell.'']))) = 20"
    by (simp add: textContent_def)
  have t1: "textDescendants maxwellParagraph = [''James '', ''Clerk'', '' Maxwell.'']"
    by (simp add: maxwellParagraph_def)
  have c3: "findTextNodeAtOffset maxwellParagraph 3 True = Some \<lparr>node = TextRef 0, offset = 3\<rparr>"
    by (simp add: maxwellParagraph_def offset_decoding_eval)
  have c7: "findTextNodeAtOffset maxwellParagraph 7 True = Some \<lparr>node = TextRef 1, offset = 1\<rparr>"
    by (simp add: maxwellParagraph_def offset_decoding_eval)
  have p: "(0::int) \<le> 23" "(0::int) \<le> 27" "(0::int) \<le> 3" "(0::int) \<le> 7"
    by simp_all
  note a = C1_offset_decoding [OF maxwellParagraph_def l1 [symmetric] t1 [symmetric] p(1,2),
      of 27 1 3]
  note b = C1_offset_decoding [OF maxwellParagraph_def l1 [symmetric] t1 [symmetric] p(3,4),
      of 7 1 7]
  note c = C1_offset_decoding [OF refl l2 [symmetric] refl p(1,2), of 23 0 3]
  have a': "decodeTextHighlightOffsets maxwellParagraph 23 27
      = (Some \<lparr>node = TextRef 0, offset = 3\<rparr>, Some \<lparr>node = TextRef 1, offset = 1\<rparr>)
      \<and> findTextNodeAtOffset maxwellParagraph 27 False = Some \<lparr>node = TextRef 1, offset = 1\<rparr>"
    using a c3 c7 by (simp add: cumulativeLength_def)
  have b': "decodeTextHighlightOffsets maxwellParagraph 3 7
      = (Some \<lparr>node = TextRef 0, offset = 3\<rparr>, Some \<lparr>node = TextRef 1, offset = 1\<rparr>)"
    using b c3 c7 by simp
  have c': "decodeTextHighlightOffsets (ElementNode ''P'' [TextNode ''James Clerk Maxwell.'']) 23 27
      = (Some \<lparr>node = TextRef 0, offset = 3\<rparr>, Some \<lparr>node = TextRef 0, offset = 7\<rparr>)"
  proof -
    from c have "(20::int) = 20
        \<and> length (textDescendants (ElementNode ''P'' [TextNode ''James Clerk Maxwell.''])) = 1
      \<longrightarrow> decodeTextHighlightOffsets (ElementNode ''P'' [TextNode ''James Clerk Maxwell.'']) 23 27
        = (Some \<lparr>node = TextRef 0, offset = 3\<rparr>, Some \<lparr>node = TextRef 0, offset = 7\<rparr>)"
      by blast
    then show ?thesis by simp
  qed
  from a' b' c' show ?thesis by simp
qed

subsection \<open>Rect merging\<close>

lemma DOMRect_copy [simp]:
  "\<lparr>rect_x = rect_x r, rect_y = rect_y r, rect_width = rect_width r, rect_height = rect_height r\<rparr>
     = (r :: DOMRect)"
  by simp

lemma mergeRectsLoop_nonempty: "mergeRectsLoop rs m (Some c) \<noteq> []"
  by (induction rs arbitrary: m c) auto

lemma mergeRectsLoop_snoc:
  "mergeRectsLoop (rs @ [r]) m (Some c) =
     (let out = mergeRectsLoop rs m (Some c); cur = last out in
      if \<bar>rect_y r - rect_y cur\<bar> < 1 \<and> \<bar>rect_height r - rect_height cur\<bar> < 1
      then butlast out @ [cur\<lparr>rect_width := rect_right r - rect_left cur\<rparr>]
      else out @ [r])"
proof (induction rs arbitrary: m c)
  case Nil
  show ?case by (simp add: Let_def)
next
  case (Cons a rs)
  show ?case
    by (simp add: Cons.IH)
qed

lemma mergeRects_nonempty: "rs \<noteq> [] \<Longrightarrow> mergeRects rs \<noteq> []"
  by (cases rs) (simp_all add: mergeRects_def mergeRectsLoop_nonempty)

lemma mergeRects_snoc:
  "rs \<noteq> [] \<Longrightarrow> mergeRects (rs @ [r]) =
     (let cur = last (mergeRects rs) in
      if \<bar>rect_y r - rect_y cur\<bar> < 1 \<and> \<bar>rect_height r - rect_height cur\<bar> < 1
      then butlast (mergeRects rs) @ [cur\<lparr>rect_width := rect_right r - rect_left cur\<rparr>]
      else mergeRects rs @ [r])"
  by (cases rs) (simp_all add: mergeRects_def mergeRectsLoop_snoc Let_def)

lemma merged_rect_edges:
  assumes "0 \<le> rect_width c" and "rect_left c \<le> rect_right r"
  shows "rect_left (c\<lparr>rect_width := rect_right r - rect_left c\<rparr>) = rect_left c
       \<and> rect_right (c\<lparr>rect_width := rect_right r - rect_left c\<rparr>) = rect_right r"
  using assms by (simp add: rect_left_def rect_right_def min_def max_def)

text \<open>
  C7, with the running rectangle as reference. The rectangles are processed in generation
  order against a running rectangle, which is the last output rectangle: a rectangle is
  merged into the running
  rectangle exactly when its vertical position and height each differ from those of the
  running rectangle by less than one pixel, and otherwise starts a new output rectangle.
  Merging keeps the origin, the vertical position and the height of the running rectangle
  and sets its width to the new rectangle's right edge minus its left edge; for a running
  rectangle of non-negative width that does not start right of the new right edge, this
  keeps its left edge and moves its right edge to the new rectangle's right edge.
\<close>

theorem C7_merge_running_rect:
  "mergeRects [] = []
   \<and> mergeRects [r] = [r]
   \<and> (rs \<noteq> [] \<longrightarrow> mergeRects rs \<noteq> [] \<and>
        mergeRects (rs @ [r]) =
          (let cur = last (mergeRects rs) in
           if \<bar>rect_y r - rect_y cur\<bar> < 1 \<and> \<bar>rect_height r - rect_height cur\<bar> < 1
           then butlast (mergeRects rs) @ [cur\<lparr>rect_width := rect_right r - rect_left cur\<rparr>]
           else mergeRects rs @ [r]))
   \<and> rect_x (c\<lparr>rect_width := rect_right r - rect_left c\<rparr>) = rect_x c
   \<and> rect_y (c\<lparr>rect_width := rect_right r - rect_left c\<rparr>) = rect_y c
   \<and> rect_height (c\<lparr>rect_width := rect_right r - rect_left c\<rparr>) = rect_height c
   \<and> (0 \<le> rect_width c \<and> rect_left c \<le> rect_right r \<longrightarrow>
        rect_left (c\<lparr>rect_width := rect_right r - rect_left c\<rparr>) = rect_left c
        \<and> rect_right (c\<lparr>rect_width := rect_right r - rect_left c\<rparr>) = rect_right r)"
  using mergeRects_nonempty [of rs] mergeRects_snoc [of rs r] merged_rect_edges [of c r]
  by (simp add: mergeRects_def)

lemmas rect_eval =
  mergeRects_def rect_left_def rect_right_def rect_top_def rect_bottom_def
  lineRun1_def lineRun2_def lineRun3_def

theorem C7_merge_running_rect_witness:
  "mergeRects [lineRun1, lineRun2] = [\<lparr>rect_x = 0, rect_y = 0, rect_width = 20, rect_height = 10\<rparr>]
   \<and> mergeRects ([lineRun1, lineRun2] @ [lineRun3])
       = [\<lparr>rect_x = 0, rect_y = 0, rect_width = 20, rect_height = 10\<rparr>, lineRun3]
   \<and> rect_left (lineRun1\<lparr>rect_width := rect_right lineRun2 - rect_left lineRun1\<rparr>) = 0
   \<and> rect_right (lineRun1\<lparr>rect_width := rect_right lineRun2 - rect_left lineRun1\<rparr>) = 20"
proof -
  have m: "mergeRects [lineRun1, lineRun2]
      = [\<lparr>rect_x = 0, rect_y = 0, rect_width = 20, rect_height = 10\<rparr>]"
    by (simp add: rect_eval)
  have ne: "[lineRun1, lineRun2] \<noteq> []" by simp
  have w: "0 \<le> rect_width lineRun1 \<and> rect_left lineRun1 \<le> rect_right lineRun2"
    by (simp add: rect_eval)
  from C7_merge_running_rect [of lineRun3 "[lineRun1, lineRun2]" lineRun1] ne
  have "mergeRects ([lineRun1, lineRun2] @ [lineRun3]) =
          (let cur = last (mergeRects [lineRun1, lineRun2]) in
           if \<bar>rect_y lineRun3 - rect_y cur\<bar> < 1 \<and> \<bar>rect_height lineRun3 - rect_height cur\<bar> < 1
           then butlast (mergeRects [lineRun1, lineRun2])
                  @ [cur\<lparr>rect_width := rect_right lineRun3 - rect_left cur\<rparr>]
           else mergeRects [lineRun1, lineRun2] @ [lineRun3])"
    by blast
  then have s: "mergeRects ([lineRun1, lineRun2] @ [lineRun3])
       = [\<lparr>rect_x = 0, rect_y = 0, rect_width = 20, rect_height = 10\<rparr>, lineRun3]"
    unfolding m by (simp add: lineRun3_def)
  from C7_merge_running_rect [of lineRun2 "[]" lineRun1] w
  have e: "rect_left (lineRun1\<lparr>rect_width := rect_right lineRun2 - rect_left lineRun1\<rparr>)
         = rect_left lineRun1
       \<and> rect_right (lineRun1\<lparr>rect_width := rect_right lineRun2 - rect_left lineRun1\<rparr>)
         = rect_right lineRun2"
    by blast
  have v: "rect_left lineRun1 = 0" "rect_right lineRun2 = 20"
    by (simp_all add: rect_eval)
  from m s e v show ?thesis by simp
qed

text \<open>
  The rule for consecutive rectangles fails on three sub-runs of one line whose vertical
  positions drift: the third matches the second within one pixel in position and height, yet it starts a
  new output rectangle, because it is compared with the running rectangle, which kept the
  position of the first. And when a run lies left of the running rectangle, the merged
  rectangle has a negative width: its left edge is the right edge of the new run and its
  right edge is the old left edge.
\<close>

theorem C7_consecutive_counterexample:
  "\<bar>rect_y lineRun3 - rect_y lineRun2\<bar> < 1
   \<and> \<bar>rect_height lineRun3 - rect_height lineRun2\<bar> < 1
   \<and> mergeRects [lineRun1, lineRun2, lineRun3]
       = [\<lparr>rect_x = 0, rect_y = 0, rect_width = 20, rect_height = 10\<rparr>,
          \<lparr>rect_x = 20, rect_y = 3/2, rect_width = 10, rect_height = 10\<rparr>]
   \<and> spec_mergeConsecutive [lineRun1, lineRun2, lineRun3]
       = [\<lparr>rect_x = 0, rect_y = 0, rect_width = 30, rect_height = 10\<rparr>]
   \<and> mergeRects [lineRun1, lineRun2, lineRun3] \<noteq> spec_mergeConsecutive [lineRun1, lineRun2, lineRun3]
   \<and> mergeRects [rtlRun1, rtlRun2]
       = [\<lparr>rect_x = 100, rect_y = 0, rect_width = - 70, rect_height = 10\<rparr>]
   \<and> rect_left \<lparr>rect_x = 100, rect_y = 0, rect_width = - 70, rect_height = 10\<rparr> = 30
   \<and> rect_left rtlRun1 = 100
   \<and> rect_right \<lparr>rect_x = 100, rect_y = 0, rect_width = - 70, rect_height = 10\<rparr> = 100
   \<and> rect_right rtlRun2 = 30"
  by (simp add: rect_eval spec_mergeConsecutive_def rtlRun1_def rtlRun2_def)

subsection \<open>Planning and deduplication\<close>

lemma overlay_box_padding:
  "overlays (createHighlightOverlayElement pg r txt idx ns col hid badge)
     = overlays pg @ [ov]
   \<Longrightarrow> rect_x (overlayBoundingClientRect pg ov) = rect_left r - 2
     \<and> rect_y (overlayBoundingClientRect pg ov) = rect_top r - 2
     \<and> rect_width (overlayBoundingClientRect pg ov) = rect_width r + 4
     \<and> rect_height (overlayBoundingClientRect pg ov) = rect_height r + 4"
  by (auto simp: createHighlightOverlayElement_def overlayBoundingClientRect_def)

lemma own_overlay_not_duplicate:
  "overlays (createHighlightOverlayElement pg r txt idx ns col hid badge)
     = overlays pg @ [ov]
   \<Longrightarrow> \<not> isDuplicate pg [ov] r"
  by (auto simp: createHighlightOverlayElement_def overlayBoundingClientRect_def
      isDuplicate_def rect_left_def rect_top_def Let_def)

lemma toUpperCase_figure: "toUpperCase (tagName figureElement) = ''FIGURE''"
  by (simp add: toUpperCase_def tagName_def figureElement_def)

lemma toUpperCase_noted: "toUpperCase (tagName notedParagraph) = ''P''"
  by (simp add: toUpperCase_def tagName_def notedParagraph_def)

lemma figure_first_pass:
  "planHighlightOverlayRects figureLayout emptyPage figureElement figureHighlight 0
     = \<lparr>overlays = [figureOverlay], scrollX = 0, scrollY = 0\<rparr>"
  unfolding planHighlightOverlayRects_def toUpperCase_figure
  by (simp add: figureHighlight_def figureLayout_def emptyPage_def LINE_BY_LINE_OVERLAY_TAGS_def
     mergeHighlightOverlayRects_def mergeRects_def isDuplicate_def createHighlightOverlayElement_def
     rect_left_def rect_top_def figureOverlay_def)

lemma figure_second_pass:
  "planHighlightOverlayRects figureLayout \<lparr>overlays = [figureOverlay], scrollX = 0, scrollY = 0\<rparr>
      figureElement figureHighlight 0
     = \<lparr>overlays = [figureOverlay, figureOverlay], scrollX = 0, scrollY = 0\<rparr>"
  unfolding planHighlightOverlayRects_def toUpperCase_figure
  by (simp add: figureHighlight_def figureLayout_def LINE_BY_LINE_OVERLAY_TAGS_def
     mergeHighlightOverlayRects_def mergeRects_def isDuplicate_def createHighlightOverlayElement_def
     overlayBoundingClientRect_def rect_left_def rect_top_def figureOverlay_def)

lemma figure_update_pass:
  "updateHighlightOverlayPosition figureLayout \<lparr>overlays = [figureOverlay], scrollX = 0, scrollY = 0\<rparr>
      figureElement figureHighlight 0
     = \<lparr>overlays = [figureOverlay], scrollX = 0, scrollY = 0\<rparr>"
proof -
  have "removeExistingHighlightOverlays \<lparr>overlays = [figureOverlay], scrollX = 0, scrollY = 0\<rparr> 0
      = emptyPage"
    by (simp add: removeExistingHighlightOverlays_def figureOverlay_def emptyPage_def)
  moreover have "filter (\<lambda>ov. ov_highlightIndex ov = 0)
      (overlays \<lparr>overlays = [figureOverlay], scrollX = 0, scrollY = 0\<rparr>) \<noteq> []"
    by (simp add: figureOverlay_def)
  ultimately show ?thesis
    by (simp add: updateHighlightOverlayPosition_def Let_def figure_first_pass)
qed

text \<open>
  C6, planning twice in succession. A figure is planned on a page without overlays and
  one overlay is rendered; it is planned again, unchanged, while that overlay is still in
  the document, and a second overlay is rendered: the overlay of the first pass is the
  planned rectangle grown by two pixels on every edge, so the planned rectangle differs
  from it by two pixels in position and four in size and is not recognised as a
  duplicate. The repaint loop does not accumulate overlays only because it removes the
  overlays of a highlight before it plans the highlight again.
\<close>

theorem C6_replanning_duplicates:
  "overlays (planHighlightOverlayRects figureLayout emptyPage figureElement figureHighlight 0)
      = [figureOverlay]
   \<and> overlays
        (planHighlightOverlayRects figureLayout
          (planHighlightOverlayRects figureLayout emptyPage figureElement figureHighlight 0)
          figureElement figureHighlight 0)
      = [figureOverlay, figureOverlay]
   \<and> isDuplicate emptyPage [figureOverlay] (targetBoundingClientRect figureLayout) = False
   \<and> overlays
        (updateHighlightOverlayPosition figureLayout
          (planHighlightOverlayRects figureLayout emptyPage figureElement figureHighlight 0)
          figureElement figureHighlight 0)
      = [figureOverlay]"
proof -
  have "isDuplicate emptyPage [figureOverlay] (targetBoundingClientRect figureLayout) = False"
    by (simp add: isDuplicate_def overlayBoundingClientRect_def figureOverlay_def
        figureLayout_def emptyPage_def rect_left_def rect_top_def)
  then show ?thesis
    by (simp add: figure_first_pass figure_second_pass figure_update_pass)
qed

lemma noted_average:
  "calculateAverageLineHeight (contentsClientRects notedLayout) = 40"
  by (simp add: calculateAverageLineHeight_def notedLayout_def)

lemma noted_text_group:
  "mergeHighlightOverlayRects emptyPage
      [\<lparr>rect_x = 0, rect_y = 0, rect_width = 50, rect_height = 10\<rparr>,
       \<lparr>rect_x = 0, rect_y = 10, rect_width = 50, rect_height = 10\<rparr>]
      ''two lines of text'' [] 0 (Some [''a note'']) None ''1700000000001''
    = \<lparr>overlays = [notedOverlay (- 2) 14 True, notedOverlay 8 14 False],
       scrollX = 0, scrollY = 0\<rparr>"
  by (simp add: mergeHighlightOverlayRects_def mergeRects_def isDuplicate_def
      createHighlightOverlayElement_def rect_left_def rect_top_def emptyPage_def
      notedOverlay_def)

lemma noted_complex_group:
  "mergeHighlightOverlayRects
      \<lparr>overlays = [notedOverlay (- 2) 14 True, notedOverlay 8 14 False], scrollX = 0, scrollY = 0\<rparr>
      [\<lparr>rect_x = 0, rect_y = 20, rect_width = 50, rect_height = 100\<rparr>]
      ''two lines of text'' [] 0 (Some [''a note'']) None ''1700000000001''
    = \<lparr>overlays = [notedOverlay (- 2) 14 True, notedOverlay 8 14 False, notedOverlay 18 104 True],
       scrollX = 0, scrollY = 0\<rparr>"
  by (simp add: mergeHighlightOverlayRects_def mergeRects_def isDuplicate_def
      createHighlightOverlayElement_def rect_left_def rect_top_def notedOverlay_def)

lemma noted_plan:
  "overlays (planHighlightOverlayRects notedLayout emptyPage notedParagraph notedHighlight 0)
    = [notedOverlay (- 2) 14 True, notedOverlay 8 14 False, notedOverlay 18 104 True]"
proof -
  have f1: "filter (\<lambda>rect. rect_height rect \<le> 40 * 1.5) (contentsClientRects notedLayout)
      = [\<lparr>rect_x = 0, rect_y = 0, rect_width = 50, rect_height = 10\<rparr>,
         \<lparr>rect_x = 0, rect_y = 10, rect_width = 50, rect_height = 10\<rparr>]"
    by (simp add: notedLayout_def)
  have f2: "filter (\<lambda>rect. rect_height rect > 40 * 1.5) (contentsClientRects notedLayout)
      = [\<lparr>rect_x = 0, rect_y = 20, rect_width = 50, rect_height = 100\<rparr>]"
    by (simp add: notedLayout_def)
  have ne: "contentsClientRects notedLayout \<noteq> []"
    by (simp add: notedLayout_def)
  have h: "hl_type notedHighlight = ElementType" "hl_notes notedHighlight = Some [''a note'']"
    "hl_id notedHighlight = ''1700000000001''" "content notedHighlight = ''two lines of text''"
    "color notedHighlight = None"
    by (simp_all add: notedHighlight_def)
  have e: "filter (\<lambda>ov. ov_highlightIndex ov = 0) (overlays emptyPage) = []"
    by (simp add: emptyPage_def)
  show ?thesis
    unfolding planHighlightOverlayRects_def toUpperCase_noted processRangeForOverlayRects_def
      noted_average Let_def f1 f2 h e
    by (simp add: ne LINE_BY_LINE_OVERLAY_TAGS_def noted_text_group noted_complex_group)
qed

text \<open>
  C8, a highlight with two rectangle groups. A paragraph with one note has two text-line
  rectangles and one tall rectangle. The two groups are emitted by two calls, each
  counting its rectangles from zero, and the first overlay of each group receives the
  comment indicator: two overlays of one highlight carry it. Every overlay is its
  rectangle grown by two pixels on each edge.
\<close>

theorem C8_two_comment_badges:
  "overlays (planHighlightOverlayRects notedLayout emptyPage notedParagraph notedHighlight 0)
     = [notedOverlay (- 2) 14 True, notedOverlay 8 14 False, notedOverlay 18 104 True]
   \<and> map ov_showCommentBadge
       (overlays (planHighlightOverlayRects notedLayout emptyPage notedParagraph notedHighlight 0))
     = [True, False, True]
   \<and> length (filter ov_showCommentBadge
       (overlays (planHighlightOverlayRects notedLayout emptyPage notedParagraph notedHighlight 0)))
     = 2"
  by (simp add: noted_plan notedOverlay_def)

subsection \<open>Resize commit\<close>

lemma of_char_digitChar: "d < 10 \<Longrightarrow> (of_char (digitChar d) :: nat) = 48 + d"
  by (simp add: digitChar_def)

lemma digitChar_props:
  assumes "d < 10"
  shows "isDecimalDigit (digitChar d)" "\<not> isStrWhiteSpaceChar (digitChar d)"
    "digitChar d \<noteq> CHR ''-''" "digitChar d \<noteq> CHR ''+''" "digitValue (digitChar d) = int d"
proof -
  note c = of_char_digitChar [OF assms]
  show "isDecimalDigit (digitChar d)" using assms by (simp add: isDecimalDigit_def c)
  show "\<not> isStrWhiteSpaceChar (digitChar d)" using assms by (simp add: isStrWhiteSpaceChar_def c)
  show "digitChar d \<noteq> CHR ''-''"
  proof
    assume "digitChar d = CHR ''-''"
    then have "(of_char (digitChar d) :: nat) = of_char CHR ''-''" by simp
    with c show False by simp
  qed
  show "digitChar d \<noteq> CHR ''+''"
  proof
    assume "digitChar d = CHR ''+''"
    then have "(of_char (digitChar d) :: nat) = of_char CHR ''+''" by simp
    with c show False by simp
  qed
  have "(of_char (digitChar d) :: int) = int (of_char (digitChar d))"
    by (rule of_nat_of_char [symmetric])
  then show "digitValue (digitChar d) = int d" by (simp add: digitValue_def c)
qed

lemma natToString_digits:
  "natToString n \<noteq> [] \<and> list_all isDecimalDigit (natToString n)
   \<and> foldl (\<lambda>a c. 10 * a + digitValue c) 0 (natToString n) = int n
   \<and> hd (natToString n) \<in> digitChar ` {..<10}"
proof (induction n rule: natToString.induct)
  case (1 n)
  show ?case
  proof (cases "n < 10")
    case True
    then show ?thesis
      by (subst (1 2 3 4) natToString.simps) (simp add: digitChar_props)
  next
    case False
    have m: "n mod 10 < 10" by simp
    have a: "10 * int (n div 10) + int (n mod 10) = int n" by presburger
    from 1 [OF False] False m a show ?thesis
      by (subst (1 2 3 4) natToString.simps) (simp add: digitChar_props)
  qed
qed

lemma parseInt10_natToString: "parseInt10 (natToString k) = numberOfInt (int k)"
proof -
  from natToString_digits [of k] obtain d where
    ne: "natToString k \<noteq> []" and dg: "list_all isDecimalDigit (natToString k)"
    and v: "foldl (\<lambda>a c. 10 * a + digitValue c) 0 (natToString k) = int k"
    and h: "hd (natToString k) = digitChar d" "d < 10"
    by auto
  have 1: "dropWhile isStrWhiteSpaceChar (natToString k) = natToString k"
    using ne h digitChar_props(2) [OF h(2)] by (cases "natToString k") auto
  have 2: "takeWhile isDecimalDigit (natToString k) = natToString k"
    using dg by (simp add: takeWhile_eq_all_conv list_all_iff)
  show ?thesis
    using ne h digitChar_props(3,4) [OF h(2)] v
    by (simp add: parseInt10_def 1 2 Let_def)
qed

lemma resolve_by_id:
  assumes r: "resolveSelectedTextHighlight br st = Some (h, target)"
    and t: "truthy (selectedHighlightId st)"
    and x: "\<exists>x\<in>set (highlights st). Some (hl_id x) = selectedHighlightId st"
  shows "hl_type h = TextType
     \<and> (\<exists>i<length (highlights st). highlights st ! i = h
            \<and> Some (hl_id (highlights st ! i)) = selectedHighlightId st)"
proof -
  from x obtain y where f: "find (\<lambda>item. Some (hl_id item) = selectedHighlightId st) (highlights st) = Some y"
    by (cases "find (\<lambda>item. Some (hl_id item) = selectedHighlightId st) (highlights st)")
       (auto simp: find_None_iff)
  then obtain i where i: "i < length (highlights st)" "highlights st ! i = y"
      "Some (hl_id (highlights st ! i)) = selectedHighlightId st"
    by (auto simp: find_Some_iff)
  from r have "hl_type y = TextType \<and> h = y"
    unfolding resolveSelectedTextHighlight_def Let_def
    by (simp add: t f split: if_splits option.splits)
  with i show ?thesis by auto
qed

lemma resolve_by_index:
  assumes r: "resolveSelectedTextHighlight br st = Some (h, target)"
    and n: "\<not> (truthy (selectedHighlightId st)
              \<and> (\<exists>x\<in>set (highlights st). Some (hl_id x) = selectedHighlightId st))"
    and k: "selectedHighlightIndex st = Some (natToString k)"
  shows "hl_type h = TextType \<and> k < length (highlights st) \<and> highlights st ! k = h"
proof -
  have b: "(if truthy (selectedHighlightId st)
             then find (\<lambda>item. Some (hl_id item) = selectedHighlightId st) (highlights st)
             else None) = None"
    using n by (auto simp: find_None_iff)
  have ne: "natToString k \<noteq> []"
    using natToString_digits [of k] by simp
  have p: "parseInt10 (natToString k) = numberOfInt (int k)"
    by (rule parseInt10_natToString)
  from r show ?thesis
    unfolding resolveSelectedTextHighlight_def Let_def b k option.case p
    using ne
    by (auto simp: numberOfInt_def split: if_splits option.splits)
qed

lemma mapSelectedHighlight_cases:
  "mapSelectedHighlight st s e txt i item = item
   \<or> (hl_type item = TextType
      \<and> mapSelectedHighlight st s e txt i item
          = item\<lparr>startOffset := s, endOffset := e, content := txt\<rparr>)"
  by (simp add: mapSelectedHighlight_def Let_def)

lemma nth_map_enumerate:
  "i < length xs \<Longrightarrow> map (\<lambda>(k, x). f k x) (enumerate 0 xs) ! i = f i (xs ! i)"
  by (simp add: nth_enumerate_eq)

lemma mapSelectedHighlight_exact:
  "mapSelectedHighlight st s e txt i item =
     (if ((truthy (selectedHighlightId st) \<and> Some (hl_id item) = selectedHighlightId st)
           \<or> selectedHighlightIndex st = Some (natToString i))
          \<and> hl_type item = TextType
      then item\<lparr>startOffset := s, endOffset := e, content := txt\<rparr>
      else item)"
  by (auto simp: mapSelectedHighlight_def Let_def)

text \<open>
  C5. A resize commit that writes offsets maps every highlight record as follows: the record
  that matches the selected id or the selected index and is a text highlight is replaced by
  itself with \<open>startOffset\<close> the smaller raw boundary offset, \<open>endOffset\<close> the larger
  one and the selected text as content; every other record is handed on as it was. The two
  offsets differ, so a selection whose raw boundary order is reversed is written back
  swapped. The selected highlight itself, found by its id or by an index text that is the
  decimal numeral of an index, is among the records so rewritten. The mapped list is what
  \<open>updateHighlights\<close> receives, and if \<open>startOffset \<le> endOffset\<close> held for every text
  highlight before the commit it holds for every text highlight after it.
\<close>

theorem C5_commit_orders_offsets:
  assumes "updateSelectedTextHighlightFromSelection br sel st = (True, st')"
  shows "\<exists>h target mapped rawStart rawEnd.
      resolveSelectedTextHighlight br st = Some (h, target)
    \<and> rawStart = getLegacyTextOffset target (sel_startContainer sel) (sel_startOffset sel)
    \<and> rawEnd = getLegacyTextOffset target (sel_endContainer sel) (sel_endOffset sel)
    \<and> calls st' = calls st @ [UpdateHighlights mapped, SortHighlights, ApplyHighlights,
                               SaveHighlights, UpdateHighlighterMenu]
    \<and> highlights st' = sortedHighlights br mapped
    \<and> length mapped = length (highlights st)
    \<and> (\<forall>i<length mapped.
          mapped ! i =
            (if ((truthy (selectedHighlightId st)
                   \<and> Some (hl_id (highlights st ! i)) = selectedHighlightId st)
                  \<or> selectedHighlightIndex st = Some (natToString i))
                 \<and> hl_type (highlights st ! i) = TextType
             then (highlights st ! i)\<lparr>startOffset := min rawStart rawEnd,
                                         endOffset := max rawStart rawEnd,
                                         content := sel_text sel\<rparr>
             else highlights st ! i))
    \<and> ((truthy (selectedHighlightId st)
           \<and> (\<exists>x\<in>set (highlights st). Some (hl_id x) = selectedHighlightId st))
         \<or> (\<exists>k. selectedHighlightIndex st = Some (natToString k))
        \<longrightarrow> (\<exists>i<length mapped.
               highlights st ! i = h
             \<and> mapped ! i = h\<lparr>startOffset := min rawStart rawEnd,
                                  endOffset := max rawStart rawEnd,
                                  content := sel_text sel\<rparr>
             \<and> startOffset (mapped ! i) < endOffset (mapped ! i)
             \<and> (rawEnd < rawStart \<longrightarrow>
                   startOffset (mapped ! i) = rawEnd \<and> endOffset (mapped ! i) = rawStart)
             \<and> (rawStart < rawEnd \<longrightarrow>
                   startOffset (mapped ! i) = rawStart \<and> endOffset (mapped ! i) = rawEnd)))
    \<and> (\<forall>i<length mapped.
          mapped ! i = highlights st ! i
          \<or> (hl_type (mapped ! i) = TextType
             \<and> startOffset (mapped ! i) = min rawStart rawEnd
             \<and> endOffset (mapped ! i) = max rawStart rawEnd
             \<and> startOffset (mapped ! i) < endOffset (mapped ! i)))
    \<and> (rawEnd < rawStart \<longrightarrow>
          (\<forall>i<length mapped.
             mapped ! i = highlights st ! i
             \<or> (startOffset (mapped ! i) = rawEnd \<and> endOffset (mapped ! i) = rawStart)))
    \<and> ((\<forall>x\<in>set (highlights st). hl_type x = TextType \<longrightarrow> startOffset x \<le> endOffset x)
          \<longrightarrow> (\<forall>x\<in>set mapped. hl_type x = TextType \<longrightarrow> startOffset x \<le> endOffset x))"
proof -
  from assms obtain h target where res: "resolveSelectedTextHighlight br st = Some (h, target)"
    by (auto simp: updateSelectedTextHighlightFromSelection_def split: if_splits option.splits)
  define rawStart where "rawStart = getLegacyTextOffset target (sel_startContainer sel) (sel_startOffset sel)"
  define rawEnd where "rawEnd = getLegacyTextOffset target (sel_endContainer sel) (sel_endOffset sel)"
  define mapped where "mapped = map (\<lambda>(index, item).
       mapSelectedHighlight st (min rawStart rawEnd) (max rawStart rawEnd) (sel_text sel) index item)
     (enumerate 0 (highlights st))"
  from assms res have ne: "min rawStart rawEnd \<noteq> max rawStart rawEnd"
    and c: "calls st' = calls st @ [UpdateHighlights mapped, SortHighlights, ApplyHighlights,
                               SaveHighlights, UpdateHighlighterMenu]"
    and hs: "highlights st' = sortedHighlights br mapped"
    by (auto simp: updateSelectedTextHighlightFromSelection_def Let_def rawStart_def rawEnd_def
        mapped_def split: if_splits)
  have len: "length mapped = length (highlights st)"
    by (simp add: mapped_def)
  have nth: "mapped ! i = mapSelectedHighlight st (min rawStart rawEnd) (max rawStart rawEnd)
       (sel_text sel) i (highlights st ! i)" if "i < length mapped" for i
    using that len by (simp add: mapped_def nth_enumerate_eq)
  have lt: "min rawStart rawEnd < max rawStart rawEnd"
    using ne by (simp add: min_def max_def split: if_splits)
  have exact1: "mapped ! i =
            (if ((truthy (selectedHighlightId st)
                   \<and> Some (hl_id (highlights st ! i)) = selectedHighlightId st)
                  \<or> selectedHighlightIndex st = Some (natToString i))
                 \<and> hl_type (highlights st ! i) = TextType
             then (highlights st ! i)\<lparr>startOffset := min rawStart rawEnd,
                                         endOffset := max rawStart rawEnd,
                                         content := sel_text sel\<rparr>
             else highlights st ! i)" if "i < length mapped" for i
    unfolding nth [OF that] by (rule mapSelectedHighlight_exact)
  have sel1: "\<exists>i<length mapped.
               highlights st ! i = h
             \<and> mapped ! i = h\<lparr>startOffset := min rawStart rawEnd,
                                  endOffset := max rawStart rawEnd,
                                  content := sel_text sel\<rparr>
             \<and> startOffset (mapped ! i) < endOffset (mapped ! i)
             \<and> (rawEnd < rawStart \<longrightarrow>
                   startOffset (mapped ! i) = rawEnd \<and> endOffset (mapped ! i) = rawStart)
             \<and> (rawStart < rawEnd \<longrightarrow>
                   startOffset (mapped ! i) = rawStart \<and> endOffset (mapped ! i) = rawEnd)"
    if cond: "(truthy (selectedHighlightId st)
           \<and> (\<exists>x\<in>set (highlights st). Some (hl_id x) = selectedHighlightId st))
         \<or> (\<exists>k. selectedHighlightIndex st = Some (natToString k))"
  proof -
    have "\<exists>i<length (highlights st). highlights st ! i = h \<and> hl_type h = TextType
        \<and> ((truthy (selectedHighlightId st)
                   \<and> Some (hl_id (highlights st ! i)) = selectedHighlightId st)
                  \<or> selectedHighlightIndex st = Some (natToString i))"
    proof (cases "truthy (selectedHighlightId st)
           \<and> (\<exists>x\<in>set (highlights st). Some (hl_id x) = selectedHighlightId st)")
      case True
      then have t: "truthy (selectedHighlightId st)"
        and x: "\<exists>x\<in>set (highlights st). Some (hl_id x) = selectedHighlightId st"
        by simp_all
      from resolve_by_id [OF res t x] t show ?thesis by blast
    next
      case False
      with cond obtain k where k: "selectedHighlightIndex st = Some (natToString k)" by blast
      from resolve_by_index [OF res False k] k show ?thesis by blast
    qed
    then obtain i where i: "i < length (highlights st)" "highlights st ! i = h"
      "hl_type h = TextType"
      "(truthy (selectedHighlightId st)
                   \<and> Some (hl_id (highlights st ! i)) = selectedHighlightId st)
                  \<or> selectedHighlightIndex st = Some (natToString i)"
      by blast
    have il: "i < length mapped" using i(1) len by simp
    have ty: "hl_type (highlights st ! i) = TextType" using i(2,3) by simp
    have w: "mapped ! i = h\<lparr>startOffset := min rawStart rawEnd,
                                  endOffset := max rawStart rawEnd,
                                  content := sel_text sel\<rparr>"
      unfolding exact1 [OF il] using i(4) ty i(2) by simp
    have so: "startOffset (mapped ! i) = min rawStart rawEnd"
      "endOffset (mapped ! i) = max rawStart rawEnd"
      unfolding w by simp_all
    have o1: "startOffset (mapped ! i) < endOffset (mapped ! i)"
      unfolding so by (rule lt)
    have o2: "rawEnd < rawStart \<longrightarrow>
                   startOffset (mapped ! i) = rawEnd \<and> endOffset (mapped ! i) = rawStart"
      unfolding so by (simp add: min_def max_def)
    have o3: "rawStart < rawEnd \<longrightarrow>
                   startOffset (mapped ! i) = rawStart \<and> endOffset (mapped ! i) = rawEnd"
      unfolding so by (simp add: min_def max_def)
    from il i(2) w o1 o2 o3 show ?thesis by blast
  qed
  have each: "mapped ! i = highlights st ! i
          \<or> (hl_type (mapped ! i) = TextType
             \<and> startOffset (mapped ! i) = min rawStart rawEnd
             \<and> endOffset (mapped ! i) = max rawStart rawEnd
             \<and> startOffset (mapped ! i) < endOffset (mapped ! i))" if "i < length mapped" for i
    using mapSelectedHighlight_cases [of st "min rawStart rawEnd" "max rawStart rawEnd"
        "sel_text sel" i "highlights st ! i"] nth [OF that] lt
    by auto
  have rev: "mapped ! i = highlights st ! i
             \<or> (startOffset (mapped ! i) = rawEnd \<and> endOffset (mapped ! i) = rawStart)"
    if "rawEnd < rawStart" "i < length mapped" for i
    using each [OF that(2)] that(1) by (auto simp: min_def max_def)
  have pres: "\<forall>x\<in>set mapped. hl_type x = TextType \<longrightarrow> startOffset x \<le> endOffset x"
    if inv: "\<forall>x\<in>set (highlights st). hl_type x = TextType \<longrightarrow> startOffset x \<le> endOffset x"
  proof
    fix x assume "x \<in> set mapped"
    then obtain i where i: "i < length mapped" "x = mapped ! i"
      by (auto simp: in_set_conv_nth)
    from each [OF i(1)] show "hl_type x = TextType \<longrightarrow> startOffset x \<le> endOffset x"
    proof
      assume "mapped ! i = highlights st ! i"
      with i len inv show ?thesis by (metis nth_mem)
    next
      assume "hl_type (mapped ! i) = TextType
             \<and> startOffset (mapped ! i) = min rawStart rawEnd
             \<and> endOffset (mapped ! i) = max rawStart rawEnd
             \<and> startOffset (mapped ! i) < endOffset (mapped ! i)"
      with i show ?thesis by simp
    qed
  qed
  have f_exact: "\<forall>i<length mapped.
          mapped ! i =
            (if ((truthy (selectedHighlightId st)
                   \<and> Some (hl_id (highlights st ! i)) = selectedHighlightId st)
                  \<or> selectedHighlightIndex st = Some (natToString i))
                 \<and> hl_type (highlights st ! i) = TextType
             then (highlights st ! i)\<lparr>startOffset := min rawStart rawEnd,
                                         endOffset := max rawStart rawEnd,
                                         content := sel_text sel\<rparr>
             else highlights st ! i)"
    using exact1 by blast
  have f_sel: "(truthy (selectedHighlightId st)
           \<and> (\<exists>x\<in>set (highlights st). Some (hl_id x) = selectedHighlightId st))
         \<or> (\<exists>k. selectedHighlightIndex st = Some (natToString k))
        \<longrightarrow> (\<exists>i<length mapped.
               highlights st ! i = h
             \<and> mapped ! i = h\<lparr>startOffset := min rawStart rawEnd,
                                  endOffset := max rawStart rawEnd,
                                  content := sel_text sel\<rparr>
             \<and> startOffset (mapped ! i) < endOffset (mapped ! i)
             \<and> (rawEnd < rawStart \<longrightarrow>
                   startOffset (mapped ! i) = rawEnd \<and> endOffset (mapped ! i) = rawStart)
             \<and> (rawStart < rawEnd \<longrightarrow>
                   startOffset (mapped ! i) = rawStart \<and> endOffset (mapped ! i) = rawEnd))"
    using sel1 by (rule impI)
  have f_each: "\<forall>i<length mapped.
          mapped ! i = highlights st ! i
          \<or> (hl_type (mapped ! i) = TextType
             \<and> startOffset (mapped ! i) = min rawStart rawEnd
             \<and> endOffset (mapped ! i) = max rawStart rawEnd
             \<and> startOffset (mapped ! i) < endOffset (mapped ! i))"
    using each by blast
  have f_rev: "rawEnd < rawStart \<longrightarrow>
          (\<forall>i<length mapped.
             mapped ! i = highlights st ! i
             \<or> (startOffset (mapped ! i) = rawEnd \<and> endOffset (mapped ! i) = rawStart))"
    using rev by blast
  have f_pres: "(\<forall>x\<in>set (highlights st). hl_type x = TextType \<longrightarrow> startOffset x \<le> endOffset x)
          \<longrightarrow> (\<forall>x\<in>set mapped. hl_type x = TextType \<longrightarrow> startOffset x \<le> endOffset x)"
    using pres by (rule impI)
  have body: "resolveSelectedTextHighlight br st = Some (h, target)
    \<and> rawStart = getLegacyTextOffset target (sel_startContainer sel) (sel_startOffset sel)
    \<and> rawEnd = getLegacyTextOffset target (sel_endContainer sel) (sel_endOffset sel)
    \<and> calls st' = calls st @ [UpdateHighlights mapped, SortHighlights, ApplyHighlights,
                               SaveHighlights, UpdateHighlighterMenu]
    \<and> highlights st' = sortedHighlights br mapped
    \<and> length mapped = length (highlights st)
    \<and> (\<forall>i<length mapped.
          mapped ! i =
            (if ((truthy (selectedHighlightId st)
                   \<and> Some (hl_id (highlights st ! i)) = selectedHighlightId st)
                  \<or> selectedHighlightIndex st = Some (natToString i))
                 \<and> hl_type (highlights st ! i) = TextType
             then (highlights st ! i)\<lparr>startOffset := min rawStart rawEnd,
                                         endOffset := max rawStart rawEnd,
                                         content := sel_text sel\<rparr>
             else highlights st ! i))
    \<and> ((truthy (selectedHighlightId st)
           \<and> (\<exists>x\<in>set (highlights st). Some (hl_id x) = selectedHighlightId st))
         \<or> (\<exists>k. selectedHighlightIndex st = Some (natToString k))
        \<longrightarrow> (\<exists>i<length mapped.
               highlights st ! i = h
             \<and> mapped ! i = h\<lparr>startOffset := min rawStart rawEnd,
                                  endOffset := max rawStart rawEnd,
                                  content := sel_text sel\<rparr>
             \<and> startOffset (mapped ! i) < endOffset (mapped ! i)
             \<and> (rawEnd < rawStart \<longrightarrow>
                   startOffset (mapped ! i) = rawEnd \<and> endOffset (mapped ! i) = rawStart)
             \<and> (rawStart < rawEnd \<longrightarrow>
                   startOffset (mapped ! i) = rawStart \<and> endOffset (mapped ! i) = rawEnd)))
    \<and> (\<forall>i<length mapped.
          mapped ! i = highlights st ! i
          \<or> (hl_type (mapped ! i) = TextType
             \<and> startOffset (mapped ! i) = min rawStart rawEnd
             \<and> endOffset (mapped ! i) = max rawStart rawEnd
             \<and> startOffset (mapped ! i) < endOffset (mapped ! i)))
    \<and> (rawEnd < rawStart \<longrightarrow>
          (\<forall>i<length mapped.
             mapped ! i = highlights st ! i
             \<or> (startOffset (mapped ! i) = rawEnd \<and> endOffset (mapped ! i) = rawStart)))
    \<and> ((\<forall>x\<in>set (highlights st). hl_type x = TextType \<longrightarrow> startOffset x \<le> endOffset x)
          \<longrightarrow> (\<forall>x\<in>set mapped. hl_type x = TextType \<longrightarrow> startOffset x \<le> endOffset x))"
    apply (intro conjI)
    subgoal by (rule res)
    subgoal by (rule rawStart_def)
    subgoal by (rule rawEnd_def)
    subgoal by (rule c)
    subgoal by (rule hs)
    subgoal by (rule len)
    subgoal by (rule f_exact)
    subgoal by (rule f_sel)
    subgoal by (rule f_each)
    subgoal by (rule f_rev)
    subgoal by (rule f_pres)
    done
  then show ?thesis
    by (intro exI)
qed

subsection \<open>Drag sessions\<close>

lemma teardown_frame:
  "highlights (teardownOffsetHandleDrag st) = highlights st"
  "calls (teardownOffsetHandleDrag st) = calls st"
  "nativeSelection (teardownOffsetHandleDrag st) = nativeSelection st"
  "selectedHighlightId (teardownOffsetHandleDrag st) = selectedHighlightId st"
  "selectedHighlightIndex (teardownOffsetHandleDrag st) = selectedHighlightIndex st"
  "documentOverlays (teardownOffsetHandleDrag st) = documentOverlays st"
  by (simp_all add: teardownOffsetHandleDrag_def split: option.splits)

lemma teardown_clears:
  "activeOffsetHandleDrag (teardownOffsetHandleDrag st) = None"
  by (simp add: teardownOffsetHandleDrag_def split: option.splits)

lemma finalize_unchanged:
  assumes "activeOffsetHandleDrag st = Some d"
    and "\<not> hasMoved d"
    and "(case nativeSelection st of Some s \<Rightarrow> sel_text s | None \<Rightarrow> []) = initialSelectionText d"
  shows "finalizeOffsetHandleDrag br cx cy st
      = (teardownOffsetHandleDrag st)\<lparr>suppressNextMouseUpHighlight := True\<rparr>"
  using assms by (simp add: finalizeOffsetHandleDrag_def Let_def split: option.splits)

lemma applyNativeSelection_frame:
  "highlights (applyNativeSelection br a f st) = highlights st"
  "calls (applyNativeSelection br a f st) = calls st"
  "activeOffsetHandleDrag (applyNativeSelection br a f st) = activeOffsetHandleDrag st"
  by (simp_all add: applyNativeSelection_def split: option.splits)

lemma move_within_threshold:
  assumes "activeOffsetHandleDrag st = Some d"
    and "\<not> hasMoved d"
    and "\<bar>ev_clientX ev - startClientX d\<bar> \<le> OFFSET_HANDLE_DRAG_THRESHOLD_PX"
    and "\<bar>ev_clientY ev - startClientY d\<bar> \<le> OFFSET_HANDLE_DRAG_THRESHOLD_PX"
  shows "activeOffsetHandleDrag (handleOffsetHandleDragMove br ev st) = Some d
       \<and> highlights (handleOffsetHandleDragMove br ev st) = highlights st
       \<and> calls (handleOffsetHandleDragMove br ev st) = calls st"
  using assms
  by (simp add: handleOffsetHandleDragMove_def Let_def applyNativeSelection_frame
      split: option.splits)

text \<open>
  C4. A drag session whose pointer never moved beyond the threshold and whose selection
  text at release equals the snapshot taken when it was armed is discarded by the commit
  path: the session is torn down, no collaborator is invoked (so nothing is persisted)
  and the highlight records are unchanged, whether the release arrives as a pointer-up or
  as a mouse-up. A move that stays within the threshold leaves the session as it was.
\<close>

theorem C4_unchanged_drag_not_persisted:
  assumes "activeOffsetHandleDrag st = Some d"
    and "\<not> hasMoved d"
    and "(case nativeSelection st of Some s \<Rightarrow> sel_text s | None \<Rightarrow> []) = initialSelectionText d"
  shows "finalizeOffsetHandleDrag br cx cy st
        = (teardownOffsetHandleDrag st)\<lparr>suppressNextMouseUpHighlight := True\<rparr>
     \<and> highlights (finalizeOffsetHandleDrag br cx cy st) = highlights st
     \<and> calls (finalizeOffsetHandleDrag br cx cy st) = calls st
     \<and> activeOffsetHandleDrag (finalizeOffsetHandleDrag br cx cy st) = None
     \<and> highlights (handleOffsetHandlePointerUp br ev st) = highlights st
     \<and> calls (handleOffsetHandlePointerUp br ev st) = calls st
     \<and> highlights (handleOffsetHandleMouseUp br ev st) = highlights st
     \<and> calls (handleOffsetHandleMouseUp br ev st) = calls st
     \<and> (\<bar>ev_clientX ev - startClientX d\<bar> \<le> OFFSET_HANDLE_DRAG_THRESHOLD_PX
          \<and> \<bar>ev_clientY ev - startClientY d\<bar> \<le> OFFSET_HANDLE_DRAG_THRESHOLD_PX
        \<longrightarrow> activeOffsetHandleDrag (handleOffsetHandleDragMove br ev st) = Some d
            \<and> highlights (handleOffsetHandleDragMove br ev st) = highlights st
            \<and> calls (handleOffsetHandleDragMove br ev st) = calls st)"
proof -
  note fin = finalize_unchanged [OF assms, of br]
  have up: "highlights (handleOffsetHandlePointerUp br ev st) = highlights st
     \<and> calls (handleOffsetHandlePointerUp br ev st) = calls st"
    using assms(1) fin [of "ev_clientX ev" "ev_clientY ev"]
    by (simp add: handleOffsetHandlePointerUp_def teardown_frame)
  have mu: "highlights (handleOffsetHandleMouseUp br ev st) = highlights st
     \<and> calls (handleOffsetHandleMouseUp br ev st) = calls st"
    using assms(1) fin [of "ev_clientX ev" "ev_clientY ev"]
    by (simp add: handleOffsetHandleMouseUp_def teardown_frame)
  show ?thesis
    using fin [of cx cy] up mu move_within_threshold [OF assms(1,2), of ev br]
    by (simp add: teardown_frame teardown_clears)
qed

lemma restorePointerEvents_Nil [simp]: "restorePointerEvents [] style = style"
  by (simp add: restorePointerEvents_def)

lemma restorePointerEvents_Cons [simp]:
  "restorePointerEvents ((ov', v') # disabled) style
     = restorePointerEvents disabled (style(ov' := v'))"
  by (simp add: restorePointerEvents_def)

lemma restorePointerEvents_notin:
  "ov \<notin> fst ` set disabled \<Longrightarrow> restorePointerEvents disabled style ov = style ov"
proof (induction disabled arbitrary: style)
  case Nil
  show ?case by simp
next
  case (Cons a disabled)
  obtain ov' v' where a: "a = (ov', v')" by (cases a)
  from Cons.prems a have n: "ov \<noteq> ov'" and m: "ov \<notin> fst ` set disabled" by auto
  have 1: "restorePointerEvents disabled (style(ov' := v')) ov = (style(ov' := v')) ov"
    using m by (rule Cons.IH)
  have 2: "(style(ov' := v')) ov = style ov"
    using n by simp
  show ?case
    unfolding a restorePointerEvents_Cons by (rule trans [OF 1 2])
qed

lemma restorePointerEvents_in:
  "distinct (map fst disabled) \<Longrightarrow> (ov, v) \<in> set disabled
     \<Longrightarrow> restorePointerEvents disabled style ov = v"
proof (induction disabled arbitrary: style)
  case Nil
  then show ?case by simp
next
  case (Cons a disabled)
  obtain ov' v' where a: "a = (ov', v')" by (cases a)
  show ?case
  proof (cases "(ov, v) = a")
    case True
    with Cons.prems a have m: "ov \<notin> fst ` set disabled" and e: "ov' = ov" "v' = v" by auto
    have 1: "restorePointerEvents disabled (style(ov := v)) ov = (style(ov := v)) ov"
      using m by (rule restorePointerEvents_notin)
    have 2: "(style(ov := v)) ov = v" by simp
    show ?thesis
      unfolding a e restorePointerEvents_Cons by (rule trans [OF 1 2])
  next
    case False
    with Cons.prems have i: "(ov, v) \<in> set disabled" and d: "distinct (map fst disabled)"
      by auto
    show ?thesis
      unfolding a restorePointerEvents_Cons using d i by (rule Cons.IH)
  qed
qed

lemma teardown_invariant:
  "dragInvariant st \<Longrightarrow> dragInvariant (teardownOffsetHandleDrag st)"
  by (auto simp: dragInvariant_def teardownOffsetHandleDrag_def split: option.splits)

lemma teardown_idle:
  "dragInvariant st \<Longrightarrow>
     documentListeners (teardownOffsetHandleDrag st) \<inter> dragListeners = {}
     \<and> pointerCaptures (teardownOffsetHandleDrag st) = {}
     \<and> \<not> draggingClass (teardownOffsetHandleDrag st)"
  using teardown_invariant [of st] teardown_clears [of st]
  by (simp add: dragInvariant_def)

lemma teardown_post:
  assumes "activeOffsetHandleDrag st = Some d"
  shows "activeOffsetHandleDrag (teardownOffsetHandleDrag st) = None"
    and "distinct (map fst (disabledOverlayPointerEvents d)) \<Longrightarrow>
           (ov, v) \<in> set (disabledOverlayPointerEvents d) \<Longrightarrow>
           pointerEventsStyle (teardownOffsetHandleDrag st) ov = v"
    and "documentListeners (teardownOffsetHandleDrag st) \<inter> dragListeners = {}"
    and "pointerId d = Some p \<Longrightarrow> (dragHandle d, p) \<notin> pointerCaptures (teardownOffsetHandleDrag st)"
    and "\<not> draggingClass (teardownOffsetHandleDrag st)"
  using assms
  by (auto simp: teardownOffsetHandleDrag_def restorePointerEvents_in)

lemma select_frame:
  assumes "selectHighlightTextFromOpposingEdge br edge st = (r, st1)"
  shows "activeOffsetHandleDrag st1 = activeOffsetHandleDrag st"
    and "documentOverlays st1 = documentOverlays st"
    and "pointerEventsStyle st1 = pointerEventsStyle st"
    and "documentListeners st1 = documentListeners st"
    and "pointerCaptures st1 = pointerCaptures st"
    and "draggingClass st1 = draggingClass st"
    and "highlights st1 = highlights st"
    and "calls st1 = calls st"
  using assms
  by (auto simp: selectHighlightTextFromOpposingEdge_def applyNativeSelection_def Let_def
      split: option.splits prod.splits)

lemma select_teardown:
  assumes "selectHighlightTextFromOpposingEdge br edge st = (r, st1)"
  shows "teardownOffsetHandleDrag st1
     = (teardownOffsetHandleDrag st)\<lparr>nativeSelection := nativeSelection st1\<rparr>"
  using assms
  by (auto simp: selectHighlightTextFromOpposingEdge_def applyNativeSelection_def Let_def
      teardownOffsetHandleDrag_def split: option.splits prod.splits)

lemma select_invariant:
  assumes "selectHighlightTextFromOpposingEdge br edge st = (r, st1)"
  shows "dragInvariant st1 = dragInvariant st"
  using select_frame [OF assms] by (simp add: dragInvariant_def cong: option.case_cong)

lemma logCall_frame [simp]:
  "activeOffsetHandleDrag (logCall c st) = activeOffsetHandleDrag st"
  "documentOverlays (logCall c st) = documentOverlays st"
  "pointerEventsStyle (logCall c st) = pointerEventsStyle st"
  "documentListeners (logCall c st) = documentListeners st"
  "pointerCaptures (logCall c st) = pointerCaptures st"
  "draggingClass (logCall c st) = draggingClass st"
  "highlights (logCall c st) = highlights st"
  "nativeSelection (logCall c st) = nativeSelection st"
  by (simp_all add: logCall_def)

lemma logCall_invariant [simp]: "dragInvariant (logCall c st) = dragInvariant st"
  by (simp add: dragInvariant_def cong: option.case_cong)

lemma logCall_teardown:
  "teardownOffsetHandleDrag (logCall c st) = logCall c (teardownOffsetHandleDrag st)"
  by (simp add: teardownOffsetHandleDrag_def logCall_def split: option.splits)

text \<open>The state in which \<open>beginOffsetHandleDrag\<close> installs the new session.\<close>

lemma begin_installs:
  assumes sel: "selectHighlightTextFromOpposingEdge br edge (logCall HideHighlightWidgetTooltip st)
            = (Some (target, aNode, aOffset), st1)"
  shows "\<exists>d'. activeOffsetHandleDrag (beginOffsetHandleDrag br handle edge cx cy inp pid st) = Some d'
      \<and> disabledOverlayPointerEvents d'
          = map (\<lambda>ov. (ov, pointerEventsStyle (teardownOffsetHandleDrag st) ov)) (documentOverlays st)
      \<and> hasMoved d' = False \<and> dragHandle d' = handle \<and> dragEdge d' = edge
      \<and> pointerId d' = pid \<and> inputType d' = inp
      \<and> startClientX d' = cx \<and> startClientY d' = cy
      \<and> anchorNode d' = aNode \<and> anchorOffset d' = aOffset \<and> dragTarget d' = target
      \<and> initialSelectionText d'
          = (case nativeSelection st1 of Some s \<Rightarrow> sel_text s | None \<Rightarrow> [])"
    and "documentOverlays (beginOffsetHandleDrag br handle edge cx cy inp pid st) = documentOverlays st"
    and "pointerEventsStyle (beginOffsetHandleDrag br handle edge cx cy inp pid st)
          = (\<lambda>ov. if ov \<in> set (documentOverlays st) then ''none''
                   else pointerEventsStyle (teardownOffsetHandleDrag st) ov)"
    and "documentListeners (beginOffsetHandleDrag br handle edge cx cy inp pid st)
          = documentListeners (teardownOffsetHandleDrag st) \<union> dragListeners"
    and "pointerCaptures (beginOffsetHandleDrag br handle edge cx cy inp pid st)
          = (case pid of
               Some p \<Rightarrow> (if inp = PointerInput \<and> setPointerCaptureSucceeds br handle p
                          then insert (handle, p) (pointerCaptures (teardownOffsetHandleDrag st))
                          else pointerCaptures (teardownOffsetHandleDrag st))
             | None \<Rightarrow> pointerCaptures (teardownOffsetHandleDrag st))"
    and "draggingClass (beginOffsetHandleDrag br handle edge cx cy inp pid st)"
proof -
  note f = select_frame [OF sel]
  have td: "activeOffsetHandleDrag st = None \<Longrightarrow> teardownOffsetHandleDrag st = st"
    by (simp add: teardownOffsetHandleDrag_def)
  have td1: "activeOffsetHandleDrag st1 = None \<Longrightarrow> teardownOffsetHandleDrag st1 = st1"
    by (simp add: teardownOffsetHandleDrag_def)
  define st2 where "st2 = (if activeOffsetHandleDrag st1 \<noteq> None then teardownOffsetHandleDrag st1 else st1)"
  have st2: "st2 = teardownOffsetHandleDrag st1"
    using td1 by (auto simp: st2_def)
  have g: "pointerEventsStyle st2 = pointerEventsStyle (teardownOffsetHandleDrag st)"
      "documentOverlays st2 = documentOverlays st"
      "documentListeners st2 = documentListeners (teardownOffsetHandleDrag st)"
      "pointerCaptures st2 = pointerCaptures (teardownOffsetHandleDrag st)"
      "nativeSelection st2 = nativeSelection st1"
    unfolding st2 select_teardown [OF sel] logCall_teardown
    by (simp_all add: teardown_frame)
  have b: "beginOffsetHandleDrag br handle edge cx cy inp pid st =
     (let overlaysForDrag = documentOverlays st2;
               disabled = map (\<lambda>ov. (ov, pointerEventsStyle st2 ov)) overlaysForDrag;
               st3 = st2\<lparr>pointerEventsStyle :=
                           (\<lambda>ov. if ov \<in> set overlaysForDrag then ''none''
                                 else pointerEventsStyle st2 ov)\<rparr>;
               st4 = st3\<lparr>activeOffsetHandleDrag :=
                           Some \<lparr>anchorNode = aNode, anchorOffset = aOffset, dragTarget = target,
                                 dragEdge = edge, pointerId = pid, inputType = inp,
                                 dragHandle = handle, startClientX = cx,
                                 startClientY = cy, hasMoved = False,
                                 initialSelectionText =
                                   (case nativeSelection st3 of Some s \<Rightarrow> sel_text s | None \<Rightarrow> []),
                                 disabledOverlayPointerEvents = disabled\<rparr>,
                         draggingClass := True\<rparr>;
               st5 = (case pid of
                        Some p \<Rightarrow>
                          (if inp = PointerInput \<and> setPointerCaptureSucceeds br handle p
                           then st4\<lparr>pointerCaptures := insert (handle, p) (pointerCaptures st4)\<rparr>
                           else st4)
                      | None \<Rightarrow> st4)
           in st5\<lparr>documentListeners := documentListeners st5 \<union> dragListeners\<rparr>)"
    by (simp only: beginOffsetHandleDrag_def sel st2_def Let_def prod.case option.case)
  show "\<exists>d'. activeOffsetHandleDrag (beginOffsetHandleDrag br handle edge cx cy inp pid st) = Some d'
      \<and> disabledOverlayPointerEvents d'
          = map (\<lambda>ov. (ov, pointerEventsStyle (teardownOffsetHandleDrag st) ov)) (documentOverlays st)
      \<and> hasMoved d' = False \<and> dragHandle d' = handle \<and> dragEdge d' = edge
      \<and> pointerId d' = pid \<and> inputType d' = inp
      \<and> startClientX d' = cx \<and> startClientY d' = cy
      \<and> anchorNode d' = aNode \<and> anchorOffset d' = aOffset \<and> dragTarget d' = target
      \<and> initialSelectionText d'
          = (case nativeSelection st1 of Some s \<Rightarrow> sel_text s | None \<Rightarrow> [])"
    unfolding b by (simp add: Let_def g split: option.splits)
  show "documentOverlays (beginOffsetHandleDrag br handle edge cx cy inp pid st) = documentOverlays st"
    unfolding b by (simp add: Let_def g split: option.splits)
  show "pointerEventsStyle (beginOffsetHandleDrag br handle edge cx cy inp pid st)
          = (\<lambda>ov. if ov \<in> set (documentOverlays st) then ''none''
                   else pointerEventsStyle (teardownOffsetHandleDrag st) ov)"
    unfolding b by (simp add: Let_def g split: option.splits cong: if_cong)
  show "documentListeners (beginOffsetHandleDrag br handle edge cx cy inp pid st)
          = documentListeners (teardownOffsetHandleDrag st) \<union> dragListeners"
    unfolding b by (simp add: Let_def g split: option.splits)
  show "pointerCaptures (beginOffsetHandleDrag br handle edge cx cy inp pid st)
          = (case pid of
               Some p \<Rightarrow> (if inp = PointerInput \<and> setPointerCaptureSucceeds br handle p
                          then insert (handle, p) (pointerCaptures (teardownOffsetHandleDrag st))
                          else pointerCaptures (teardownOffsetHandleDrag st))
             | None \<Rightarrow> pointerCaptures (teardownOffsetHandleDrag st))"
    unfolding b by (simp add: Let_def g split: option.splits)
  show "draggingClass (beginOffsetHandleDrag br handle edge cx cy inp pid st)"
    unfolding b by (simp add: Let_def g split: option.splits)
qed

lemma begin_not_resolved:
  assumes "selectHighlightTextFromOpposingEdge br edge (logCall HideHighlightWidgetTooltip st)
            = (None, st1)"
  shows "beginOffsetHandleDrag br handle edge cx cy inp pid st = logCall HideHighlightWidgetTooltip st"
  using assms
  by (auto simp: beginOffsetHandleDrag_def Let_def selectHighlightTextFromOpposingEdge_def
      split: option.splits prod.splits)

lemma begin_invariant:
  assumes "dragInvariant st"
  shows "dragInvariant (beginOffsetHandleDrag br handle edge cx cy inp pid st)"
proof (cases "selectHighlightTextFromOpposingEdge br edge (logCall HideHighlightWidgetTooltip st)")
  case (Pair r st1)
  show ?thesis
  proof (cases r)
    case None
    with Pair begin_not_resolved [of br edge st st1] assms show ?thesis by simp
  next
    case (Some t)
    obtain target aNode aOffset where t: "t = (target, aNode, aOffset)" by (cases t)
    note i = begin_installs [OF Pair [unfolded Some t], of handle cx cy inp pid]
    from i(1) obtain d' where d': "activeOffsetHandleDrag (beginOffsetHandleDrag br handle edge cx cy inp pid st) = Some d'"
      "disabledOverlayPointerEvents d'
          = map (\<lambda>ov. (ov, pointerEventsStyle (teardownOffsetHandleDrag st) ov)) (documentOverlays st)"
      "dragHandle d' = handle" "pointerId d' = pid"
      by blast
    have dist: "distinct (documentOverlays st)" using assms by (simp add: dragInvariant_def)
    have m: "map fst (disabledOverlayPointerEvents d') = documentOverlays st"
      unfolding d'(2) by (simp add: comp_def)
    from teardown_idle [OF assms] have idle: "pointerCaptures (teardownOffsetHandleDrag st) = {}"
      by simp
    show ?thesis
      unfolding dragInvariant_def i(2) d'(1) i(4) i(5) idle
      using dist i(6) by (simp add: m d'(3,4) split: option.splits)
  qed
qed

lemma update_invariant:
  assumes "updateSelectedTextHighlightFromSelection br sel st = (ok, st')"
  shows "dragInvariant st' = dragInvariant st"
  using assms
  by (auto simp: updateSelectedTextHighlightFromSelection_def dragInvariant_def Let_def
      split: if_splits option.splits prod.splits)

lemma finalize_invariant:
  assumes "dragInvariant st"
  shows "dragInvariant (finalizeOffsetHandleDrag br cx cy st)"
proof (cases "activeOffsetHandleDrag st")
  case None
  with assms show ?thesis by (simp add: finalizeOffsetHandleDrag_def)
next
  case (Some d)
  define st1 where "st1 = (teardownOffsetHandleDrag st)\<lparr>suppressNextMouseUpHighlight := True\<rparr>"
  have i1: "dragInvariant st1"
    using teardown_invariant [OF assms]
    by (simp add: st1_def dragInvariant_def cong: option.case_cong)
  have u: "dragInvariant (case updateSelectedTextHighlightFromSelection br s st1 of
                       (True, st2) \<Rightarrow>
                         logCall (ScheduleHighlightWidgetOpenFromPoint cx cy)
                           (st2\<lparr>nativeSelection := Some (removeAllRanges s)\<rparr>)
                     | (False, st2) \<Rightarrow> st2)" for s
  proof (cases "updateSelectedTextHighlightFromSelection br s st1")
    case (Pair ok st2)
    from update_invariant [OF Pair] i1 have "dragInvariant st2" by simp
    then have "dragInvariant (st2\<lparr>nativeSelection := Some (removeAllRanges s)\<rparr>)"
      by (simp add: dragInvariant_def cong: option.case_cong)
    with Pair \<open>dragInvariant st2\<close> show ?thesis by (cases ok) simp_all
  qed
  show ?thesis
    unfolding finalizeOffsetHandleDrag_def Some option.case Let_def st1_def [symmetric]
    using i1 u by (simp split: option.splits)
qed

lemma move_invariant:
  assumes "dragInvariant st"
  shows "dragInvariant (handleOffsetHandleDragMove br ev st)"
  using assms
  by (auto simp: handleOffsetHandleDragMove_def dragInvariant_def applyNativeSelection_def Let_def
      split: option.splits)

lemma dispatch_invariant:
  assumes "dragInvariant st"
  shows "dragInvariant (dispatch br st e)"
proof (cases e)
  case (PointerDownOnHandle handle button ev)
  with assms show ?thesis
    by (simp add: dispatch_def handleOffsetHandleDown_def begin_invariant)
next
  case (MouseDownOnHandle handle button ev)
  with assms show ?thesis
    by (simp add: dispatch_def handleOffsetHandleMouseDown_def begin_invariant)
next
  case (PointerMove ev)
  with assms show ?thesis
    by (simp add: dispatch_def move_invariant)
next
  case (MouseMove ev)
  with assms show ?thesis
    by (simp add: dispatch_def move_invariant)
next
  case (PointerUp ev)
  with assms show ?thesis
    by (simp add: dispatch_def handleOffsetHandlePointerUp_def finalize_invariant
        split: option.splits)
next
  case (PointerCancel ev)
  have "dragInvariant ((teardownOffsetHandleDrag st)\<lparr>suppressNextMouseUpHighlight := True\<rparr>)"
    using teardown_invariant [OF assms]
    by (simp add: dragInvariant_def cong: option.case_cong)
  with PointerCancel assms show ?thesis
    by (simp add: dispatch_def handleOffsetHandlePointerCancel_def split: option.splits)
next
  case (MouseUp ev)
  with assms show ?thesis
    by (simp add: dispatch_def handleOffsetHandleMouseUp_def finalize_invariant
        split: option.splits)
next
  case HideOffsetHandles
  have "dragInvariant ((teardownOffsetHandleDrag st)\<lparr>draggingClass := False\<rparr>)"
    using teardown_invariant [OF assms] teardown_clears [of st]
    by (simp add: dragInvariant_def)
  moreover have "activeOffsetHandleDrag st = None \<Longrightarrow> dragInvariant (st\<lparr>draggingClass := False\<rparr>)"
    using assms by (simp add: dragInvariant_def)
  ultimately show ?thesis
    using HideOffsetHandles by (auto simp: dispatch_def hideOffsetHandles_def Let_def)
qed

lemma run_invariant:
  "dragInvariant st \<Longrightarrow> dragInvariant (foldl (dispatch br) st evs)"
  by (induction evs arbitrary: st) (simp_all add: dispatch_invariant)

lemma select_fst_cong:
  assumes "highlights st = highlights st'"
    and "selectedHighlightId st = selectedHighlightId st'"
    and "selectedHighlightIndex st = selectedHighlightIndex st'"
  shows "fst (selectHighlightTextFromOpposingEdge br edge st)
       = fst (selectHighlightTextFromOpposingEdge br edge st')"
proof -
  have "resolveSelectedTextHighlight br st = resolveSelectedTextHighlight br st'"
    unfolding resolveSelectedTextHighlight_def assms by (rule refl)
  then show ?thesis
    by (simp add: selectHighlightTextFromOpposingEdge_def Let_def
        split: option.splits prod.splits)
qed

lemma begin_frame:
  "highlights (beginOffsetHandleDrag br handle edge cx cy inp pid st) = highlights st
   \<and> selectedHighlightId (beginOffsetHandleDrag br handle edge cx cy inp pid st)
       = selectedHighlightId st
   \<and> selectedHighlightIndex (beginOffsetHandleDrag br handle edge cx cy inp pid st)
       = selectedHighlightIndex st"
proof (cases "selectHighlightTextFromOpposingEdge br edge (logCall HideHighlightWidgetTooltip st)")
  case (Pair r st1)
  have f: "highlights st1 = highlights st" "selectedHighlightId st1 = selectedHighlightId st"
    "selectedHighlightIndex st1 = selectedHighlightIndex st"
    using Pair
    by (auto simp: selectHighlightTextFromOpposingEdge_def applyNativeSelection_def Let_def
        logCall_def split: option.splits prod.splits)
  show ?thesis
  proof (cases r)
    case None
    with Pair begin_not_resolved [of br edge st st1] show ?thesis
      by (simp add: logCall_def)
  next
    case (Some t)
    obtain target aNode aOffset where t: "t = (target, aNode, aOffset)" by (cases t)
    show ?thesis
      using f
      by (simp add: beginOffsetHandleDrag_def Pair Some t Let_def teardown_frame
          split: option.splits)
  qed
qed

lemma example_resolve:
  "resolveSelectedTextHighlight exampleBrowser exampleWorld
     = Some (maxwellHighlight, maxwellParagraph)"
  by (simp add: resolveSelectedTextHighlight_def exampleWorld_def exampleBrowser_def
      maxwellHighlight_def truthy_def Let_def)

lemma example_decode:
  "decodeTextHighlightOffsets maxwellParagraph 26 31
     = (Some \<lparr>node = TextRef 0, offset = 6\<rparr>, Some \<lparr>node = TextRef 1, offset = 5\<rparr>)"
  by (simp add: maxwellParagraph_def offset_decoding_eval)

lemma example_select:
  "fst (selectHighlightTextFromOpposingEdge exampleBrowser edge exampleWorld)
     = Some (maxwellParagraph,
             node (if edge = EdgeStart then \<lparr>node = TextRef 1, offset = 5\<rparr>
                   else \<lparr>node = TextRef 0, offset = 6\<rparr>),
             offset (if edge = EdgeStart then \<lparr>node = TextRef 1, offset = 5\<rparr>
                     else \<lparr>node = TextRef 0, offset = 6\<rparr>))"
proof -
  have h: "startOffset maxwellHighlight = 26" "endOffset maxwellHighlight = 31"
    by (simp_all add: maxwellHighlight_def)
  show ?thesis
    by (simp add: selectHighlightTextFromOpposingEdge_def example_resolve h example_decode Let_def)
qed

lemma resolve_cong:
  assumes "highlights st = highlights st'"
    and "selectedHighlightId st = selectedHighlightId st'"
    and "selectedHighlightIndex st = selectedHighlightIndex st'"
  shows "resolveSelectedTextHighlight br st = resolveSelectedTextHighlight br st'"
  unfolding resolveSelectedTextHighlight_def assms by (rule refl)

lemma resolve_logCall:
  "resolveSelectedTextHighlight br (logCall c st) = resolveSelectedTextHighlight br st"
  by (rule resolve_cong) (simp_all add: logCall_def)

lemma example_select_end:
  "selectHighlightTextFromOpposingEdge exampleBrowser EdgeEnd
       (logCall HideHighlightWidgetTooltip exampleWorld)
     = (Some (maxwellParagraph, TextRef 0, 6),
        (logCall HideHighlightWidgetTooltip exampleWorld)
          \<lparr>nativeSelection := Some (spanSelection \<lparr>node = TextRef 0, offset = 6\<rparr>
                                                   \<lparr>node = TextRef 1, offset = 5\<rparr>)\<rparr>)"
proof -
  have h: "startOffset maxwellHighlight = 26" "endOffset maxwellHighlight = 31"
    by (simp_all add: maxwellHighlight_def)
  have n: "nativeSelection exampleWorld = Some noSelection"
    by (simp add: exampleWorld_def)
  have s: "selectionFor exampleBrowser = spanSelection"
    by (simp add: exampleBrowser_def)
  show ?thesis
    by (simp add: selectHighlightTextFromOpposingEdge_def resolve_logCall example_resolve h
        example_decode Let_def applyNativeSelection_def n s)
qed

lemma armedWorld_fields:
  "activeOffsetHandleDrag armedWorld = Some armedSession"
  "nativeSelection armedWorld
     = Some (spanSelection \<lparr>node = TextRef 0, offset = 6\<rparr> \<lparr>node = TextRef 1, offset = 5\<rparr>)"
  "calls armedWorld = [HideHighlightWidgetTooltip]"
  "highlights armedWorld = [maxwellHighlight]"
  "documentOverlays armedWorld = [0, 1]"
  "pointerCaptures armedWorld = {(EndHandle, 1)}"
  "documentListeners armedWorld = dragListeners"
  "pointerEventsStyle armedWorld 0 = ''none''"
  "pointerEventsStyle armedWorld 1 = ''none''"
proof -
  have e: "activeOffsetHandleDrag exampleWorld = None" "documentOverlays exampleWorld = [0, 1]"
    "pointerEventsStyle exampleWorld = (\<lambda>ov. if ov = 0 then ''auto'' else [])"
    "calls exampleWorld = []" "highlights exampleWorld = [maxwellHighlight]"
    "pointerCaptures exampleWorld = {}" "documentListeners exampleWorld = {}"
    by (simp_all add: exampleWorld_def)
  have c: "setPointerCaptureSucceeds exampleBrowser EndHandle 1"
    by (simp add: exampleBrowser_def)
  have t: "sel_text (spanSelection a f) = ''Clerk''" for a f
    by (simp add: spanSelection_def)
  show "activeOffsetHandleDrag armedWorld = Some armedSession"
    unfolding armedWorld_def beginOffsetHandleDrag_def Let_def example_select_end
    by (simp add: Let_def e c t armedSession_def)
  show "nativeSelection armedWorld
     = Some (spanSelection \<lparr>node = TextRef 0, offset = 6\<rparr> \<lparr>node = TextRef 1, offset = 5\<rparr>)"
    unfolding armedWorld_def beginOffsetHandleDrag_def Let_def example_select_end
    by (simp add: Let_def e c)
  show "calls armedWorld = [HideHighlightWidgetTooltip]"
    unfolding armedWorld_def beginOffsetHandleDrag_def Let_def example_select_end
    by (simp add: Let_def e c logCall_def)
  show "highlights armedWorld = [maxwellHighlight]"
    unfolding armedWorld_def beginOffsetHandleDrag_def Let_def example_select_end
    by (simp add: Let_def e c)
  show "documentOverlays armedWorld = [0, 1]"
    unfolding armedWorld_def beginOffsetHandleDrag_def Let_def example_select_end
    by (simp add: Let_def e c)
  show "pointerCaptures armedWorld = {(EndHandle, 1)}"
    unfolding armedWorld_def beginOffsetHandleDrag_def Let_def example_select_end
    by (simp add: Let_def e c)
  show "documentListeners armedWorld = dragListeners"
    unfolding armedWorld_def beginOffsetHandleDrag_def Let_def example_select_end
    by (simp add: Let_def e c)
  show "pointerEventsStyle armedWorld 0 = ''none''"
    unfolding armedWorld_def beginOffsetHandleDrag_def Let_def example_select_end
    by (simp add: Let_def e c)
  show "pointerEventsStyle armedWorld 1 = ''none''"
    unfolding armedWorld_def beginOffsetHandleDrag_def Let_def example_select_end
    by (simp add: Let_def e c)
qed

text \<open>
  C3. There is one slot for a drag session, and in every state the controller reaches
  from an idle one the document holds nothing of a session outside it: with the slot
  empty no drag listener, no pointer capture and no drag class remains, and with a session
  in the slot the only pointer capture is that session's. A teardown restores the
  pointer-events value of every overlay the session suspended, removes all drag listeners,
  releases the session's pointer capture and empties the slot. Arming while a session is
  active, when the selected text highlight resolves, installs the new session on the
  torn-down state: the values the new session records for the overlays are those the
  teardown restored, the listeners are the torn-down listeners plus the drag listeners,
  and the only capture added is the new one. When the highlight does not resolve, nothing
  is installed, and a mouse press while a session is active is ignored.
\<close>

theorem C3_single_drag_session:
  "(dragInvariant st0 \<longrightarrow> dragInvariant (foldl (dispatch br) st0 evs))
   \<and> (activeOffsetHandleDrag st = Some d \<longrightarrow>
        activeOffsetHandleDrag (teardownOffsetHandleDrag st) = None
        \<and> (distinct (map fst (disabledOverlayPointerEvents d)) \<longrightarrow>
             (\<forall>ov v. (ov, v) \<in> set (disabledOverlayPointerEvents d) \<longrightarrow>
                pointerEventsStyle (teardownOffsetHandleDrag st) ov = v))
        \<and> documentListeners (teardownOffsetHandleDrag st) \<inter> dragListeners = {}
        \<and> (\<forall>p. pointerId d = Some p \<longrightarrow>
               (dragHandle d, p) \<notin> pointerCaptures (teardownOffsetHandleDrag st))
        \<and> \<not> draggingClass (teardownOffsetHandleDrag st))
   \<and> (activeOffsetHandleDrag st = Some d
        \<and> fst (selectHighlightTextFromOpposingEdge br edge
                 (logCall HideHighlightWidgetTooltip st)) \<noteq> None \<longrightarrow>
        (\<exists>d'. activeOffsetHandleDrag (beginOffsetHandleDrag br handle edge cx cy inp pid st) = Some d'
           \<and> disabledOverlayPointerEvents d'
               = map (\<lambda>ov. (ov, pointerEventsStyle (teardownOffsetHandleDrag st) ov))
                   (documentOverlays st)
           \<and> \<not> hasMoved d' \<and> dragHandle d' = handle \<and> dragEdge d' = edge
           \<and> pointerId d' = pid \<and> inputType d' = inp)
        \<and> pointerEventsStyle (beginOffsetHandleDrag br handle edge cx cy inp pid st)
            = (\<lambda>ov. if ov \<in> set (documentOverlays st) then ''none''
                     else pointerEventsStyle (teardownOffsetHandleDrag st) ov)
        \<and> documentListeners (beginOffsetHandleDrag br handle edge cx cy inp pid st)
            = documentListeners (teardownOffsetHandleDrag st) \<union> dragListeners
        \<and> pointerCaptures (beginOffsetHandleDrag br handle edge cx cy inp pid st)
            = (case pid of
                 Some p \<Rightarrow> (if inp = PointerInput \<and> setPointerCaptureSucceeds br handle p
                            then insert (handle, p) (pointerCaptures (teardownOffsetHandleDrag st))
                            else pointerCaptures (teardownOffsetHandleDrag st))
               | None \<Rightarrow> pointerCaptures (teardownOffsetHandleDrag st)))
   \<and> (fst (selectHighlightTextFromOpposingEdge br edge
              (logCall HideHighlightWidgetTooltip st)) = None \<longrightarrow>
        beginOffsetHandleDrag br handle edge cx cy inp pid st
          = logCall HideHighlightWidgetTooltip st)
   \<and> (activeOffsetHandleDrag st \<noteq> None \<longrightarrow>
        handleOffsetHandleMouseDown br handle button ev st = st)"
proof (intro conjI impI)
  show "dragInvariant (foldl (dispatch br) st0 evs)" if "dragInvariant st0"
    using that by (rule run_invariant)
next
  assume a: "activeOffsetHandleDrag st = Some d"
  show "activeOffsetHandleDrag (teardownOffsetHandleDrag st) = None"
    by (rule teardown_post(1) [OF a])
  show "\<forall>ov v. (ov, v) \<in> set (disabledOverlayPointerEvents d) \<longrightarrow>
          pointerEventsStyle (teardownOffsetHandleDrag st) ov = v"
    if "distinct (map fst (disabledOverlayPointerEvents d))"
    using teardown_post(2) [OF a that] by blast
  show "documentListeners (teardownOffsetHandleDrag st) \<inter> dragListeners = {}"
    by (rule teardown_post(3) [OF a])
  show "\<forall>p. pointerId d = Some p \<longrightarrow>
          (dragHandle d, p) \<notin> pointerCaptures (teardownOffsetHandleDrag st)"
    using teardown_post(4) [OF a] by blast
  show "\<not> draggingClass (teardownOffsetHandleDrag st)"
    by (rule teardown_post(5) [OF a])
next
  assume "activeOffsetHandleDrag st = Some d
        \<and> fst (selectHighlightTextFromOpposingEdge br edge
                 (logCall HideHighlightWidgetTooltip st)) \<noteq> None"
  then obtain target aNode aOffset st1 where
    sel: "selectHighlightTextFromOpposingEdge br edge (logCall HideHighlightWidgetTooltip st)
            = (Some (target, aNode, aOffset), st1)"
    by (cases "selectHighlightTextFromOpposingEdge br edge (logCall HideHighlightWidgetTooltip st)")
       auto
  note i = begin_installs [OF sel, of handle cx cy inp pid]
  from i(1) show "\<exists>d'. activeOffsetHandleDrag (beginOffsetHandleDrag br handle edge cx cy inp pid st) = Some d'
           \<and> disabledOverlayPointerEvents d'
               = map (\<lambda>ov. (ov, pointerEventsStyle (teardownOffsetHandleDrag st) ov))
                   (documentOverlays st)
           \<and> \<not> hasMoved d' \<and> dragHandle d' = handle \<and> dragEdge d' = edge
           \<and> pointerId d' = pid \<and> inputType d' = inp"
    by auto
  from i(3) show "pointerEventsStyle (beginOffsetHandleDrag br handle edge cx cy inp pid st)
            = (\<lambda>ov. if ov \<in> set (documentOverlays st) then ''none''
                     else pointerEventsStyle (teardownOffsetHandleDrag st) ov)" .
  from i(4) show "documentListeners (beginOffsetHandleDrag br handle edge cx cy inp pid st)
            = documentListeners (teardownOffsetHandleDrag st) \<union> dragListeners" .
  from i(5) show "pointerCaptures (beginOffsetHandleDrag br handle edge cx cy inp pid st)
            = (case pid of
                 Some p \<Rightarrow> (if inp = PointerInput \<and> setPointerCaptureSucceeds br handle p
                            then insert (handle, p) (pointerCaptures (teardownOffsetHandleDrag st))
                            else pointerCaptures (teardownOffsetHandleDrag st))
               | None \<Rightarrow> pointerCaptures (teardownOffsetHandleDrag st))" .
next
  assume n: "fst (selectHighlightTextFromOpposingEdge br edge
              (logCall HideHighlightWidgetTooltip st)) = None"
  then obtain st1 where
    "selectHighlightTextFromOpposingEdge br edge (logCall HideHighlightWidgetTooltip st)
            = (None, st1)"
    by (cases "selectHighlightTextFromOpposingEdge br edge (logCall HideHighlightWidgetTooltip st)")
       auto
  then show "beginOffsetHandleDrag br handle edge cx cy inp pid st
          = logCall HideHighlightWidgetTooltip st"
    by (rule begin_not_resolved)
next
  assume "activeOffsetHandleDrag st \<noteq> None"
  then show "handleOffsetHandleMouseDown br handle button ev st = st"
    by (simp add: handleOffsetHandleMouseDown_def)
qed

lemma armedSession_fields:
  "hasMoved armedSession = False" "initialSelectionText armedSession = ''Clerk''"
  "startClientX armedSession = 300" "startClientY armedSession = 120"
  "pointerId armedSession = Some 1" "dragHandle armedSession = EndHandle"
  "disabledOverlayPointerEvents armedSession = [(0, ''auto''), (1, [])]"
  by (simp_all add: armedSession_def)

theorem C4_unchanged_drag_not_persisted_witness:
  "calls (finalizeOffsetHandleDrag exampleBrowser 300 120 armedWorld) = [HideHighlightWidgetTooltip]
   \<and> highlights (finalizeOffsetHandleDrag exampleBrowser 300 120 armedWorld) = [maxwellHighlight]
   \<and> activeOffsetHandleDrag (finalizeOffsetHandleDrag exampleBrowser 300 120 armedWorld) = None
   \<and> calls (handleOffsetHandlePointerUp exampleBrowser (pressAt 1 301 121) armedWorld)
       = [HideHighlightWidgetTooltip]
   \<and> activeOffsetHandleDrag (handleOffsetHandleDragMove exampleBrowser (pressAt 1 301 121) armedWorld)
       = Some armedSession"
proof -
  have m: "\<not> hasMoved armedSession"
    by (simp add: armedSession_fields)
  have t: "(case nativeSelection armedWorld of Some s \<Rightarrow> sel_text s | None \<Rightarrow> [])
      = initialSelectionText armedSession"
    by (simp add: armedWorld_fields armedSession_fields spanSelection_def)
  have w: "\<bar>ev_clientX (pressAt 1 301 121) - startClientX armedSession\<bar> \<le> OFFSET_HANDLE_DRAG_THRESHOLD_PX
      \<and> \<bar>ev_clientY (pressAt 1 301 121) - startClientY armedSession\<bar> \<le> OFFSET_HANDLE_DRAG_THRESHOLD_PX"
    by (simp add: pressAt_def armedSession_fields OFFSET_HANDLE_DRAG_THRESHOLD_PX_def)
  from C4_unchanged_drag_not_persisted [OF armedWorld_fields(1) m t,
      of exampleBrowser 300 120 "pressAt 1 301 121"] w
  have a: "calls (finalizeOffsetHandleDrag exampleBrowser 300 120 armedWorld) = calls armedWorld"
    "highlights (finalizeOffsetHandleDrag exampleBrowser 300 120 armedWorld) = highlights armedWorld"
    "activeOffsetHandleDrag (finalizeOffsetHandleDrag exampleBrowser 300 120 armedWorld) = None"
    "calls (handleOffsetHandlePointerUp exampleBrowser (pressAt 1 301 121) armedWorld)
       = calls armedWorld"
    "activeOffsetHandleDrag (handleOffsetHandleDragMove exampleBrowser (pressAt 1 301 121) armedWorld)
       = Some armedSession"
    by blast+
  show ?thesis
    unfolding a by (simp add: armedWorld_fields)
qed

lemma example_raw_offsets:
  "getLegacyTextOffset maxwellParagraph (TextRef 2) 8 = 39"
  "getLegacyTextOffset maxwellParagraph (TextRef 0) 6 = 26"
  by (simp_all add: getLegacyTextOffset_def walkFromCurrentNode_def maxwellParagraph_def
      textContent_def isTextNode_def)

lemma example_commit:
  "fst (updateSelectedTextHighlightFromSelection exampleBrowser reversedSelection exampleWorld)"
proof -
  have r: "sel_rangeCount reversedSelection = 1" "\<not> sel_isCollapsed reversedSelection"
    "sel_startContainer reversedSelection = TextRef 2" "sel_startOffset reversedSelection = 8"
    "sel_endContainer reversedSelection = TextRef 0" "sel_endOffset reversedSelection = 6"
    by (simp_all add: reversedSelection_def)
  show ?thesis
    by (simp add: updateSelectedTextHighlightFromSelection_def example_resolve r
        example_raw_offsets Let_def)
qed

theorem C5_commit_orders_offsets_witness:
  "fst (updateSelectedTextHighlightFromSelection exampleBrowser reversedSelection exampleWorld)
   \<and> getLegacyTextOffset maxwellParagraph (sel_startContainer reversedSelection)
         (sel_startOffset reversedSelection) = 39
   \<and> getLegacyTextOffset maxwellParagraph (sel_endContainer reversedSelection)
         (sel_endOffset reversedSelection) = 26
   \<and> calls (snd (updateSelectedTextHighlightFromSelection exampleBrowser reversedSelection
                   exampleWorld))
       = [UpdateHighlights [maxwellHighlight\<lparr>startOffset := 26, endOffset := 39,
                                              content := ''Clerk Maxwell''\<rparr>],
          SortHighlights, ApplyHighlights, SaveHighlights, UpdateHighlighterMenu]
   \<and> highlights (snd (updateSelectedTextHighlightFromSelection exampleBrowser reversedSelection
                        exampleWorld))
       = [maxwellHighlight\<lparr>startOffset := 26, endOffset := 39, content := ''Clerk Maxwell''\<rparr>]"
proof -
  have e: "updateSelectedTextHighlightFromSelection exampleBrowser reversedSelection exampleWorld
      = (True, snd (updateSelectedTextHighlightFromSelection exampleBrowser reversedSelection
                       exampleWorld))"
    using example_commit by (simp add: prod_eq_iff)
  have r: "sel_startContainer reversedSelection = TextRef 2" "sel_startOffset reversedSelection = 8"
    "sel_endContainer reversedSelection = TextRef 0" "sel_endOffset reversedSelection = 6"
    "sel_text reversedSelection = ''Clerk Maxwell''"
    by (simp_all add: reversedSelection_def)
  have w: "calls exampleWorld = []" "highlights exampleWorld = [maxwellHighlight]"
    by (simp_all add: exampleWorld_def)
  have sh: "sortedHighlights exampleBrowser hs = hs" for hs
    by (simp add: exampleBrowser_def)
  have t: "(truthy (selectedHighlightId exampleWorld)
           \<and> (\<exists>x\<in>set (highlights exampleWorld). Some (hl_id x) = selectedHighlightId exampleWorld))
         \<or> (\<exists>k. selectedHighlightIndex exampleWorld = Some (natToString k))"
    by (simp add: exampleWorld_def maxwellHighlight_def truthy_def)
  from C5_commit_orders_offsets [OF e]
  obtain h target mapped rawStart rawEnd where
    c: "resolveSelectedTextHighlight exampleBrowser exampleWorld = Some (h, target)"
      "rawStart = getLegacyTextOffset target (sel_startContainer reversedSelection)
                    (sel_startOffset reversedSelection)"
      "rawEnd = getLegacyTextOffset target (sel_endContainer reversedSelection)
                    (sel_endOffset reversedSelection)"
      "calls (snd (updateSelectedTextHighlightFromSelection exampleBrowser reversedSelection
                       exampleWorld))
         = calls exampleWorld @ [UpdateHighlights mapped, SortHighlights, ApplyHighlights,
                               SaveHighlights, UpdateHighlighterMenu]"
      "highlights (snd (updateSelectedTextHighlightFromSelection exampleBrowser reversedSelection
                       exampleWorld))
         = sortedHighlights exampleBrowser mapped"
      "length mapped = length (highlights exampleWorld)"
      "(truthy (selectedHighlightId exampleWorld)
           \<and> (\<exists>x\<in>set (highlights exampleWorld). Some (hl_id x) = selectedHighlightId exampleWorld))
         \<or> (\<exists>k. selectedHighlightIndex exampleWorld = Some (natToString k))
        \<longrightarrow> (\<exists>i<length mapped.
               highlights exampleWorld ! i = h
             \<and> mapped ! i = h\<lparr>startOffset := min rawStart rawEnd,
                                  endOffset := max rawStart rawEnd,
                                  content := sel_text reversedSelection\<rparr>
             \<and> startOffset (mapped ! i) < endOffset (mapped ! i)
             \<and> (rawEnd < rawStart \<longrightarrow>
                   startOffset (mapped ! i) = rawEnd \<and> endOffset (mapped ! i) = rawStart)
             \<and> (rawStart < rawEnd \<longrightarrow>
                   startOffset (mapped ! i) = rawStart \<and> endOffset (mapped ! i) = rawEnd))"
    by (elim exE conjE)
  from c(1) have tg: "h = maxwellHighlight" "target = maxwellParagraph"
    by (simp_all add: example_resolve)
  have raw: "rawStart = 39" "rawEnd = 26"
    using c(2,3) by (simp_all add: tg r example_raw_offsets)
  from c(6) have len: "length mapped = 1" by (simp add: w)
  from c(7) t obtain i where i: "i < length mapped"
      "mapped ! i = h\<lparr>startOffset := min rawStart rawEnd, endOffset := max rawStart rawEnd,
                        content := sel_text reversedSelection\<rparr>"
    by blast
  from i(1) len have i0: "i = 0" by simp
  have m0: "mapped ! 0 = maxwellHighlight\<lparr>startOffset := 26, endOffset := 39,
                                            content := ''Clerk Maxwell''\<rparr>"
    using i(2) unfolding i0 tg raw r by simp
  have m: "mapped = [maxwellHighlight\<lparr>startOffset := 26, endOffset := 39,
                                        content := ''Clerk Maxwell''\<rparr>]"
    using len m0 by (cases mapped) simp_all
  have k: "calls (snd (updateSelectedTextHighlightFromSelection exampleBrowser reversedSelection
                   exampleWorld))
       = [UpdateHighlights [maxwellHighlight\<lparr>startOffset := 26, endOffset := 39,
                                              content := ''Clerk Maxwell''\<rparr>],
          SortHighlights, ApplyHighlights, SaveHighlights, UpdateHighlighterMenu]"
    unfolding c(4) w m by simp
  have hh: "highlights (snd (updateSelectedTextHighlightFromSelection exampleBrowser reversedSelection
                        exampleWorld))
       = [maxwellHighlight\<lparr>startOffset := 26, endOffset := 39, content := ''Clerk Maxwell''\<rparr>]"
    unfolding c(5) sh m by (rule refl)
  have ro: "getLegacyTextOffset maxwellParagraph (sel_startContainer reversedSelection)
         (sel_startOffset reversedSelection) = 39"
    "getLegacyTextOffset maxwellParagraph (sel_endContainer reversedSelection)
         (sel_endOffset reversedSelection) = 26"
    unfolding r by (rule example_raw_offsets)+
  from example_commit ro k hh show ?thesis
    by (intro conjI)
qed

theorem C3_single_drag_session_witness:
  "dragInvariant
     (foldl (dispatch exampleBrowser) exampleWorld
        [PointerDownOnHandle EndHandle 0 (pressAt 1 300 120),
         PointerDownOnHandle StartHandle 0 (pressAt 2 10 120)])
   \<and> activeOffsetHandleDrag (teardownOffsetHandleDrag armedWorld) = None
   \<and> pointerEventsStyle (teardownOffsetHandleDrag armedWorld) 0 = ''auto''
   \<and> pointerEventsStyle (teardownOffsetHandleDrag armedWorld) 1 = []
   \<and> (EndHandle, 1) \<notin> pointerCaptures (teardownOffsetHandleDrag armedWorld)
   \<and> (\<exists>d'. activeOffsetHandleDrag
              (beginOffsetHandleDrag exampleBrowser StartHandle EdgeStart 10 120 PointerInput
                 (Some 2) armedWorld) = Some d'
          \<and> disabledOverlayPointerEvents d' = [(0, ''auto''), (1, [])]
          \<and> dragHandle d' = StartHandle \<and> pointerId d' = Some 2)
   \<and> handleOffsetHandleMouseDown exampleBrowser StartHandle 0 (pressAt 2 10 120) armedWorld
       = armedWorld"
proof -
  have inv0: "dragInvariant exampleWorld"
    by (simp add: dragInvariant_def exampleWorld_def)
  have dist: "distinct (map fst (disabledOverlayPointerEvents armedSession))"
    by (simp add: armedSession_fields)
  have sel: "fst (selectHighlightTextFromOpposingEdge exampleBrowser EdgeStart
                 (logCall HideHighlightWidgetTooltip armedWorld)) \<noteq> None"
  proof -
    have "fst (selectHighlightTextFromOpposingEdge exampleBrowser EdgeStart
                 (logCall HideHighlightWidgetTooltip armedWorld))
        = fst (selectHighlightTextFromOpposingEdge exampleBrowser EdgeStart exampleWorld)"
      using begin_frame [of exampleBrowser EndHandle EdgeEnd 300 120 PointerInput "Some 1"
          exampleWorld]
      by (intro select_fst_cong) (simp_all add: armedWorld_def logCall_def)
    then show ?thesis by (simp add: example_select)
  qed
  have act: "activeOffsetHandleDrag armedWorld \<noteq> None"
    by (simp add: armedWorld_fields)
  note t = C3_single_drag_session [of exampleWorld exampleBrowser
      "[PointerDownOnHandle EndHandle 0 (pressAt 1 300 120),
        PointerDownOnHandle StartHandle 0 (pressAt 2 10 120)]"
      armedWorld armedSession EdgeStart StartHandle 10 120 PointerInput "Some 2" 0
      "pressAt 2 10 120"]
  from t inv0 have 1: "dragInvariant
     (foldl (dispatch exampleBrowser) exampleWorld
        [PointerDownOnHandle EndHandle 0 (pressAt 1 300 120),
         PointerDownOnHandle StartHandle 0 (pressAt 2 10 120)])"
    by blast
  from t armedWorld_fields(1) dist have 2:
    "activeOffsetHandleDrag (teardownOffsetHandleDrag armedWorld) = None"
    "\<forall>ov v. (ov, v) \<in> set (disabledOverlayPointerEvents armedSession) \<longrightarrow>
                pointerEventsStyle (teardownOffsetHandleDrag armedWorld) ov = v"
    "\<forall>p. pointerId armedSession = Some p \<longrightarrow>
               (dragHandle armedSession, p) \<notin> pointerCaptures (teardownOffsetHandleDrag armedWorld)"
    by blast+
  from 2(2) have 3: "pointerEventsStyle (teardownOffsetHandleDrag armedWorld) 0 = ''auto''"
    "pointerEventsStyle (teardownOffsetHandleDrag armedWorld) 1 = []"
    by (simp_all add: armedSession_fields)
  from 2(3) have 4: "(EndHandle, 1) \<notin> pointerCaptures (teardownOffsetHandleDrag armedWorld)"
    by (simp add: armedSession_fields)
  from t armedWorld_fields(1) sel obtain d' where
    5: "activeOffsetHandleDrag
              (beginOffsetHandleDrag exampleBrowser StartHandle EdgeStart 10 120 PointerInput
                 (Some 2) armedWorld) = Some d'"
       "disabledOverlayPointerEvents d'
               = map (\<lambda>ov. (ov, pointerEventsStyle (teardownOffsetHandleDrag armedWorld) ov))
                   (documentOverlays armedWorld)"
       "dragHandle d' = StartHandle" "pointerId d' = Some 2"
    by blast
  from 5(2) 3 have 6: "disabledOverlayPointerEvents d' = [(0, ''auto''), (1, [])]"
    by (simp add: armedWorld_fields)
  from t act have 7:
    "handleOffsetHandleMouseDown exampleBrowser StartHandle 0 (pressAt 2 10 120) armedWorld
       = armedWorld"
    by blast
  from 1 2(1) 3 4 5(1,3,4) 6 7 show ?thesis by blast
qed

subsection \<open>Annotation browser snapshot\<close>

lemma normalizeHighlightCreatedAt_finite:
  "\<exists>r. normalizeHighlightCreatedAt now c i = Finite r"
proof -
  have v: "\<exists>r. n = Finite r" if "Number_isFinite n" for n
    using that by (cases n) (simp_all add: Number_isFinite_def)
  have p: "\<exists>r. n = Finite r" if "parseHighlightIdTimestamp i = Some n" for n
    using that v
    by (auto simp: parseHighlightIdTimestamp_def Let_def split: jsvalue.splits if_splits)
  show ?thesis
  proof (cases "isValidHighlightTimestamp c")
    case True
    then obtain n where c: "c = JNumber n" and f: "Number_isFinite n" "greaterThanZero n"
      by (auto simp: isValidHighlightTimestamp_def split: jsvalue.splits)
    with v [OF f(1)] show ?thesis
      by (auto simp: normalizeHighlightCreatedAt_def isValidHighlightTimestamp_def)
  next
    case False
    show ?thesis
    proof (cases "parseHighlightIdTimestamp i")
      case None
      with False show ?thesis by (simp add: normalizeHighlightCreatedAt_def)
    next
      case (Some n)
      from p [OF Some] obtain r where "n = Finite r" by blast
      with False Some show ?thesis
        by (auto simp: normalizeHighlightCreatedAt_def)
    qed
  qed
qed

lemma collectTimestamps_finite:
  "\<exists>rs. fst (collectTimestamps pf hs tick) = map Finite rs
        \<and> length rs = length (filter isRecord hs)"
proof (induction hs arbitrary: tick)
  case Nil
  show ?case by simp
next
  case (Cons h hs)
  show ?case
  proof (cases "isRecord h")
    case False
    with Cons.IH [of tick] show ?thesis
      by (simp add: getHighlightCreatedAt_def)
  next
    case True
    from normalizeHighlightCreatedAt_finite
    obtain r where r: "normalizeHighlightCreatedAt (dateNow pf tick) (getProp h ''createdAt'')
        (getProp h ''id'') = Finite r"
      by blast
    from Cons.IH [of "Suc tick"] obtain rs where
      rs: "fst (collectTimestamps pf hs (Suc tick)) = map Finite rs"
        "length rs = length (filter isRecord hs)"
      by blast
    have "fst (collectTimestamps pf (h # hs) tick) = map Finite (r # rs)"
      using True r rs(1)
      by (auto simp: getHighlightCreatedAt_def split: prod.splits)
    with rs(2) True show ?thesis
      by (intro exI [of _ "r # rs"]) simp
  qed
qed

lemma foldl_js_min2:
  "foldl js_min2 (Finite a) (map Finite rs) = Finite (fold min rs a)"
  by (induction rs arbitrary: a) (simp_all add: js_min2_def js_le_def min_def)

lemma foldl_js_max2:
  "foldl js_max2 (Finite a) (map Finite rs) = Finite (fold max rs a)"
  by (induction rs arbitrary: a) (simp_all add: js_max2_def js_le_def max_def)

lemma fold_min_le: "fold min rs (a::real) \<le> a"
proof (induction rs arbitrary: a)
  case Nil
  show ?case by simp
next
  case (Cons r rs)
  have "fold min rs (min r a) \<le> min r a" by (rule Cons.IH)
  then show ?case by simp
qed

lemma fold_max_ge: "(a::real) \<le> fold max rs a"
proof (induction rs arbitrary: a)
  case Nil
  show ?case by simp
next
  case (Cons r rs)
  have "max r a \<le> fold max rs (max r a)" by (rule Cons.IH)
  then show ?case by simp
qed

lemma Math_min_le_max:
  assumes "rs \<noteq> []"
  shows "js_le (Math_min (map Finite rs)) (Math_max (map Finite rs))"
proof -
  from assms obtain r rs' where rs: "rs = r # rs'" by (cases rs) auto
  have "Math_min (map Finite rs) = Finite (fold min rs' r)"
    by (simp add: rs Math_min_def js_min2_def js_le_def foldl_js_min2)
  moreover have "Math_max (map Finite rs) = Finite (fold max rs' r)"
    by (simp add: rs Math_max_def js_max2_def js_le_def foldl_js_max2)
  moreover have "fold min rs' r \<le> fold max rs' r"
    using fold_min_le [of rs' r] fold_max_ge [of r rs'] by simp
  ultimately show ?thesis by (simp add: js_le_def)
qed

lemma mset_insertSorted: "mset (insertSorted cmp a bs) = add_mset a (mset bs)"
  by (induction bs) simp_all

lemma mset_Array_sort: "mset (Array_sort cmp xs) = mset xs"
  by (induction xs) (simp_all add: Array_sort_def mset_insertSorted)

lemma collectPages_acc:
  "collectPages pf es pages totalCount tick
     = (pages @ fst (collectPages pf es [] 0 tick),
        totalCount + snd (collectPages pf es [] 0 tick))"
proof (induction es arbitrary: pages totalCount tick)
  case Nil
  show ?case by simp
next
  case (Cons e es)
  obtain storageKey rawEntry where e: "e = (storageKey, rawEntry)" by (cases e)
  note ih = Cons.IH
  show ?case
  proof (cases "isRecord rawEntry")
    case False
    with ih [of pages totalCount tick] show ?thesis by (simp add: e)
  next
    case True
    show ?thesis
    proof (cases "parseUrl pf (entryUrl storageKey rawEntry)")
      case None
      with True ih [of pages totalCount tick] show ?thesis by (simp add: e)
    next
      case (Some parsedUrl)
      show ?thesis
      proof (cases "entryHighlights rawEntry = []")
        case True
        with \<open>isRecord rawEntry\<close> Some ih [of pages totalCount tick] show ?thesis
          by (simp add: e)
      next
        case False
        obtain ts tick' where c: "collectTimestamps pf (entryHighlights rawEntry) tick = (ts, tick')"
          by (cases "collectTimestamps pf (entryHighlights rawEntry) tick")
        show ?thesis
        proof (cases "ts = []")
          case True
          with \<open>isRecord rawEntry\<close> Some False c ih [of pages totalCount tick'] show ?thesis
            by (simp add: e)
        next
          case nonempty: False
          define pg where "pg = \<lparr>page_url = href parsedUrl,
                             page_title = derivePageTitle pf parsedUrl,
                             siteLabel = deriveSiteLabel pf parsedUrl,
                             page_path = derivePathLabel pf parsedUrl,
                             annotationsCount = length ts,
                             firstCreatedAt = Math_min ts,
                             lastCreatedAt = Math_max ts\<rparr>"
          have l: "collectPages pf (e # es) pages totalCount tick
              = collectPages pf es (pages @ [pg]) (totalCount + length ts) tick'"
            using \<open>isRecord rawEntry\<close> Some False c nonempty by (simp add: e pg_def)
          have r: "collectPages pf (e # es) [] 0 tick
              = collectPages pf es ([] @ [pg]) (0 + length ts) tick'"
            using \<open>isRecord rawEntry\<close> Some False c nonempty by (simp add: e pg_def)
          show ?thesis
            unfolding l r
            using ih [of "pages @ [pg]" "totalCount + length ts" tick']
              ih [of "[] @ [pg]" "0 + length ts" tick']
            by simp
        qed
      qed
    qed
  qed
qed

lemma collectPages_properties:
  "snd (collectPages pf es [] 0 tick)
      = sum_list (map annotationsCount (fst (collectPages pf es [] 0 tick)))
   \<and> (\<forall>p\<in>set (fst (collectPages pf es [] 0 tick)).
         1 \<le> annotationsCount p \<and> js_le (firstCreatedAt p) (lastCreatedAt p))
   \<and> map page_url (fst (collectPages pf es [] 0 tick))
       = map (entryHref pf) (filter (contributes pf) es)
   \<and> map annotationsCount (fst (collectPages pf es [] 0 tick))
       = map entryRecordCount (filter (contributes pf) es)"
proof (induction es arbitrary: tick)
  case Nil
  show ?case by simp
next
  case (Cons e es)
  obtain storageKey rawEntry where e: "e = (storageKey, rawEntry)" by (cases e)
  note ih = Cons.IH
  show ?case
  proof (cases "isRecord rawEntry")
    case False
    with ih [of tick] show ?thesis by (simp add: e contributes_def)
  next
    case True
    show ?thesis
    proof (cases "parseUrl pf (entryUrl storageKey rawEntry)")
      case None
      with True ih [of tick] show ?thesis by (simp add: e contributes_def)
    next
      case (Some parsedUrl)
      show ?thesis
      proof (cases "entryHighlights rawEntry = []")
        case True
        with \<open>isRecord rawEntry\<close> Some ih [of tick] show ?thesis
          by (simp add: e contributes_def)
      next
        case False
        obtain ts tick' where c: "collectTimestamps pf (entryHighlights rawEntry) tick = (ts, tick')"
          by (cases "collectTimestamps pf (entryHighlights rawEntry) tick")
        from collectTimestamps_finite [of pf "entryHighlights rawEntry" tick] c
        obtain rs where rs: "ts = map Finite rs"
          "length rs = length (filter isRecord (entryHighlights rawEntry))"
          by auto
        show ?thesis
        proof (cases "ts = []")
          case True
          with rs have "filter isRecord (entryHighlights rawEntry) = []" by simp
          with True \<open>isRecord rawEntry\<close> Some False c ih [of tick'] show ?thesis
            by (simp add: e contributes_def)
        next
          case nonempty: False
          define pg where "pg = \<lparr>page_url = href parsedUrl,
                             page_title = derivePageTitle pf parsedUrl,
                             siteLabel = deriveSiteLabel pf parsedUrl,
                             page_path = derivePathLabel pf parsedUrl,
                             annotationsCount = length ts,
                             firstCreatedAt = Math_min ts,
                             lastCreatedAt = Math_max ts\<rparr>"
          have r: "collectPages pf (e # es) [] 0 tick
              = collectPages pf es ([] @ [pg]) (0 + length ts) tick'"
            using \<open>isRecord rawEntry\<close> Some False c nonempty by (simp add: e pg_def)
          have r': "collectPages pf (e # es) [] 0 tick
              = (pg # fst (collectPages pf es [] 0 tick'),
                 length ts + snd (collectPages pf es [] 0 tick'))"
            unfolding r using collectPages_acc [of pf es "[] @ [pg]" "0 + length ts" tick']
            by simp
          have rne: "rs \<noteq> []" using nonempty rs(1) by simp
          have pgok: "1 \<le> annotationsCount pg \<and> js_le (firstCreatedAt pg) (lastCreatedAt pg)"
            using Math_min_le_max [OF rne] nonempty
            by (simp add: pg_def rs(1) Suc_le_eq)
          have con: "contributes pf e"
            using \<open>isRecord rawEntry\<close> Some rs nonempty
            by (auto simp: e contributes_def)
          have pu: "page_url pg = entryHref pf e" "annotationsCount pg = entryRecordCount e"
            using Some rs by (simp_all add: pg_def entryHref_def entryRecordCount_def e)
          have len: "length ts = entryRecordCount e"
            using rs by (simp add: entryRecordCount_def e)
          show ?thesis
            unfolding r' using ih [of tick'] pgok con pu len by simp
        qed
      qed
    qed
  qed
qed

text \<open>
  C10. For every raw storage value: \<open>totalPages\<close> is the number of emitted pages;
  \<open>recentPages\<close> and \<open>mostAnnotatedPages\<close> are permutations of the emitted pages;
  \<open>totalAnnotations\<close> is the sum of \<open>annotationsCount\<close> over them; every emitted
  page has \<open>annotationsCount \<ge> 1\<close> and \<open>firstCreatedAt \<le> lastCreatedAt\<close>; and the
  emitted pages are, in order, those of the entries that are records, whose URL parses
  and that hold at least one highlight record, each counting its highlight records.
\<close>

theorem C10_snapshot_invariants:
  "totalPages (buildAnnotationBrowserSnapshot pf raw) = length (emittedPages pf raw)
   \<and> mset (recentPages (buildAnnotationBrowserSnapshot pf raw)) = mset (emittedPages pf raw)
   \<and> mset (mostAnnotatedPages (buildAnnotationBrowserSnapshot pf raw)) = mset (emittedPages pf raw)
   \<and> totalAnnotations (buildAnnotationBrowserSnapshot pf raw)
       = sum_list (map annotationsCount (emittedPages pf raw))
   \<and> (\<forall>p\<in>set (emittedPages pf raw).
         1 \<le> annotationsCount p \<and> js_le (firstCreatedAt p) (lastCreatedAt p))
   \<and> map page_url (emittedPages pf raw)
       = map (entryHref pf) (filter (contributes pf) (Object_entries raw))
   \<and> map annotationsCount (emittedPages pf raw)
       = map entryRecordCount (filter (contributes pf) (Object_entries raw))"
proof (cases "isRecord raw")
  case False
  then have "Object_entries raw = []"
    by (cases raw) (simp_all add: isRecord_def Object_entries_def)
  with False show ?thesis
    by (simp add: buildAnnotationBrowserSnapshot_def emittedPages_def)
next
  case True
  obtain pages n where c: "collectPages pf (Object_entries raw) [] 0 0 = (pages, n)"
    by (cases "collectPages pf (Object_entries raw) [] 0 0")
  have b: "buildAnnotationBrowserSnapshot pf raw
      = \<lparr>totalPages = length pages, totalAnnotations = n,
         recentPages = Array_sort (sortByMostRecentLast pf) pages,
         mostAnnotatedPages = Array_sort (sortByMostAnnotations pf) pages\<rparr>"
    using True c by (simp add: buildAnnotationBrowserSnapshot_def)
  have e: "emittedPages pf raw = pages"
    using True c by (simp add: emittedPages_def)
  from collectPages_properties [of pf "Object_entries raw" 0] c
  show ?thesis
    unfolding b e by (simp add: mset_Array_sort)
qed

lemma example_contributing:
  "filter (contributes examplePlatform) (Object_entries exampleStorage)
     = [(''https://a.org/wiki/Maxwell'', maxwellEntry)]"
proof -
  have 1: "contributes examplePlatform (''https://a.org/wiki/Maxwell'', maxwellEntry)"
    by (simp add: contributes_def maxwellEntry_def isRecord_def entryUrl_def entryHighlights_def
        getProp_def examplePlatform_def)
  have 2: "\<not> contributes examplePlatform
      (''not a url'', JObject [(''highlights'', JArray [JObject [(''id'', JString ''5'')]])])"
    by (simp add: contributes_def isRecord_def entryUrl_def entryHighlights_def
        getProp_def examplePlatform_def)
  have 3: "\<not> contributes examplePlatform
      (''https://a.org/'', JObject [(''highlights'', JArray [JNull])])"
    by (simp add: contributes_def isRecord_def entryUrl_def entryHighlights_def
        getProp_def examplePlatform_def)
  show ?thesis
    by (simp add: exampleStorage_def Object_entries_def 1 2 3)
qed

theorem C10_snapshot_invariants_witness:
  "totalPages (buildAnnotationBrowserSnapshot examplePlatform exampleStorage) = 1
   \<and> totalAnnotations (buildAnnotationBrowserSnapshot examplePlatform exampleStorage) = 2
   \<and> map page_url (emittedPages examplePlatform exampleStorage) = [''https://a.org/wiki/Maxwell'']
   \<and> size (mset (recentPages (buildAnnotationBrowserSnapshot examplePlatform exampleStorage))) = 1
   \<and> size (mset (mostAnnotatedPages (buildAnnotationBrowserSnapshot examplePlatform exampleStorage))) = 1"
proof -
  have h: "entryHref examplePlatform (''https://a.org/wiki/Maxwell'', maxwellEntry)
      = ''https://a.org/wiki/Maxwell''"
    by (simp add: entryHref_def entryUrl_def getProp_def maxwellEntry_def examplePlatform_def)
  have n: "entryRecordCount (''https://a.org/wiki/Maxwell'', maxwellEntry) = 2"
    by (simp add: entryRecordCount_def entryHighlights_def getProp_def maxwellEntry_def
        isRecord_def)
  note t = C10_snapshot_invariants [of examplePlatform exampleStorage]
  from t have u: "map page_url (emittedPages examplePlatform exampleStorage)
      = [''https://a.org/wiki/Maxwell'']"
    unfolding example_contributing by (simp add: h)
  from t have c: "map annotationsCount (emittedPages examplePlatform exampleStorage) = [2]"
    unfolding example_contributing by (simp add: n)
  from u have l: "length (emittedPages examplePlatform exampleStorage) = 1"
    by (metis length_map length_Cons list.size(3) One_nat_def)
  from t l have p: "totalPages (buildAnnotationBrowserSnapshot examplePlatform exampleStorage) = 1"
    by simp
  from t c have a: "totalAnnotations (buildAnnotationBrowserSnapshot examplePlatform exampleStorage) = 2"
    by simp
  from t l have m: "size (mset (recentPages (buildAnnotationBrowserSnapshot examplePlatform exampleStorage))) = 1"
    "size (mset (mostAnnotatedPages (buildAnnotationBrowserSnapshot examplePlatform exampleStorage))) = 1"
    by simp_all
  from p a u m show ?thesis by simp
qed

lemma example_snapshot_pages:
  "emittedPages examplePlatform exampleStorage
     = [\<lparr>page_url = ''https://a.org/wiki/Maxwell'', page_title = ''a.org'', siteLabel = ''a.org'',
         page_path = ''/'', annotationsCount = 2, firstCreatedAt = Finite 1700000000001,
         lastCreatedAt = Finite 1700000000500\<rparr>]"
proof -
  have p: "parseInt10 ''1700000000001'' = Finite 1700000000001"
    by (simp add: parseInt10_def isStrWhiteSpaceChar_def isDecimalDigit_def digitValue_def
        numberOfInt_def DOUBLE_OVERFLOW_def)
  have t: "collectTimestamps examplePlatform (entryHighlights maxwellEntry) 0
      = ([Finite 1700000000500, Finite 1700000000001], 2)"
    by (simp add: entryHighlights_def getProp_def maxwellEntry_def getHighlightCreatedAt_def
        isRecord_def normalizeHighlightCreatedAt_def isValidHighlightTimestamp_def
        Number_isFinite_def greaterThanZero_def parseHighlightIdTimestamp_def p)
  have e: "entryHighlights maxwellEntry \<noteq> []" "isRecord maxwellEntry"
    "parseUrl examplePlatform (entryUrl ''https://a.org/wiki/Maxwell'' maxwellEntry)
       = Some \<lparr>href = ''https://a.org/wiki/Maxwell'', hostname = ''a.org'', pathname = ''/''\<rparr>"
    by (simp_all add: entryHighlights_def getProp_def maxwellEntry_def isRecord_def entryUrl_def
        examplePlatform_def)
  have l: "derivePageTitle examplePlatform = hostname" "deriveSiteLabel examplePlatform = hostname"
    "derivePathLabel examplePlatform = pathname"
    by (simp_all add: examplePlatform_def)
  have o: "isRecord (JObject es)" "entryUrl ''not a url'' (JObject [(''highlights'', v)]) = ''not a url''"
    "parseUrl examplePlatform ''not a url'' = None"
    "entryUrl ''https://a.org/'' (JObject [(''highlights'', v)]) = ''https://a.org/''"
    "parseUrl examplePlatform ''https://a.org/''
       = Some \<lparr>href = ''https://a.org/'', hostname = ''a.org'', pathname = ''/''\<rparr>"
    "entryHighlights (JObject [(''highlights'', JArray [JNull])]) = [JNull]"
    "getHighlightCreatedAt now JNull = None" for es v now
    by (simp_all add: isRecord_def entryUrl_def entryHighlights_def getProp_def examplePlatform_def
        getHighlightCreatedAt_def)
  show ?thesis
    by (simp add: emittedPages_def exampleStorage_def Object_entries_def e t l o
        Math_min_def Math_max_def js_min2_def js_max2_def js_le_def)
qed

end
